(* ===== verification/Prelude.thy ===== *)
theory Prelude
  imports Main "HOL-Library.Multiset"
begin

text \<open>
  Shared vocabulary of the filegit development: the types that name the
  program's data (paths, file contents, hex digests), the collection of
  rewrite rules the component theories contribute to, and generic lemmas on
  lists and maps that several components use.
\<close>

section \<open>Types of the model\<close>

text \<open>
  A path is the string \<open>str(Path(p).resolve())\<close> the source keys everything by;
  file contents are byte strings (an Isabelle \<open>char\<close> is a byte); a digest is
  the hex string \<open>hashlib.sha256(...).hexdigest()\<close>. The hash function itself is
  a parameter \<open>H\<close> of the operations that hash, so that the theorems hold for
  SHA-256 and for any other function; where a theorem needs it, collision
  freedom is the hypothesis \<open>inj H\<close>.
\<close>

type_synonym path = string
type_synonym bytes = string
type_synonym digest = string
type_synonym hash_fn = "bytes \<Rightarrow> digest"

named_theorems fg_simps \<open>rewrite rules of the filegit model shared by the component proofs\<close>

section \<open>Lists\<close>

text \<open>\<open>fold max\<close> over a list bounds each of its elements and its start value.\<close>

lemma fold_max_ge_start [fg_simps]: "(m::nat) \<le> fold max xs m"
proof (induction xs arbitrary: m)
  case Nil
  then show ?case by simp
next
  case (Cons a xs)
  have "m \<le> max a m" by simp
  also have "\<dots> \<le> fold max xs (max a m)" by (rule Cons.IH)
  finally show ?case by simp
qed

lemma fold_max_ge_member: "(x::nat) \<in> set xs \<Longrightarrow> x \<le> fold max xs m"
proof (induction xs arbitrary: m)
  case Nil
  then show ?case by simp
next
  case (Cons y ys)
  show ?case
  proof (cases "x = y")
    case True
    have "y \<le> max m y" by simp
    also have "\<dots> \<le> fold max ys (max m y)" by (rule fold_max_ge_start)
    finally show ?thesis using True by (simp add: max.commute)
  next
    case False
    with Cons show ?thesis by (simp add: max.commute)
  qed
qed

lemma fold_max_append [fg_simps]: "fold max (xs @ [x]) m = max (fold max xs m) (x::nat)"
  by (simp add: max.commute)

text \<open>A list sorted by a strict order on a key has distinct keys.\<close>

lemma sorted_wrt_less_distinct: "sorted_wrt (<) (map f xs) \<Longrightarrow> distinct (map (f::'a \<Rightarrow> nat) xs)"
  by (induction xs) (fastforce simp: sorted_wrt_map)+

lemma list_all2_map_eq: "list_all2 (\<lambda>x y. f x = g y) xs ys \<Longrightarrow> map f xs = map g ys"
  by (induction rule: list_all2_induct) simp_all

text \<open>Sorting a list whose last element has the strictly largest key.\<close>

lemma insort_key_snoc_greater:
  "f a < f x \<Longrightarrow> insort_key f a (zs @ [x]) = insort_key f a zs @ [x]"
  by (induction zs) auto

lemma sort_key_snoc_greatest:
  "\<forall>y\<in>set xs. f y < f x \<Longrightarrow> sort_key f (xs @ [x]) = sort_key f xs @ [x]"
  by (induction xs) (auto simp: insort_key_snoc_greater)

text \<open>Sorting depends only on the order the key induces on the elements.\<close>

lemma insort_key_cong_order:
  "\<forall>y\<in>set ys. (f x \<le> f y \<longleftrightarrow> g x \<le> g y) \<Longrightarrow> insort_key f x ys = insort_key g x ys"
  by (induction ys) auto

lemma sort_key_cong_order:
  assumes "\<forall>a\<in>set xs. \<forall>b\<in>set xs. (f a \<le> f b \<longleftrightarrow> g a \<le> g b)"
  shows "sort_key f xs = sort_key g xs"
  using assms
proof (induction xs)
  case (Cons x xs)
  then have "sort_key f xs = sort_key g xs" by simp
  moreover have "\<forall>y\<in>set (sort_key g xs). (f x \<le> f y \<longleftrightarrow> g x \<le> g y)"
    using Cons.prems by simp
  ultimately show ?case by (simp add: insort_key_cong_order)
qed simp

lemma insort_key_map: "insort_key f (h x) (map h ys) = map h (insort_key (\<lambda>a. f (h a)) x ys)"
  by (induction ys) auto

lemma sort_key_map: "sort_key f (map h xs) = map h (sort_key (\<lambda>a. f (h a)) xs)"
  by (induction xs) (simp_all add: insort_key_map)

end
