(* ===== verification/Object_Store.thy ===== *)
theory Object_Store
  imports Prelude "HOL-Library.While_Combinator"
begin

text \<open>
  The content store and the change detector: the user's files, the directory
  \<open>~/.filegit/objects\<close> whose entries are named by digest, \<open>get_file_hash\<close>
  (src/filegit.py and src/filegit_daemon.py, the same code in both) with its
  8192-byte read loop over a \<open>hashlib\<close> object, and the two \<open>shutil.copy\<close>
  calls that move bytes into and out of the object directory. Operations take
  any extension of the \<open>store\<close> record, so the snapshot engine's world
  (which adds the commit index) uses them as they are.
\<close>

section \<open>State and errors\<close>

record store =
  files :: "path \<rightharpoonup> bytes"
  objects :: "digest \<rightharpoonup> bytes"

text \<open>
  The exceptions the source can raise on these files: \<open>FileNotFoundError\<close> from
  \<open>shutil.copy\<close> on a missing source, for a user file or an object.
\<close>

datatype fg_error = FileNotFound path | ObjectNotFound digest

text \<open>Python truthiness of \<open>current_hash: str | None\<close>: \<open>None\<close> and \<open>''\<close> are false.\<close>

definition truthy :: "digest option \<Rightarrow> bool" where
  "truthy x = (case x of None \<Rightarrow> False | Some s \<Rightarrow> s \<noteq> [])"

section \<open>Hashing a file: get_file_hash\<close>

text \<open>
  A \<open>hashlib\<close> object is modelled by the chunks it has been fed, in order: the
  library documents that \<open>m.update(a); m.update(b)\<close> is \<open>m.update(a + b)\<close>, so
  \<open>hexdigest()\<close> is the hash function applied to their concatenation.
\<close>

record sha_ctx =
  fed :: "bytes list"

definition sha256_new :: sha_ctx where
  "sha256_new = \<lparr>fed = []\<rparr>"

definition sha_update :: "sha_ctx \<Rightarrow> bytes \<Rightarrow> sha_ctx" where
  "sha_update ctx chunk = ctx\<lparr>fed := fed ctx @ [chunk]\<rparr>"

definition hexdigest :: "hash_fn \<Rightarrow> sha_ctx \<Rightarrow> digest" where
  "hexdigest H ctx = H (concat (fed ctx))"

definition chunk_size :: nat where
  "chunk_size = 8192"

text \<open>\<open>while chunk := f.read(8192): hasher.update(chunk)\<close>; \<open>rest\<close> is the unread part of the file.\<close>

function read_chunks :: "sha_ctx \<Rightarrow> bytes \<Rightarrow> sha_ctx" where
  "read_chunks ctx rest =
     (let chunk = take chunk_size rest
      in if chunk = [] then ctx else read_chunks (sha_update ctx chunk) (drop chunk_size rest))"
  by pat_completeness auto
termination
  by (relation "measure (\<lambda>(ctx, rest). length rest)") (auto simp: chunk_size_def)

declare read_chunks.simps [simp del]

text \<open>
  The same loop kept as a loop. The walrus reads the chunk before the test, so
  the loop state is the hasher, the unread rest of the file and the chunk just
  read; the body feeds the chunk to the hasher and reads the next one.
  \<open>while_option\<close> is \<open>None\<close> when the loop never stops.
\<close>

type_synonym read_state = "sha_ctx \<times> bytes \<times> bytes"

definition chunk_pending :: "read_state \<Rightarrow> bool" where
  "chunk_pending s = (case s of (h, f, chunk) \<Rightarrow> chunk \<noteq> [])"

definition read_step :: "read_state \<Rightarrow> read_state" where
  "read_step s = (case s of (h, f, chunk) \<Rightarrow>
     (sha_update h chunk, drop chunk_size f, take chunk_size f))"

definition read_loop :: "sha_ctx \<Rightarrow> bytes \<Rightarrow> sha_ctx option" where
  "read_loop ctx bs =
     map_option fst (while_option chunk_pending read_step
       (ctx, drop chunk_size bs, take chunk_size bs))"

definition get_file_hash :: "hash_fn \<Rightarrow> (path \<rightharpoonup> bytes) \<Rightarrow> path \<Rightarrow> digest option" where
  "get_file_hash H fs p =
     (case fs p of
        None \<Rightarrow> None
      | Some bs \<Rightarrow> Some (hexdigest H (read_chunks sha256_new bs)))"

text \<open>
  The watcher's own copy of \<open>get_file_hash\<close> (src/filegit_daemon.py), the same
  code, written here with its loop kept as a loop: the outer \<open>None\<close> is a loop
  that never stops, \<open>Some None\<close> a missing file.
\<close>

definition daemon_get_file_hash :: "hash_fn \<Rightarrow> (path \<rightharpoonup> bytes) \<Rightarrow> path \<Rightarrow> digest option option" where
  "daemon_get_file_hash H fs p =
     (case fs p of
        None \<Rightarrow> Some None
      | Some bs \<Rightarrow> map_option (\<lambda>ctx. Some (hexdigest H ctx)) (read_loop sha256_new bs))"

section \<open>Copies into and out of the object directory\<close>

text \<open>\<open>shutil.copy(filepath, OBJECTS_DIR / current_hash)\<close>: overwrites the object.\<close>

definition copy_to_object :: "path \<Rightarrow> digest \<Rightarrow> 'a store_scheme \<Rightarrow> fg_error + 'a store_scheme" where
  "copy_to_object p d st =
     (case files st p of
        None \<Rightarrow> Inl (FileNotFound p)
      | Some bs \<Rightarrow> Inr (st\<lparr>objects := (objects st)(d \<mapsto> bs)\<rparr>))"

text \<open>\<open>shutil.copy(OBJECTS_DIR / selected_hash, self.filepath)\<close>: overwrites the user's file.\<close>

definition restore_from_object :: "digest \<Rightarrow> path \<Rightarrow> 'a store_scheme \<Rightarrow> fg_error + 'a store_scheme" where
  "restore_from_object d p st =
     (case objects st d of
        None \<Rightarrow> Inl (ObjectNotFound d)
      | Some bs \<Rightarrow> Inr (st\<lparr>files := (files st)(p \<mapsto> bs)\<rparr>))"

text \<open>The format of \<open>hexdigest()\<close>: a non-empty string of lowercase hex digits.\<close>

definition hex_digest :: "digest \<Rightarrow> bool" where
  "hex_digest d \<longleftrightarrow> d \<noteq> [] \<and> set d \<subseteq> set ''0123456789abcdef''"

section \<open>Invariant\<close>

text \<open>Every object is stored under the digest of its own bytes (self-verifying names).\<close>

definition objects_verified :: "hash_fn \<Rightarrow> 'a store_scheme \<Rightarrow> bool" where
  "objects_verified H st \<longleftrightarrow> (\<forall>d bs. objects st d = Some bs \<longrightarrow> H bs = d)"

section \<open>Lemmas\<close>

text \<open>The chunks the loop feeds: the whole rest, in full 8192-byte pieces and one shorter last piece.\<close>

lemma read_chunks_chunks:
  "\<exists>cs. fed (read_chunks ctx rest) = fed ctx @ cs \<and> concat cs = rest \<and>
        length cs = (length rest + (chunk_size - 1)) div chunk_size \<and>
        (\<forall>c\<in>set cs. 0 < length c \<and> length c \<le> chunk_size) \<and>
        (\<forall>c\<in>set (butlast cs). length c = chunk_size)"
proof (induction ctx rest rule: read_chunks.induct)
  case (1 ctx rest)
  show ?case
  proof (cases "rest = []")
    case True
    then have "read_chunks ctx rest = ctx" by (simp add: read_chunks.simps [of ctx "[]"])
    with True show ?thesis by (intro exI [of _ "[]"]) (simp add: chunk_size_def)
  next
    case False
    let ?c = "take chunk_size rest"
    have ne: "?c \<noteq> []" using False by (simp add: chunk_size_def)
    then have unf: "read_chunks ctx rest = read_chunks (sha_update ctx ?c) (drop chunk_size rest)"
      by (simp add: read_chunks.simps [of ctx rest])
    from "1.IH" [OF refl ne] obtain cs where
      fed: "fed (read_chunks (sha_update ctx ?c) (drop chunk_size rest)) = fed (sha_update ctx ?c) @ cs"
      and cat: "concat cs = drop chunk_size rest"
      and len: "length cs = (length (drop chunk_size rest) + (chunk_size - 1)) div chunk_size"
      and sz: "\<forall>c\<in>set cs. 0 < length c \<and> length c \<le> chunk_size"
      and full: "\<forall>c\<in>set (butlast cs). length c = chunk_size"
      by blast
    have L: "length (?c # cs) = (length rest + (chunk_size - 1)) div chunk_size"
    proof (cases "length rest < chunk_size")
      case True
      have "0 < length rest" using False by simp
      with True have "(length rest + (chunk_size - 1)) div chunk_size = 1"
        by (intro div_nat_eqI) (simp_all add: chunk_size_def Suc_le_eq)
      with len True show ?thesis by (simp add: chunk_size_def)
    next
      case ge: False
      have "length rest + (chunk_size - 1) = (length rest - chunk_size + (chunk_size - 1)) + chunk_size"
        using ge by (simp add: chunk_size_def)
      with len show ?thesis by (simp add: chunk_size_def)
    qed
    have B: "\<forall>c\<in>set (butlast (?c # cs)). length c = chunk_size"
    proof (cases "cs = []")
      case False
      then have "drop chunk_size rest \<noteq> []" using cat sz by (cases cs) auto
      then have "length ?c = chunk_size" by simp
      with full False show ?thesis by simp
    qed simp
    have S: "\<forall>c\<in>set (?c # cs). 0 < length c \<and> length c \<le> chunk_size"
      using sz ne by simp
    have F: "fed (read_chunks ctx rest) = fed ctx @ (?c # cs)"
      using unf fed by (simp add: sha_update_def)
    have C: "concat (?c # cs) = rest" using cat by simp
    show ?thesis by (rule exI [of _ "?c # cs"]) (intro conjI F C L S B)
  qed
qed

lemma read_chunks_fed: "concat (fed (read_chunks ctx rest)) = concat (fed ctx) @ rest"
  using read_chunks_chunks [of ctx rest] by auto

lemma read_loop_from:
  "while_option chunk_pending read_step (ctx, drop chunk_size rest, take chunk_size rest) =
     Some (read_chunks ctx rest, [], [])"
proof (induction ctx rest rule: read_chunks.induct)
  case (1 ctx rest)
  show ?case
  proof (cases "take chunk_size rest = []")
    case True
    then have "rest = []" by (simp add: chunk_size_def)
    then show ?thesis
      by (simp add: while_option_unfold [of _ _ "(ctx, [], [])"] chunk_pending_def
                    read_chunks.simps [of ctx "[]"])
  next
    case False
    then have "read_chunks ctx rest = read_chunks (sha_update ctx (take chunk_size rest)) (drop chunk_size rest)"
      by (simp add: read_chunks.simps [of ctx rest])
    with 1 False show ?thesis
      by (simp add: while_option_unfold [of _ _ "(ctx, drop chunk_size rest, take chunk_size rest)"]
                    chunk_pending_def read_step_def)
  qed
qed

lemma daemon_get_file_hash_agrees: "daemon_get_file_hash H fs p = Some (get_file_hash H fs p)"
  by (simp add: daemon_get_file_hash_def get_file_hash_def read_loop_def read_loop_from split: option.split)

lemma get_file_hash_None [fg_simps]: "fs p = None \<Longrightarrow> get_file_hash H fs p = None"
  by (simp add: get_file_hash_def)

lemma copy_to_object_Inr [fg_simps]:
  "files st p = Some bs \<Longrightarrow> copy_to_object p d st = Inr (st\<lparr>objects := (objects st)(d \<mapsto> bs)\<rparr>)"
  by (simp add: copy_to_object_def)

lemma restore_from_object_Inr [fg_simps]:
  "objects st d = Some bs \<Longrightarrow> restore_from_object d p st = Inr (st\<lparr>files := (files st)(p \<mapsto> bs)\<rparr>)"
  by (simp add: restore_from_object_def)

lemma copy_to_object_objects_dom:
  "copy_to_object p d st = Inr st' \<Longrightarrow> dom (objects st') = insert d (dom (objects st))"
  by (auto simp: copy_to_object_def split: option.splits)

lemma copy_to_object_files [fg_simps]:
  "copy_to_object p d st = Inr st' \<Longrightarrow> files st' = files st"
  by (auto simp: copy_to_object_def split: option.splits)

lemma restore_from_object_objects [fg_simps]:
  "restore_from_object d p st = Inr st' \<Longrightarrow> objects st' = objects st"
  by (auto simp: restore_from_object_def split: option.splits)

lemma hexdigest_read_chunks [fg_simps]: "hexdigest H (read_chunks sha256_new bs) = H bs"
  by (simp add: hexdigest_def read_chunks_fed sha256_new_def)

lemma get_file_hash_Some [fg_simps]: "fs p = Some bs \<Longrightarrow> get_file_hash H fs p = Some (H bs)"
  by (simp add: get_file_hash_def fg_simps)

lemma copy_to_object_verified:
  "objects_verified H st \<Longrightarrow> files st p = Some bs \<Longrightarrow> H bs = d \<Longrightarrow>
   copy_to_object p d st = Inr st' \<Longrightarrow> objects_verified H st'"
  by (auto simp: objects_verified_def copy_to_object_def split: if_splits)

lemma restore_from_object_verified:
  "objects_verified H st \<Longrightarrow> restore_from_object d p st = Inr st' \<Longrightarrow> objects_verified H st'"
  by (simp add: objects_verified_def restore_from_object_objects)

section \<open>Properties of the content store\<close>

text \<open>
  C9: Reading the file in 8192-byte chunks and feeding each to the hasher gives
  the digest of the whole content, for files of every length: \<open>get_file_hash\<close>
  is the hash of the file's bytes, and \<open>None\<close> exactly when the file does not exist.
\<close>

theorem get_file_hash_streaming: "get_file_hash H fs p = map_option H (fs p)"
  by (cases "fs p") (simp_all add: get_file_hash_def fg_simps)

text \<open>
  C10: Restoring a stored version succeeds when its object exists, and afterwards
  the file's digest is the restored digest, provided every object is stored under
  the digest of its bytes.
\<close>

theorem restore_then_hash:
  assumes "objects_verified H st" and "objects st d \<noteq> None"
  shows "\<exists>st'. restore_from_object d p st = Inr st' \<and> get_file_hash H (files st') p = Some d"
proof -
  from assms(2) obtain bs where bs: "objects st d = Some bs" by blast
  with assms(1) have "H bs = d" by (simp add: objects_verified_def)
  with bs show ?thesis by (simp add: fg_simps)
qed

text \<open>
  C34: The read loop feeds the hasher the whole file in order, in
  \<open>ceil(n / 8192)\<close> chunks, each non-empty and at most 8192 bytes, every chunk but
  the last exactly 8192 bytes: \<open>f.read(8192)\<close> returns short only at the end.
\<close>

theorem read_chunks_bounds:
  "concat (fed (read_chunks sha256_new bs)) = bs \<and>
   length (fed (read_chunks sha256_new bs)) = (length bs + 8191) div 8192 \<and>
   (\<forall>c\<in>set (fed (read_chunks sha256_new bs)). 0 < length c \<and> length c \<le> 8192) \<and>
   (\<forall>c\<in>set (butlast (fed (read_chunks sha256_new bs))). length c = 8192)"
  using read_chunks_chunks [of sha256_new bs] by (auto simp: sha256_new_def chunk_size_def)

text \<open>
  C36: The read loop \<open>while chunk := f.read(8192)\<close> stops on every file, whatever
  its length, and stops with the hasher fed exactly as the recursive model
  \<open>read_chunks\<close> feeds it.
\<close>

theorem read_loop_terminates: "read_loop ctx bs = Some (read_chunks ctx bs)"
  by (simp add: read_loop_def read_loop_from)

section \<open>Witnesses\<close>

lemma restore_then_hash_witness:
  "restore_from_object ''ab'' ''f'' \<lparr>files = Map.empty, objects = [''ab'' \<mapsto> ''ab'']\<rparr> =
     Inr \<lparr>files = [''f'' \<mapsto> ''ab''], objects = [''ab'' \<mapsto> ''ab'']\<rparr> \<and>
   get_file_hash id [''f'' \<mapsto> ''ab''] ''f'' = Some ''ab''"
proof -
  have v: "objects_verified id \<lparr>files = Map.empty, objects = [''ab'' \<mapsto> ''ab'']\<rparr>"
    by (simp add: objects_verified_def)
  obtain st' where "restore_from_object ''ab'' ''f'' \<lparr>files = Map.empty, objects = [''ab'' \<mapsto> ''ab'']\<rparr> = Inr st'"
      and "get_file_hash id (files st') ''f'' = Some ''ab''"
    using restore_then_hash [OF v, of "''ab''" "''f''"] by auto
  then show ?thesis by (auto simp: restore_from_object_def)
qed


lemma read_chunks_bounds_witness:
  "map length (fed (read_chunks sha256_new (replicate 8193 CHR ''x''))) = [8192, 1]"
proof -
  define cs where "cs = fed (read_chunks sha256_new (replicate 8193 CHR ''x''))"
  have b: "concat cs = replicate 8193 CHR ''x''" "length cs = 2"
          "\<forall>c\<in>set (butlast cs). length c = 8192"
    using read_chunks_bounds [of "replicate 8193 CHR ''x''"] unfolding cs_def by simp_all
  from b(2) obtain c1 c2 where c: "cs = [c1, c2]"
    by (cases cs rule: list.exhaust; cases "tl cs" rule: list.exhaust) auto
  have "length (concat cs) = 8193" using b(1) by (simp only: length_replicate)
  with b(3) c show ?thesis unfolding cs_def [symmetric] by simp
qed
end
