(* ===== verification/Commit_Index.thy ===== *)
theory Commit_Index
  imports Prelude "HOL-Library.Product_Lexorder"
begin

text \<open>
  The commit index: the SQLite table \<open>commits\<close> of \<open>~/.filegit/index.db\<close>
  created by \<open>setup_repo\<close> (src/filegit.py), and the SQL statements the two
  processes run on it. The table is the list of its rows in rowid order
  together with the \<open>AUTOINCREMENT\<close> counter (\<open>sqlite_sequence\<close>). Timestamps are
  of any linear order \<open>'ts\<close>; the source's \<open>datetime.now().isoformat()\<close>
  strings compared as TEXT are one instance.
\<close>

section \<open>Rows and the table\<close>

text \<open>The column \<open>type\<close>: \<open>'auto'\<close> (the column default) or \<open>'manual'\<close>.\<close>

datatype commit_type = Auto | Manual

record 'ts commit =
  cid :: nat
  file_path :: path
  object_hash :: digest
  message :: "string option"
  timestamp :: 'ts
  ctype :: commit_type

record 'ts index_db =
  rows :: "'ts commit list"
  seq :: nat

text \<open>\<open>CREATE TABLE IF NOT EXISTS commits (...)\<close> on a fresh database.\<close>

definition empty_db :: "'ts index_db" where
  "empty_db = \<lparr>rows = [], seq = 0\<rparr>"

section \<open>Statements\<close>

text \<open>
  \<open>INSERT INTO commits (file_path, object_hash, timestamp[, type]) VALUES (...)\<close>:
  both inserts of the source leave \<open>message\<close> NULL and \<open>type\<close> \<open>'auto'\<close>. With
  \<open>AUTOINCREMENT\<close> SQLite takes as the new rowid one more than the larger of the
  sequence counter and the largest rowid in the table, and records it in the counter.
\<close>

definition max_rowid :: "'ts commit list \<Rightarrow> nat" where
  "max_rowid rs = fold max (map cid rs) 0"

definition insert_commit :: "path \<Rightarrow> digest \<Rightarrow> 'ts \<Rightarrow> 'ts index_db \<Rightarrow> nat \<times> 'ts index_db" where
  "insert_commit p d ts db =
     (let i = Suc (max (seq db) (max_rowid (rows db)))
      in (i, \<lparr>rows = rows db @ [\<lparr>cid = i, file_path = p, object_hash = d, message = None,
                                 timestamp = ts, ctype = Auto\<rparr>],
              seq = i\<rparr>))"

text \<open>\<open>UPDATE commits SET type = 'manual', message = ? WHERE id = ?\<close>.\<close>

definition promote_commit :: "nat \<Rightarrow> string \<Rightarrow> 'ts index_db \<Rightarrow> 'ts index_db" where
  "promote_commit i msg db =
     db\<lparr>rows := map (\<lambda>r. if cid r = i then r\<lparr>ctype := Manual, message := Some msg\<rparr> else r) (rows db)\<rparr>"

text \<open>\<open>DELETE FROM commits WHERE file_path = ?\<close>.\<close>

definition delete_path :: "path \<Rightarrow> 'ts index_db \<Rightarrow> 'ts index_db" where
  "delete_path p db = db\<lparr>rows := filter (\<lambda>r. file_path r \<noteq> p) (rows db)\<rparr>"

text \<open>
  \<open>SELECT * FROM commits WHERE file_path = ? ORDER BY timestamp DESC\<close>. SQL
  leaves the order of rows with equal timestamps open; the model fixes it to the
  larger rowid first (the order of a descending sort on \<open>(timestamp, id)\<close>).
  The lemmas below show that the result is what the SQL statement admits
  (\<open>history_refines_order_by\<close>), so the choice only matters on ties.
\<close>

definition select_path :: "path \<Rightarrow> 'ts index_db \<Rightarrow> 'ts commit list" where
  "select_path p db = filter (\<lambda>r. file_path r = p) (rows db)"

definition order_by_ts_desc :: "('ts::linorder) commit list \<Rightarrow> 'ts commit list" where
  "order_by_ts_desc rs = rev (sort_key (\<lambda>r. (timestamp r, cid r)) rs)"

definition history :: "path \<Rightarrow> ('ts::linorder) index_db \<Rightarrow> 'ts commit list" where
  "history p db = order_by_ts_desc (select_path p db)"

text \<open>\<open>... ORDER BY timestamp DESC LIMIT 1\<close> and \<open>fetchone()\<close>.\<close>

definition latest :: "path \<Rightarrow> ('ts::linorder) index_db \<Rightarrow> 'ts commit option" where
  "latest p db = (case history p db of [] \<Rightarrow> None | r # _ \<Rightarrow> Some r)"

text \<open>\<open>last_hash = last_hash_row[0] if last_hash_row else None\<close>.\<close>

definition latest_hash :: "path \<Rightarrow> ('ts::linorder) index_db \<Rightarrow> digest option" where
  "latest_hash p db = map_option object_hash (latest p db)"

section \<open>Well-formedness\<close>

text \<open>
  Rowids increase along the table and none exceeds the sequence counter.
\<close>

definition index_wf :: "'ts index_db \<Rightarrow> bool" where
  "index_wf db \<longleftrightarrow> sorted_wrt (<) (map cid (rows db)) \<and> (\<forall>i\<in>set (map cid (rows db)). i \<le> seq db)"

section \<open>Operations as a datatype\<close>

text \<open>
  The statements that change the table, as values: the snapshot engine, the
  dashboard and the watcher all act on the index through these.
\<close>

datatype 'ts index_op = Insert path digest 'ts | Promote nat string | Delete path

fun apply_index_op :: "'ts index_op \<Rightarrow> 'ts index_db \<Rightarrow> 'ts index_db" where
  "apply_index_op (Insert p d ts) db = snd (insert_commit p d ts db)"
| "apply_index_op (Promote i msg) db = promote_commit i msg db"
| "apply_index_op (Delete p) db = delete_path p db"

text \<open>
  How a row may change: only its kind (from auto to manual) and its message;
  rowid, path, digest and timestamp stay, and a manual row stays manual.
\<close>

definition row_evolves :: "'ts commit \<Rightarrow> 'ts commit \<Rightarrow> bool" where
  "row_evolves r0 r1 \<longleftrightarrow>
     cid r0 = cid r1 \<and> file_path r0 = file_path r1 \<and> object_hash r0 = object_hash r1 \<and>
     timestamp r0 = timestamp r1 \<and> (ctype r0 = Manual \<longrightarrow> ctype r1 = Manual)"

definition run_index_ops :: "'ts index_op list \<Rightarrow> 'ts index_db \<Rightarrow> 'ts index_db" where
  "run_index_ops ops db = fold apply_index_op ops db"


section \<open>Lemmas\<close>

subsection \<open>Rowids\<close>

lemma max_rowid_ge: "r \<in> set rs \<Longrightarrow> cid r \<le> max_rowid rs"
  unfolding max_rowid_def by (rule fold_max_ge_member) simp

lemma insert_commit_id:
  "fst (insert_commit p d ts db) = Suc (max (seq db) (max_rowid (rows db)))"
  by (simp add: insert_commit_def Let_def)

lemma insert_commit_rows [fg_simps]:
  "rows (snd (insert_commit p d ts db)) =
     rows db @ [\<lparr>cid = fst (insert_commit p d ts db), file_path = p, object_hash = d,
                 message = None, timestamp = ts, ctype = Auto\<rparr>]"
  by (simp add: insert_commit_def Let_def)

lemma insert_commit_seq [fg_simps]:
  "seq (snd (insert_commit p d ts db)) = fst (insert_commit p d ts db)"
  by (simp add: insert_commit_def Let_def)

lemma promote_commit_seq [fg_simps]: "seq (promote_commit i msg db) = seq db"
  by (simp add: promote_commit_def)

lemma delete_path_seq [fg_simps]: "seq (delete_path p db) = seq db"
  by (simp add: delete_path_def)

text \<open>The new rowid exceeds the counter and every rowid in the table.\<close>

lemma insert_commit_id_fresh:
  "seq db < fst (insert_commit p d ts db) \<and>
   (\<forall>r\<in>set (rows db). cid r < fst (insert_commit p d ts db))"
  using max_rowid_ge [of _ "rows db"] by (fastforce simp: insert_commit_id)

subsection \<open>Well-formedness is kept by every statement\<close>

lemma empty_db_wf: "index_wf empty_db"
  by (simp add: index_wf_def empty_db_def)

lemma insert_commit_wf: "index_wf db \<Longrightarrow> index_wf (snd (insert_commit p d ts db))"
  using insert_commit_id_fresh [of db p d ts]
  by (auto simp: index_wf_def sorted_wrt_append fg_simps)

lemma promote_commit_cids [fg_simps]: "map cid (rows (promote_commit i msg db)) = map cid (rows db)"
  by (simp add: promote_commit_def)

lemma promote_commit_hashes [fg_simps]:
  "map object_hash (rows (promote_commit i msg db)) = map object_hash (rows db)"
  by (simp add: promote_commit_def)

lemma promote_commit_hash_set [fg_simps]:
  "object_hash ` set (rows (promote_commit i msg db)) = object_hash ` set (rows db)"
  by (metis promote_commit_hashes set_map)

lemma delete_path_rows_subset [fg_simps]: "set (rows (delete_path p db)) \<subseteq> set (rows db)"
  by (auto simp: delete_path_def)

lemma promote_commit_wf: "index_wf db \<Longrightarrow> index_wf (promote_commit i msg db)"
  unfolding index_wf_def by (simp add: promote_commit_cids promote_commit_seq)

lemma delete_path_wf: "index_wf db \<Longrightarrow> index_wf (delete_path p db)"
  by (auto simp: index_wf_def delete_path_def sorted_wrt_filter sorted_wrt_map)

lemma apply_index_op_wf: "index_wf db \<Longrightarrow> index_wf (apply_index_op op db)"
  by (cases op) (simp_all add: insert_commit_wf promote_commit_wf delete_path_wf)

subsection \<open>Selection and order\<close>

lemma select_path_insert [fg_simps]:
  "select_path q (snd (insert_commit p d ts db)) =
     select_path q db @
     (if q = p then [\<lparr>cid = fst (insert_commit p d ts db), file_path = p, object_hash = d,
                     message = None, timestamp = ts, ctype = Auto\<rparr>] else [])"
  by (simp add: select_path_def fg_simps)

lemma select_path_delete [fg_simps]:
  "select_path q (delete_path p db) = (if q = p then [] else select_path q db)"
  by (auto simp: select_path_def delete_path_def intro!: filter_cong)

lemma history_mset: "mset (history p db) = mset (select_path p db)"
  by (simp add: history_def order_by_ts_desc_def)

lemma history_set [fg_simps]: "set (history p db) = set (select_path p db)"
  by (simp add: history_def order_by_ts_desc_def)

lemma history_sorted_key:
  "sorted_wrt (\<lambda>a b. (timestamp b, cid b) \<le> (timestamp a, cid a)) (history p db)"
proof -
  have "sorted (map (\<lambda>r. (timestamp r, cid r)) (sort_key (\<lambda>r. (timestamp r, cid r)) (select_path p db)))"
    by (rule sorted_sort_key)
  then show ?thesis
    by (simp add: history_def order_by_ts_desc_def sorted_wrt_rev sorted_map)
qed

lemma history_desc_by_timestamp:
  "sorted_wrt (\<lambda>a b. timestamp b \<le> timestamp a) (history p db)"
  by (rule sorted_wrt_mono_rel [OF _ history_sorted_key]) (auto simp: less_eq_prod_def)

text \<open>A row inserted at a time no earlier than the path's other rows heads its history.\<close>

lemma history_insert_newest:
  assumes "\<forall>r\<in>set (select_path p db). timestamp r \<le> ts"
  shows "history p (snd (insert_commit p d ts db)) =
           \<lparr>cid = fst (insert_commit p d ts db), file_path = p, object_hash = d,
            message = None, timestamp = ts, ctype = Auto\<rparr> # history p db"
proof -
  let ?k = "\<lambda>r::'a commit. (timestamp r, cid r)"
  have "\<forall>r\<in>set (select_path p db). cid r < fst (insert_commit p d ts db)"
    using insert_commit_id_fresh [of db p d ts] by (auto simp: select_path_def)
  with assms have "\<forall>r\<in>set (select_path p db).
      ?k r < ?k \<lparr>cid = fst (insert_commit p d ts db), file_path = p, object_hash = d,
                message = None, timestamp = ts, ctype = Auto\<rparr>"
    by (auto simp: less_prod_def)
  then show ?thesis
    by (simp add: history_def order_by_ts_desc_def select_path_insert sort_key_snoc_greatest)
qed

lemma history_other_path_insert:
  "q \<noteq> p \<Longrightarrow> history q (snd (insert_commit p d ts db)) = history q db"
  by (simp add: history_def select_path_insert)

lemma history_delete_path [fg_simps]:
  "history q (delete_path p db) = (if q = p then [] else history q db)"
  by (simp add: history_def select_path_delete order_by_ts_desc_def)

text \<open>A promoted row keeps its kind under every statement on the table.\<close>

lemma row_evolves_refl [simp]: "row_evolves r r"
  by (simp add: row_evolves_def)

lemma row_evolves_trans: "row_evolves r0 r1 \<Longrightarrow> row_evolves r1 r2 \<Longrightarrow> row_evolves r0 r2"
  by (simp add: row_evolves_def)

lemma seq_apply_index_op_mono: "seq db \<le> seq (apply_index_op op db)"
proof (cases op)
  case (Insert p d ts)
  then show ?thesis using insert_commit_id_fresh [of db p d ts] by (simp add: fg_simps)
qed (simp_all add: fg_simps)

text \<open>Every row after a statement is new (rowid above the counter) or evolved from a row before.\<close>

lemma apply_index_op_origin:
  "r1 \<in> set (rows (apply_index_op op db)) \<Longrightarrow>
   seq db < cid r1 \<or> (\<exists>r0\<in>set (rows db). row_evolves r0 r1)"
proof (cases op)
  case (Insert p d ts)
  moreover assume "r1 \<in> set (rows (apply_index_op op db))"
  ultimately show ?thesis
    using insert_commit_id_fresh [of db p d ts] by (auto simp: fg_simps intro: row_evolves_refl)
next
  case (Promote i msg)
  moreover assume "r1 \<in> set (rows (apply_index_op op db))"
  ultimately show ?thesis
    by (force simp: promote_commit_def row_evolves_def)
next
  case (Delete p)
  moreover assume "r1 \<in> set (rows (apply_index_op op db))"
  ultimately show ?thesis
    by (auto simp: delete_path_def intro: row_evolves_refl)
qed

subsection \<open>Runs of statements\<close>

lemma run_index_ops_Cons [fg_simps]:
  "run_index_ops (op # ops) db = run_index_ops ops (apply_index_op op db)"
  by (simp add: run_index_ops_def)

lemma run_index_ops_Nil [fg_simps]: "run_index_ops [] db = db"
  by (simp add: run_index_ops_def)

lemma run_index_ops_wf: "index_wf db \<Longrightarrow> index_wf (run_index_ops ops db)"
  by (induction ops arbitrary: db) (simp_all add: fg_simps apply_index_op_wf)

lemma run_index_ops_seq_mono: "seq db \<le> seq (run_index_ops ops db)"
  by (induction ops arbitrary: db) (auto simp: fg_simps intro: order_trans [OF seq_apply_index_op_mono])

lemma run_index_ops_origin:
  "r1 \<in> set (rows (run_index_ops ops db)) \<Longrightarrow>
   seq db < cid r1 \<or> (\<exists>r0\<in>set (rows db). row_evolves r0 r1)"
proof (induction ops arbitrary: db)
  case Nil
  then show ?case by (auto simp: fg_simps intro: row_evolves_refl)
next
  case (Cons op ops)
  from Cons.prems have "r1 \<in> set (rows (run_index_ops ops (apply_index_op op db)))"
    by (simp add: fg_simps)
  then have "seq (apply_index_op op db) < cid r1 \<or>
             (\<exists>r\<in>set (rows (apply_index_op op db)). row_evolves r r1)"
    by (rule Cons.IH)
  then show ?case
  proof
    assume "seq (apply_index_op op db) < cid r1"
    then show ?thesis using seq_apply_index_op_mono [of db op] by simp
  next
    assume "\<exists>r\<in>set (rows (apply_index_op op db)). row_evolves r r1"
    then obtain r where r: "r \<in> set (rows (apply_index_op op db))" "row_evolves r r1" by blast
    from r(1) have "seq db < cid r \<or> (\<exists>r0\<in>set (rows db). row_evolves r0 r)"
      by (rule apply_index_op_origin)
    with r(2) show ?thesis
      by (auto simp: row_evolves_def intro: row_evolves_trans)
  qed
qed

section \<open>Properties of the commit index\<close>

text \<open>
  C14: Promotion is one-way and touches nothing else. After any sequence of
  inserts, promotions and deletions on a well-formed table, a row that carries
  the rowid of a manual row is still manual and still names the same file and
  the same digest.
\<close>

theorem promotion_never_reverts:
  assumes "index_wf db" and "r \<in> set (rows db)" and "ctype r = Manual"
    and "r' \<in> set (rows (run_index_ops ops db))" and "cid r' = cid r"
  shows "ctype r' = Manual \<and> file_path r' = file_path r \<and> object_hash r' = object_hash r"
proof -
  have "cid r \<le> seq db"
    using assms(1,2) by (simp add: index_wf_def)
  with assms(4,5) obtain r0 where r0: "r0 \<in> set (rows db)" "row_evolves r0 r'"
    using run_index_ops_origin [of r' ops db] by auto
  have "distinct (map cid (rows db))"
    using assms(1) by (simp add: index_wf_def sorted_wrt_less_distinct)
  moreover have "cid r0 = cid r"
    using r0(2) assms(5) by (simp add: row_evolves_def)
  ultimately have "r0 = r"
    using r0(1) assms(2) by (metis inj_on_eq_iff distinct_map)
  with r0(2) assms(3) show ?thesis
    by (simp add: row_evolves_def)
qed


text \<open>
  C16: Forgetting a file and snapshotting it again starts a fresh history: the
  new history is the new row alone, and its rowid is above every rowid the table
  had before, the deleted rows' included (\<open>AUTOINCREMENT\<close> never reuses them).
\<close>

theorem forget_then_insert_fresh:
  assumes "index_wf db"
  shows "history p (snd (insert_commit p d ts (delete_path p db))) =
     [\<lparr>cid = fst (insert_commit p d ts (delete_path p db)), file_path = p, object_hash = d,
       message = None, timestamp = ts, ctype = Auto\<rparr>] \<and>
   (\<forall>r\<in>set (rows db). cid r < fst (insert_commit p d ts (delete_path p db)))"
proof
  show "history p (snd (insert_commit p d ts (delete_path p db))) =
     [\<lparr>cid = fst (insert_commit p d ts (delete_path p db)), file_path = p, object_hash = d,
       message = None, timestamp = ts, ctype = Auto\<rparr>]"
    using history_insert_newest [of p "delete_path p db" ts d]
    by (simp add: select_path_delete history_delete_path)
next
  have "seq (delete_path p db) < fst (insert_commit p d ts (delete_path p db))"
    using insert_commit_id_fresh [of "delete_path p db" p d ts] by (rule conjunct1)
  with assms show "\<forall>r\<in>set (rows db). cid r < fst (insert_commit p d ts (delete_path p db))"
    by (auto simp: index_wf_def delete_path_seq)
qed

section \<open>Witnesses\<close>

text \<open>A table with one manual row, then a re-promotion and an insert.\<close>

lemma promotion_never_reverts_witness:
  "index_wf \<lparr>rows = [\<lparr>cid = 1, file_path = ''a'', object_hash = ''d1'', message = Some ''m'',
                      timestamp = (1::nat), ctype = Manual\<rparr>], seq = 1\<rparr> \<and>
   \<lparr>cid = 1, file_path = ''a'', object_hash = ''d1'', message = Some ''m'',
    timestamp = (1::nat), ctype = Manual\<rparr> \<in> set (rows \<lparr>rows = [\<lparr>cid = 1, file_path = ''a'',
      object_hash = ''d1'', message = Some ''m'', timestamp = (1::nat), ctype = Manual\<rparr>], seq = 1\<rparr>) \<and>
   \<lparr>cid = 1, file_path = ''a'', object_hash = ''d1'', message = Some ''n'',
    timestamp = (1::nat), ctype = Manual\<rparr> \<in> set (rows (run_index_ops [Promote 1 ''n'', Insert ''a'' ''d2'' 2]
     \<lparr>rows = [\<lparr>cid = 1, file_path = ''a'', object_hash = ''d1'', message = Some ''m'',
              timestamp = (1::nat), ctype = Manual\<rparr>], seq = 1\<rparr>)) \<and>
   ctype \<lparr>cid = 1, file_path = ''a'', object_hash = ''d1'', message = Some ''n'',
          timestamp = (1::nat), ctype = Manual\<rparr> = Manual"
proof -
  let ?r = "\<lparr>cid = 1, file_path = ''a'', object_hash = ''d1'', message = Some ''m'',
             timestamp = (1::nat), ctype = Manual\<rparr>"
  let ?r' = "\<lparr>cid = 1, file_path = ''a'', object_hash = ''d1'', message = Some ''n'',
              timestamp = (1::nat), ctype = Manual\<rparr>"
  let ?db = "\<lparr>rows = [?r], seq = 1\<rparr>"
  let ?ops = "[Promote 1 ''n'', Insert ''a'' ''d2'' (2::nat)]"
  have wf: "index_wf ?db" by (simp add: index_wf_def)
  have mem: "?r' \<in> set (rows (run_index_ops ?ops ?db))"
    by (simp add: fg_simps promote_commit_def insert_commit_def max_rowid_def)
  have "ctype ?r' = Manual \<and> file_path ?r' = file_path ?r \<and> object_hash ?r' = object_hash ?r"
    using promotion_never_reverts [OF wf _ _ mem] by simp
  with wf mem show ?thesis by simp
qed

lemma forget_then_insert_fresh_witness:
  "index_wf \<lparr>rows = [\<lparr>cid = 1, file_path = ''a'', object_hash = ''d1'', message = None,
                      timestamp = (1::nat), ctype = Auto\<rparr>], seq = 1\<rparr> \<and>
   history ''a'' (snd (insert_commit ''a'' ''d2'' 0 (delete_path ''a''
     \<lparr>rows = [\<lparr>cid = 1, file_path = ''a'', object_hash = ''d1'', message = None,
              timestamp = (1::nat), ctype = Auto\<rparr>], seq = 1\<rparr>))) =
     [\<lparr>cid = 2, file_path = ''a'', object_hash = ''d2'', message = None, timestamp = 0, ctype = Auto\<rparr>]"
proof -
  let ?db = "\<lparr>rows = [\<lparr>cid = 1, file_path = ''a'', object_hash = ''d1'', message = None,
                         timestamp = (1::nat), ctype = Auto\<rparr>], seq = 1\<rparr>"
  have wf: "index_wf ?db" by (simp add: index_wf_def)
  have id: "fst (insert_commit ''a'' ''d2'' 0 (delete_path ''a'' ?db)) = 2"
    by (simp add: insert_commit_def delete_path_def max_rowid_def)
  show ?thesis
    using conjunct1 [OF forget_then_insert_fresh [OF wf, of "''a''" "''d2''" 0]] wf id by simp
qed

end
