(* ===== verification/Snapshot.thy ===== *)
theory Snapshot
  imports Object_Store Commit_Index
begin

text \<open>
  The snapshot engine: the two code paths that turn the current content of a file
  into a commit, \<open>create_auto_snapshot\<close> (src/filegit_daemon.py, called by the
  watcher) and the body of \<open>DashboardApp.action_add_snapshot\<close> (src/filegit.py,
  key A), together with the other engine operations the dashboard performs
  (promotion, restore, forget) and the user's own edits of files. The world is the
  content store extended by the commit index. Operations run one at a time here;
  the theory \<open>Concurrency\<close> interleaves their steps.
\<close>

section \<open>The world\<close>

record 'ts world = store +
  db :: "'ts index_db"

section \<open>The two snapshot paths\<close>

text \<open>
  \<open>create_auto_snapshot(filepath_str, conn)\<close>: read the digest of the row with
  the latest timestamp, hash the file, and if the hash is truthy and differs, copy
  the file into the object directory and then insert an \<open>'auto'\<close> row. Otherwise
  nothing happens. An exception of \<open>shutil.copy\<close> is the \<open>Inl\<close> result
  (the watcher's \<open>on_modified\<close> catches and prints it).
\<close>

definition create_auto_snapshot ::
  "hash_fn \<Rightarrow> path \<Rightarrow> 'ts \<Rightarrow> ('ts::linorder) world \<Rightarrow> fg_error + 'ts world" where
  "create_auto_snapshot H p now w =
     (let last_hash = latest_hash p (db w);
          current_hash = get_file_hash H (files w) p
      in if truthy current_hash \<and> current_hash \<noteq> last_hash then
           (case copy_to_object p (the current_hash) w of
              Inl e \<Rightarrow> Inl e
            | Inr w1 \<Rightarrow> Inr (w1\<lparr>db := snd (insert_commit p (the current_hash) now (db w1))\<rparr>))
         else Inr w)"

text \<open>
  \<open>action_add_snapshot\<close>: hash the file; if the hash is falsy, notify "file not
  found" and return (the \<open>Inl\<close> value); otherwise copy and insert, with no
  comparison against the latest row.
\<close>

definition action_add_snapshot ::
  "hash_fn \<Rightarrow> path \<Rightarrow> 'ts \<Rightarrow> 'ts world \<Rightarrow> fg_error + 'ts world" where
  "action_add_snapshot H p now w =
     (let current_hash = get_file_hash H (files w) p
      in if \<not> truthy current_hash then Inl (FileNotFound p)
         else (case copy_to_object p (the current_hash) w of
                 Inl e \<Rightarrow> Inl e
               | Inr w1 \<Rightarrow> Inr (w1\<lparr>db := snd (insert_commit p (the current_hash) now (db w1))\<rparr>)))"

section \<open>The other engine operations\<close>

text \<open>
  The state changes the dashboard makes besides snapshots, and the user's edits:
  the promotion \<open>UPDATE\<close>, the restore copy, the forget \<open>DELETE\<close>; a write or a
  removal of a file by some other program.
\<close>

datatype 'ts engine_op =
    AutoSnapshot path 'ts
  | AddSnapshot path 'ts
  | PromoteCommit nat string
  | RestoreFile digest path
  | ForgetFile path
  | UserWrite path bytes
  | UserRemove path

fun engine_step :: "hash_fn \<Rightarrow> 'ts engine_op \<Rightarrow> ('ts::linorder) world \<Rightarrow> fg_error + 'ts world" where
  "engine_step H (AutoSnapshot p now) w = create_auto_snapshot H p now w"
| "engine_step H (AddSnapshot p now) w = action_add_snapshot H p now w"
| "engine_step H (PromoteCommit i msg) w = Inr (w\<lparr>db := promote_commit i msg (db w)\<rparr>)"
| "engine_step H (RestoreFile d p) w = restore_from_object d p w"
| "engine_step H (ForgetFile p) w = Inr (w\<lparr>db := delete_path p (db w)\<rparr>)"
| "engine_step H (UserWrite p bs) w = Inr (w\<lparr>files := (files w)(p \<mapsto> bs)\<rparr>)"
| "engine_step H (UserRemove p) w = Inr (w\<lparr>files := (files w)(p := None)\<rparr>)"

text \<open>A failed operation changes nothing: every failure is raised before the first write.\<close>

definition engine_run :: "hash_fn \<Rightarrow> 'ts engine_op list \<Rightarrow> ('ts::linorder) world \<Rightarrow> 'ts world" where
  "engine_run H ops w = fold (\<lambda>op w. case engine_step H op w of Inl _ \<Rightarrow> w | Inr w' \<Rightarrow> w') ops w"

section \<open>Invariants\<close>

text \<open>
  The ordering invariant of the design: every row's digest names an existing object.
  With the objects' self-verification and the index's well-formedness it is what a
  repository keeps.
\<close>

definition index_ok :: "('ts, 'a) world_scheme \<Rightarrow> bool" where
  "index_ok w \<longleftrightarrow> set (map object_hash (rows (db w))) \<subseteq> dom (objects w)"

text \<open>
  Every name in the object directory and every digest in the index is what
  \<open>hexdigest()\<close> returns: the row keys of the dashboard rely on it (no \<open>|\<close>, never
  \<open>None\<close> or \<open>temp\<close>).
\<close>

definition digests_hex :: "'ts world \<Rightarrow> bool" where
  "digests_hex w \<longleftrightarrow> (\<forall>d\<in>dom (objects w). hex_digest d) \<and> (\<forall>r\<in>set (rows (db w)). hex_digest (object_hash r))"

definition repo_ok :: "hash_fn \<Rightarrow> 'ts world \<Rightarrow> bool" where
  "repo_ok H w \<longleftrightarrow> objects_verified H w \<and> index_ok w \<and> index_wf (db w)"

section \<open>Lemmas\<close>

subsection \<open>The branches of the two snapshot paths\<close>

lemma create_auto_snapshot_changed:
  assumes "files w p = Some bs" and "H bs \<noteq> []" and "latest_hash p (db w) \<noteq> Some (H bs)"
  shows "create_auto_snapshot H p now w =
           Inr (w\<lparr>objects := (objects w)(H bs \<mapsto> bs), db := snd (insert_commit p (H bs) now (db w))\<rparr>)"
  using assms by (simp add: create_auto_snapshot_def truthy_def fg_simps)

lemma create_auto_snapshot_same:
  "get_file_hash H (files w) p = latest_hash p (db w) \<Longrightarrow> create_auto_snapshot H p now w = Inr w"
  by (simp add: create_auto_snapshot_def)

lemma create_auto_snapshot_missing:
  "files w p = None \<Longrightarrow> create_auto_snapshot H p now w = Inr w"
  by (simp add: create_auto_snapshot_def truthy_def fg_simps)

lemma action_add_snapshot_Some:
  assumes "files w p = Some bs" and "H bs \<noteq> []"
  shows "action_add_snapshot H p now w =
           Inr (w\<lparr>objects := (objects w)(H bs \<mapsto> bs), db := snd (insert_commit p (H bs) now (db w))\<rparr>)"
  using assms by (simp add: action_add_snapshot_def truthy_def fg_simps)

lemma action_add_snapshot_falsy:
  "\<not> truthy (get_file_hash H (files w) p) \<Longrightarrow> action_add_snapshot H p now w = Inl (FileNotFound p)"
  by (simp add: action_add_snapshot_def)

text \<open>Both paths, when they change the world, do so by one store-then-index write.\<close>

lemma create_auto_snapshot_Inr:
  "create_auto_snapshot H p now w = Inr w' \<Longrightarrow>
   w' = w \<or> (\<exists>bs. files w p = Some bs \<and>
     w' = w\<lparr>objects := (objects w)(H bs \<mapsto> bs), db := snd (insert_commit p (H bs) now (db w))\<rparr>)"
  by (cases "files w p")
     (auto simp: create_auto_snapshot_def Let_def truthy_def fg_simps split: if_splits)

lemma action_add_snapshot_Inr:
  "action_add_snapshot H p now w = Inr w' \<Longrightarrow>
   \<exists>bs. files w p = Some bs \<and>
     w' = w\<lparr>objects := (objects w)(H bs \<mapsto> bs), db := snd (insert_commit p (H bs) now (db w))\<rparr>"
  by (cases "files w p")
     (auto simp: action_add_snapshot_def Let_def truthy_def fg_simps split: if_splits)

subsection \<open>Every operation keeps the repository invariant\<close>

lemma repo_ok_files_update [fg_simps]: "repo_ok H (w\<lparr>files := fs\<rparr>) = repo_ok H w"
  by (simp add: repo_ok_def objects_verified_def index_ok_def)

lemma snapshot_write_ok:
  assumes "repo_ok H w" and "files w p = Some bs"
  shows "repo_ok H (w\<lparr>objects := (objects w)(H bs \<mapsto> bs), db := snd (insert_commit p (H bs) now (db w))\<rparr>)"
  using assms insert_commit_wf [of "db w" p "H bs" now]
  by (auto simp: repo_ok_def objects_verified_def index_ok_def fg_simps)

lemma engine_step_ok:
  assumes "repo_ok H w" and "engine_step H op w = Inr w'"
  shows "repo_ok H w'"
proof (cases op)
  case (AutoSnapshot p now)
  with assms create_auto_snapshot_Inr [of H p now w w'] show ?thesis
    by (auto intro: snapshot_write_ok)
next
  case (AddSnapshot p now)
  with assms action_add_snapshot_Inr [of H p now w w'] show ?thesis
    by (auto intro: snapshot_write_ok)
next
  case (PromoteCommit i msg)
  with assms(2) have "w' = w\<lparr>db := promote_commit i msg (db w)\<rparr>" by simp
  with assms(1) show ?thesis
    by (simp add: repo_ok_def objects_verified_def index_ok_def promote_commit_wf fg_simps)
next
  case (RestoreFile d p)
  with assms(2) obtain bs where "w' = w\<lparr>files := (files w)(p \<mapsto> bs)\<rparr>"
    by (auto simp: restore_from_object_def split: option.splits)
  with assms(1) show ?thesis by (simp add: fg_simps)
next
  case (ForgetFile p)
  with assms(2) have w': "w' = w\<lparr>db := delete_path p (db w)\<rparr>" by simp
  have "object_hash ` set (rows (delete_path p (db w))) \<subseteq> object_hash ` set (rows (db w))"
    by (rule image_mono) (rule delete_path_rows_subset)
  with assms(1) show ?thesis
    unfolding w' repo_ok_def objects_verified_def index_ok_def
    by (simp add: delete_path_wf) (meson subset_trans)
next
  case (UserWrite p bs)
  with assms show ?thesis by (auto simp: fg_simps)
next
  case (UserRemove p)
  with assms show ?thesis by (auto simp: fg_simps)
qed

lemma engine_step_hex:
  assumes "\<forall>bs. hex_digest (H bs)" and "digests_hex w" and "engine_step H op w = Inr w'"
  shows "digests_hex w'"
proof (cases op)
  case (AutoSnapshot p now)
  with assms create_auto_snapshot_Inr [of H p now w w'] show ?thesis
    by (auto simp: digests_hex_def dom_def fg_simps split: if_splits)
next
  case (AddSnapshot p now)
  with assms action_add_snapshot_Inr [of H p now w w'] show ?thesis
    by (auto simp: digests_hex_def dom_def fg_simps split: if_splits)
next
  case (PromoteCommit i msg)
  with assms(2,3) show ?thesis
    by (auto simp: digests_hex_def promote_commit_def)
next
  case (RestoreFile d p)
  with assms(2,3) show ?thesis
    by (auto simp: digests_hex_def restore_from_object_def split: option.splits)
next
  case (ForgetFile p)
  with assms(2,3) show ?thesis
    by (auto simp: digests_hex_def delete_path_def)
qed (use assms(2,3) in \<open>auto simp: digests_hex_def\<close>)

lemma engine_run_Cons [fg_simps]:
  "engine_run H (op # ops) w =
     engine_run H ops (case engine_step H op w of Inl _ \<Rightarrow> w | Inr w' \<Rightarrow> w')"
  by (simp add: engine_run_def)

lemma engine_run_Nil [fg_simps]: "engine_run H [] w = w"
  by (simp add: engine_run_def)

text \<open>A property every successful step keeps holds after every run.\<close>

lemma engine_run_invariant:
  assumes step: "\<And>op w w'. P w \<Longrightarrow> engine_step H op w = Inr w' \<Longrightarrow> P w'" and "P w"
  shows "P (engine_run H ops w)"
  using assms(2)
proof (induction ops arbitrary: w)
  case (Cons op ops)
  have "P (case engine_step H op w of Inl _ \<Rightarrow> w | Inr w' \<Rightarrow> w')"
    using Cons.prems step by (auto split: sum.splits)
  then show ?case by (simp add: fg_simps Cons.IH)
qed (simp add: fg_simps)

section \<open>Properties of the snapshot engine\<close>

text \<open>
  C1: Store-then-index keeps the repository consistent. Starting from a
  consistent repository, any sequence of auto snapshots, dashboard snapshots,
  promotions, restores, forgets and user edits, run one at a time, ends in a
  repository where every object is stored under the digest of its bytes, every
  row names an existing object, and the rowids are well formed.
\<close>

theorem engine_run_keeps_repo_ok:
  "repo_ok H w \<Longrightarrow> repo_ok H (engine_run H ops w)"
  by (rule engine_run_invariant) (blast intro: engine_step_ok)

text \<open>
  C35: Well-formed digests: when the hash function returns hex digests, every object
  name and every digest in the index stays a hex digest under any run of the engine,
  so the dashboard's row keys always split back into their four fields.
\<close>

theorem engine_run_keeps_digests_hex:
  "\<forall>bs. hex_digest (H bs) \<Longrightarrow> digests_hex w \<Longrightarrow> digests_hex (engine_run H ops w)"
  by (rule engine_run_invariant) (blast intro: engine_step_hex)



text \<open>
  C7: The dashboard's "add snapshot" (key A) has no such check: pressing it twice
  on unchanged content appends two rows for the file, both with the same digest.
\<close>

theorem add_snapshot_not_idempotent:
  assumes "files w p = Some bs" and "H bs \<noteq> []"
  shows "\<exists>w1 w2. action_add_snapshot H p t1 w = Inr w1 \<and> action_add_snapshot H p t2 w1 = Inr w2 \<and>
           map object_hash (select_path p (db w2)) = map object_hash (select_path p (db w)) @ [H bs, H bs]"
  using assms by (simp add: action_add_snapshot_Some fg_simps)


section \<open>Witnesses\<close>

lemma engine_run_keeps_repo_ok_witness:
  "repo_ok id (engine_run id [UserWrite ''f'' ''a'', AutoSnapshot ''f'' (1::nat), PromoteCommit 1 ''m'']
                 \<lparr>files = Map.empty, objects = Map.empty, db = empty_db\<rparr>)"
proof (rule engine_run_keeps_repo_ok)
  show "repo_ok id \<lparr>files = Map.empty, objects = Map.empty, db = (empty_db :: nat index_db)\<rparr>"
    by (simp add: repo_ok_def objects_verified_def index_ok_def empty_db_wf) (simp add: empty_db_def)
qed


lemma add_snapshot_not_idempotent_witness:
  "\<exists>w1 w2. action_add_snapshot id ''f'' (1::nat) \<lparr>files = [''f'' \<mapsto> ''a''], objects = Map.empty, db = empty_db\<rparr> = Inr w1 \<and>
     action_add_snapshot id ''f'' 2 w1 = Inr w2 \<and> map object_hash (select_path ''f'' (db w2)) = [''a'', ''a'']"
proof -
  have "\<exists>w1 w2. action_add_snapshot id ''f'' (1::nat)
            \<lparr>files = [''f'' \<mapsto> ''a''], objects = Map.empty, db = empty_db\<rparr> = Inr w1 \<and>
          action_add_snapshot id ''f'' 2 w1 = Inr w2 \<and>
          map object_hash (select_path ''f'' (db w2)) =
            map object_hash (select_path ''f'' (db \<lparr>files = [''f'' \<mapsto> ''a''], objects = Map.empty,
              db = (empty_db :: nat index_db)\<rparr>)) @ [id ''a'', id ''a'']"
    by (rule add_snapshot_not_idempotent) simp_all
  then show ?thesis by (simp add: select_path_def empty_db_def)
qed

lemma engine_run_keeps_digests_hex_witness:
  "digests_hex (engine_run (\<lambda>bs. replicate (Suc (length bs)) CHR ''a'') [AutoSnapshot ''f'' (1::nat)]
     \<lparr>files = [''f'' \<mapsto> ''x''], objects = Map.empty, db = empty_db\<rparr>)"
proof -
  have hex: "\<forall>bs. hex_digest ((\<lambda>bs. replicate (Suc (length bs)) CHR ''a'') bs)"
    by (auto simp: hex_digest_def)
  have "digests_hex (\<lparr>files = [''f'' \<mapsto> ''x''], objects = Map.empty, db = empty_db\<rparr> :: nat world)"
    by (simp add: digests_hex_def empty_db_def)
  from engine_run_keeps_digests_hex [OF hex this] show ?thesis .
qed

end
