(* ===== verification/Py_Strings.thy ===== *)
theory Py_Strings
  imports Prelude
begin

text \<open>
  The Python string built-ins the timeline's row keys go through: \<open>str()\<close> of a
  non-negative \<open>int\<close> and of \<open>None\<close> or a string (an f-string field),
  \<open>s.split(sep, maxsplit)\<close> with a one-character separator, and the
  substring test \<open>needle in s\<close>. Each is written as the library documents it, with
  the lemmas the row-key roundtrip needs.
\<close>

section \<open>Definitions\<close>

text \<open>\<open>str(n)\<close> for \<open>n \<ge> 0\<close>: decimal digits, most significant first.\<close>

definition decimal_digits :: string where
  "decimal_digits = ''0123456789''"

fun py_str_nat :: "nat \<Rightarrow> string" where
  "py_str_nat n =
     (if n < 10 then [decimal_digits ! n] else py_str_nat (n div 10) @ [decimal_digits ! (n mod 10)])"

declare py_str_nat.simps [simp del]

text \<open>\<open>f"{x}"\<close> for \<open>x: str | None\<close>.\<close>

definition py_str_opt :: "string option \<Rightarrow> string" where
  "py_str_opt x = (case x of None \<Rightarrow> ''None'' | Some s \<Rightarrow> s)"

text \<open>
  \<open>s.split(sep, maxsplit)\<close>: split at the first \<open>maxsplit\<close> occurrences of
  \<open>sep\<close>, the rest going into the last piece. \<open>acc\<close> is the piece being read.
\<close>

fun split_acc :: "char \<Rightarrow> nat \<Rightarrow> string \<Rightarrow> string \<Rightarrow> string list" where
  "split_acc c n acc [] = [acc]"
| "split_acc c n acc (x # xs) =
     (if x = c \<and> 0 < n then acc # split_acc c (n - 1) [] xs else split_acc c n (acc @ [x]) xs)"

definition py_split :: "char \<Rightarrow> nat \<Rightarrow> string \<Rightarrow> string list" where
  "py_split c n s = split_acc c n [] s"

text \<open>\<open>needle in s\<close> on strings: \<open>needle\<close> occurs contiguously in \<open>s\<close>.\<close>

fun starts_with :: "string \<Rightarrow> string \<Rightarrow> bool" where
  "starts_with [] ys = True"
| "starts_with (x # xs) [] = False"
| "starts_with (x # xs) (y # ys) = (x = y \<and> starts_with xs ys)"

fun py_in :: "string \<Rightarrow> string \<Rightarrow> bool" where
  "py_in needle [] = (needle = [])"
| "py_in needle (y # ys) = (starts_with needle (y # ys) \<or> py_in needle ys)"

text \<open>Whether \<open>a\<close> is directly followed by \<open>b\<close> somewhere in a string.\<close>

fun adjacent :: "char \<Rightarrow> char \<Rightarrow> string \<Rightarrow> bool" where
  "adjacent a b (x # y # zs) = ((x = a \<and> y = b) \<or> adjacent a b (y # zs))"
| "adjacent a b _ = False"

text \<open>
  \<open>int(s)\<close> on a \<open>str\<close>: an optional sign, then decimal digits in which single
  underscores may separate two digits; anything else raises \<open>ValueError\<close>
  (\<open>None\<close>). Leading and trailing whitespace is removed first, as \<open>int()\<close> does.
  Only ASCII digits are read as digits.
\<close>

definition digits_value :: "string \<Rightarrow> nat" where
  "digits_value ds = foldl (\<lambda>n c. 10 * n + (of_char c - 48)) 0 ds"

definition py_digits :: "string \<Rightarrow> nat option" where
  "py_digits s =
     (if s \<noteq> [] \<and> hd s \<in> set decimal_digits \<and> last s \<in> set decimal_digits \<and>
         set s \<subseteq> set (CHR ''_'' # decimal_digits) \<and> \<not> adjacent CHR ''_'' CHR ''_'' s
      then Some (digits_value (filter (\<lambda>c. c \<noteq> CHR ''_'') s)) else None)"

definition py_whitespace :: string where
  "py_whitespace = [CHR '' '', CHR 0x09, CHR 0x0A, CHR 0x0B, CHR 0x0C, CHR 0x0D,
                    CHR 0x1C, CHR 0x1D, CHR 0x1E, CHR 0x1F]"

text \<open>\<open>s.strip()\<close>: drop whitespace at both ends.\<close>

definition py_strip :: "string \<Rightarrow> string" where
  "py_strip s = rev (dropWhile (\<lambda>c. c \<in> set py_whitespace) (rev (dropWhile (\<lambda>c. c \<in> set py_whitespace) s)))"

definition py_int :: "string \<Rightarrow> int option" where
  "py_int s0 =
     (let s = py_strip s0
      in if s \<noteq> [] \<and> hd s = CHR ''-'' then map_option (\<lambda>n. - int n) (py_digits (tl s))
         else if s \<noteq> [] \<and> hd s = CHR ''+'' then map_option int (py_digits (tl s))
         else map_option int (py_digits s))"

section \<open>Lemmas\<close>

lemma starts_with_adjacent: "starts_with (a # b # n) s \<Longrightarrow> adjacent a b s"
  by (cases s; cases "tl s") auto

lemma py_in_adjacent: "py_in (a # b # n) s \<Longrightarrow> adjacent a b s"
proof (induction s)
  case Nil
  then show ?case by simp
next
  case (Cons y ys)
  then show ?case
    by (cases ys) (auto dest: starts_with_adjacent)
qed

lemma adjacent_Cons_other [fg_simps]: "x \<noteq> a \<Longrightarrow> adjacent a b (x # ys) = adjacent a b ys"
  by (cases ys) auto

lemma adjacent_Cons_a [fg_simps]:
  "adjacent a b (a # ys) = ((ys \<noteq> [] \<and> hd ys = b) \<or> adjacent a b ys)"
  by (cases ys) auto

lemma adjacent_append [fg_simps]:
  "adjacent a b (xs @ ys) \<longleftrightarrow>
     adjacent a b xs \<or> adjacent a b ys \<or> (xs \<noteq> [] \<and> ys \<noteq> [] \<and> last xs = a \<and> hd ys = b)"
proof (induction xs)
  case Nil
  then show ?case by simp
next
  case (Cons x xs)
  then show ?case
    by (cases "x = a") (auto simp: fg_simps)
qed

lemma starts_with_append [fg_simps]: "starts_with n (n @ ys)"
  by (induction n) auto

lemma starts_with_py_in: "starts_with n s \<Longrightarrow> py_in n s"
  by (cases s) (auto elim: starts_with.elims)

lemma py_in_append_needle: "py_in n (xs @ n @ ys)"
  by (induction xs) (simp_all add: starts_with_py_in fg_simps)

lemma adjacent_absent: "a \<notin> set s \<Longrightarrow> \<not> adjacent a b s"
  by (induction s) (auto simp: fg_simps)


lemma split_acc_no_sep [fg_simps]: "c \<notin> set s \<Longrightarrow> split_acc c n acc s = [acc @ s]"
  by (induction s arbitrary: acc) auto

lemma split_acc_field:
  "c \<notin> set a \<Longrightarrow> split_acc c (Suc n) acc (a @ c # rest) = (acc @ a) # split_acc c n [] rest"
  by (induction a arbitrary: acc) auto

lemma py_split_four_fields:
  assumes "c \<notin> set a" and "c \<notin> set b" and "c \<notin> set d" and "c \<notin> set e"
  shows "py_split c 4 (a @ c # b @ c # d @ c # e) = [a, b, d, e]"
proof -
  have "split_acc c 4 [] (a @ c # b @ c # d @ c # e) = a # split_acc c 3 [] (b @ c # d @ c # e)"
    using split_acc_field [OF assms(1), of 3 "[]"] by (simp add: numeral_eq_Suc)
  also have "split_acc c 3 [] (b @ c # d @ c # e) = b # split_acc c 2 [] (d @ c # e)"
    using split_acc_field [OF assms(2), of 2 "[]"] by (simp add: numeral_eq_Suc)
  also have "split_acc c 2 [] (d @ c # e) = d # split_acc c 1 [] e"
    using split_acc_field [OF assms(3), of 1 "[]"] by (simp add: numeral_eq_Suc)
  also have "split_acc c 1 [] e = [e]"
    using assms(4) by (simp add: split_acc_no_sep)
  finally show ?thesis by (simp add: py_split_def)
qed

lemma py_str_nat_digits: "set (py_str_nat n) \<subseteq> set decimal_digits"
proof (induction n rule: py_str_nat.induct)
  case (1 n)
  have digit: "decimal_digits ! k \<in> set decimal_digits" if "k < 10" for k :: nat
    using that by (intro nth_mem) (simp add: decimal_digits_def)
  show ?case
  proof (cases "n < 10")
    case True
    then show ?thesis by (simp add: py_str_nat.simps [of n] digit)
  next
    case False
    with "1.IH" show ?thesis by (simp add: py_str_nat.simps [of n] digit)
  qed
qed


lemma of_char_decimal_digit:
  "k < 10 \<Longrightarrow> of_char (decimal_digits ! k) - 48 = (k::nat)"
  by (auto simp: decimal_digits_def less_Suc_eq numeral_eq_Suc)

lemma digits_value_snoc [fg_simps]:
  "digits_value (ds @ [c]) = 10 * digits_value ds + (of_char c - 48)"
  by (simp add: digits_value_def)

lemma digits_value_py_str_nat: "digits_value (py_str_nat n) = n"
proof (induction n rule: py_str_nat.induct)
  case (1 n)
  show ?case
  proof (cases "n < 10")
    case True
    then show ?thesis
      using digits_value_snoc [of "[]" "decimal_digits ! n"]
      by (simp add: py_str_nat.simps [of n] of_char_decimal_digit digits_value_def)
  next
    case False
    then have "digits_value (py_str_nat n) = 10 * (n div 10) + n mod 10"
      using "1.IH" by (simp add: py_str_nat.simps [of n] digits_value_snoc of_char_decimal_digit)
    then show ?thesis by simp
  qed
qed

lemma py_str_nat_nonempty: "py_str_nat n \<noteq> []"
  by (simp add: py_str_nat.simps [of n])

lemma py_str_nat_hd_last:
  "hd (py_str_nat n) \<in> set decimal_digits \<and> last (py_str_nat n) \<in> set decimal_digits"
  using py_str_nat_digits [of n] py_str_nat_nonempty [of n] by auto

lemma py_str_nat_no_underscore: "CHR ''_'' \<notin> set (py_str_nat n)"
  using py_str_nat_digits [of n] by (auto simp: decimal_digits_def)

lemma py_str_nat_no_whitespace: "c \<in> set py_whitespace \<Longrightarrow> c \<notin> set (py_str_nat n)"
  using py_str_nat_digits [of n] by (auto simp: decimal_digits_def py_whitespace_def)

lemma py_str_nat_not_sign: "hd (py_str_nat n) \<noteq> CHR ''-'' \<and> hd (py_str_nat n) \<noteq> CHR ''+''"
  using py_str_nat_hd_last [of n] by (auto simp: decimal_digits_def)

lemma py_digits_py_str_nat: "py_digits (py_str_nat n) = Some n"
proof -
  have "filter (\<lambda>c. c \<noteq> CHR ''_'') (py_str_nat n) = py_str_nat n"
    using py_str_nat_no_underscore [of n] by (simp add: filter_id_conv) blast
  moreover have "set (py_str_nat n) \<subseteq> set (CHR ''_'' # decimal_digits)"
    using py_str_nat_digits [of n] by auto
  ultimately show ?thesis
    using py_str_nat_nonempty [of n] py_str_nat_hd_last [of n]
          adjacent_absent [OF py_str_nat_no_underscore [of n]]
    by (simp add: py_digits_def digits_value_py_str_nat)
qed

lemma dropWhile_hd_stop: "xs \<noteq> [] \<Longrightarrow> \<not> P (hd xs) \<Longrightarrow> dropWhile P xs = xs"
  by (cases xs) auto

lemma py_strip_no_whitespace:
  assumes "s \<noteq> []" and "hd s \<notin> set py_whitespace" and "last s \<notin> set py_whitespace"
  shows "py_strip s = s"
proof -
  have "dropWhile (\<lambda>c. c \<in> set py_whitespace) s = s" using assms(1,2) by (rule dropWhile_hd_stop)
  moreover have "dropWhile (\<lambda>c. c \<in> set py_whitespace) (rev s) = rev s"
    using assms(1,3) by (intro dropWhile_hd_stop) (simp_all add: hd_rev)
  ultimately show ?thesis by (simp add: py_strip_def)
qed

lemma py_strip_py_str_nat [fg_simps]: "py_strip (py_str_nat n) = py_str_nat n"
  using py_str_nat_nonempty [of n] py_str_nat_no_whitespace [of "hd (py_str_nat n)" n]
        py_str_nat_no_whitespace [of "last (py_str_nat n)" n]
  by (intro py_strip_no_whitespace) auto


lemma py_int_py_str_nat [fg_simps]: "py_int (py_str_nat n) = Some (int n)"
  using py_str_nat_not_sign [of n] py_str_nat_nonempty [of n]
  by (simp add: py_int_def Let_def fg_simps py_digits_py_str_nat)

end
