(* ===== verification/Timeline.thy ===== *)
theory Timeline
  imports Snapshot Py_Strings
begin

text \<open>
  The timeline builder and the views of the dashboard (src/filegit.py):
  \<open>DashboardApp.load_timeline\<close>, which fills the table with one row per commit of
  the file, newest first, preceded by a "(temp)" row when the live file differs from
  the newest commit, each row carrying a key string
  \<open>"{hash}|{prev_hash}|{id}|{type}"\<close>; \<open>update_header\<close>, the status line; and
  \<open>update_views\<close>, which parses the highlighted row's key with \<open>split('|', 4)\<close>
  and picks what to show and what to diff. The specification's timeline
  (\<open>build_timeline\<close>, from its section 4.5) is the abstract view the rows refine.
\<close>

section \<open>Rows of the table\<close>

text \<open>The first column: \<open>"(temp)"\<close>, \<open>"(*)"\<close> for manual rows, \<open>"(')"\<close> for auto rows.\<close>

datatype row_marker = MarkTemp | MarkManual | MarkAuto

record 'ts tl_row =
  marker :: row_marker
  shown_ts :: 'ts
  shown_hash :: string
  shown_msg :: string
  row_key :: string

text \<open>The value of the \<open>type\<close> column as the key writes it.\<close>

primrec py_type_str :: "commit_type \<Rightarrow> string" where
  "py_type_str Auto = ''auto''"
| "py_type_str Manual = ''manual''"

text \<open>The label of the uncommitted row (a Korean phrase in the source: "unsaved changes").\<close>

definition unsaved_msg :: string where
  "unsaved_msg = ''unsaved changes''"

definition temp_row :: "'ts \<Rightarrow> digest \<Rightarrow> digest option \<Rightarrow> 'ts tl_row" where
  "temp_row now cur prev =
     \<lparr>marker = MarkTemp, shown_ts = now, shown_hash = take 12 cur, shown_msg = unsaved_msg,
      row_key = cur @ ''|'' @ py_str_opt prev @ ''|temp|temp''\<rparr>"

definition commit_row :: "'ts commit \<Rightarrow> digest option \<Rightarrow> 'ts tl_row" where
  "commit_row log prev =
     \<lparr>marker = (if ctype log = Manual then MarkManual else MarkAuto),
      shown_ts = timestamp log,
      shown_hash = take 12 (object_hash log),
      shown_msg = (case message log of None \<Rightarrow> [] | Some m \<Rightarrow> m),
      row_key = object_hash log @ ''|'' @ py_str_opt prev @ ''|'' @ py_str_nat (cid log) @ ''|'' @
                py_type_str (ctype log)\<rparr>"

section \<open>load_timeline\<close>

text \<open>
  \<open>logs\<close> is the ordered query; \<open>is_modified = not last_commit or (current_hash and
  current_hash != last_commit['object_hash'])\<close>; the temp row is added when
  \<open>is_modified and current_hash\<close>; then \<open>for i, log in enumerate(logs)\<close> with
  \<open>prev_hash = logs[i + 1]['object_hash'] if i + 1 < len(logs) else None\<close>.
\<close>

definition load_timeline :: "hash_fn \<Rightarrow> path \<Rightarrow> 'ts \<Rightarrow> ('ts::linorder) world \<Rightarrow> 'ts tl_row list" where
  "load_timeline H p now w =
     (let logs = history p (db w);
          last_commit = (if logs = [] then None else Some (hd logs));
          current_hash = get_file_hash H (files w) p;
          is_modified = (last_commit = None \<or>
                         (truthy current_hash \<and> current_hash \<noteq> map_option object_hash last_commit));
          temp = (if is_modified \<and> truthy current_hash
                  then [temp_row now (the current_hash) (map_option object_hash last_commit)] else [])
      in temp @
         map (\<lambda>i. commit_row (logs ! i)
                   (if Suc i < length logs then Some (object_hash (logs ! Suc i)) else None))
             [0..<length logs])"

section \<open>update_header\<close>

datatype header_status = Deleted | Modified | UpToDate

definition update_header :: "hash_fn \<Rightarrow> path \<Rightarrow> ('ts::linorder) world \<Rightarrow> header_status" where
  "update_header H p w =
     (let current_hash = get_file_hash H (files w) p
      in if \<not> truthy current_hash then Deleted
         else (case latest p (db w) of
                 None \<Rightarrow> Modified
               | Some c \<Rightarrow> if the current_hash \<noteq> object_hash c then Modified else UpToDate))"

section \<open>update_views\<close>

text \<open>
  What the right pane shows (the text of an object, of the live file, or the
  "cannot read" message) and what the diff pane shows (nothing to compare, the two
  texts \<open>difflib.unified_diff\<close> is given, or the error message). A key that does not
  split into four fields raises \<open>ValueError\<close> in the unpacking.
\<close>

datatype content_view = ShowText bytes | Unreadable

datatype diff_view = NoPrevious | ShowDiff bytes bytes | DiffError

datatype views = NoSelection | BadKey | Views content_view diff_view

definition read_text :: "bytes option \<Rightarrow> content_view" where
  "read_text x = (case x of None \<Rightarrow> Unreadable | Some bs \<Rightarrow> ShowText bs)"

definition update_views :: "path \<Rightarrow> 'ts world \<Rightarrow> string option \<Rightarrow> views" where
  "update_views p w sel =
     (case sel of
        None \<Rightarrow> NoSelection
      | Some k \<Rightarrow>
          if k = [] then NoSelection
          else (case py_split CHR ''|'' 4 k of
                  [current_hash, prev_hash, _, _] \<Rightarrow>
                    (let content = (if current_hash \<noteq> [] \<and> objects w current_hash \<noteq> None
                                    then read_text (objects w current_hash)
                                    else read_text (files w p));
                         diff = (if prev_hash = [] \<or> prev_hash = ''None'' then NoPrevious
                                 else (case objects w prev_hash of
                                         None \<Rightarrow> DiffError
                                       | Some prev_content \<Rightarrow>
                                           (case (if py_in ''temp'' k then files w p
                                                  else objects w current_hash) of
                                              None \<Rightarrow> DiffError
                                            | Some cur_content \<Rightarrow> ShowDiff prev_content cur_content)))
                     in Views content diff)
                | _ \<Rightarrow> BadKey))"

section \<open>The specification's timeline\<close>

text \<open>
  Section 4.5 of the specification: an uncommitted entry when the live digest exists
  and differs from the head, then every commit newest first, each paired with the
  digest of the next older one.
\<close>

datatype tl_entry = Uncommitted digest "digest option" | Committed nat digest "digest option" commit_type

definition build_timeline :: "digest option \<Rightarrow> 'ts commit list \<Rightarrow> tl_entry list" where
  "build_timeline cur hs =
     (let head = (case hs of [] \<Rightarrow> None | c # _ \<Rightarrow> Some (object_hash c))
      in (case cur of Some d \<Rightarrow> if Some d \<noteq> head then [Uncommitted d head] else [] | None \<Rightarrow> []) @
         map2 (\<lambda>c pred. Committed (cid c) (object_hash c) pred (ctype c))
              hs (map (Some \<circ> object_hash) (drop 1 hs) @ [None]))"

text \<open>The four fields a row key of an entry is meant to carry.\<close>

primrec entry_fields :: "tl_entry \<Rightarrow> string list" where
  "entry_fields (Uncommitted d prev) = [d, py_str_opt prev, ''temp'', ''temp'']"
| "entry_fields (Committed i d prev t) = [d, py_str_opt prev, py_str_nat i, py_type_str t]"

text \<open>The key string an entry is written as (the two f-strings of \<open>load_timeline\<close>).\<close>

primrec entry_key :: "tl_entry \<Rightarrow> string" where
  "entry_key (Uncommitted d prev) = d @ ''|'' @ py_str_opt prev @ ''|temp|temp''"
| "entry_key (Committed i d prev t) = d @ ''|'' @ py_str_opt prev @ ''|'' @ py_str_nat i @ ''|'' @ py_type_str t"

text \<open>
  The specification's diff contract: an entry is compared with its predecessor's stored
  bytes; the entry's own bytes are the live file for the uncommitted entry and its
  object otherwise; without a predecessor there is nothing to compare.
\<close>

fun spec_diff :: "'ts world \<Rightarrow> path \<Rightarrow> tl_entry \<Rightarrow> diff_view" where
  "spec_diff w p (Uncommitted d None) = NoPrevious"
| "spec_diff w p (Uncommitted d (Some h)) =
     (case (objects w h, files w p) of (Some a, Some b) \<Rightarrow> ShowDiff a b | _ \<Rightarrow> DiffError)"
| "spec_diff w p (Committed i d None t) = NoPrevious"
| "spec_diff w p (Committed i d (Some h) t) =
     (case (objects w h, objects w d) of (Some a, Some b) \<Rightarrow> ShowDiff a b | _ \<Rightarrow> DiffError)"

text \<open>Every digest an entry carries satisfies \<open>P\<close>.\<close>

primrec entry_digests_ok :: "(digest \<Rightarrow> bool) \<Rightarrow> tl_entry \<Rightarrow> bool" where
  "entry_digests_ok P (Uncommitted d prev) = (P d \<and> (\<forall>h. prev = Some h \<longrightarrow> P h))"
| "entry_digests_ok P (Committed i d prev t) = (P d \<and> (\<forall>h. prev = Some h \<longrightarrow> P h))"

section \<open>Lemmas\<close>

subsection \<open>The enumerate loop\<close>

text \<open>Indexing each element's successor is zipping with the shifted list.\<close>

lemma map_enumerate_next:
  "map (\<lambda>i. f (xs ! i) (if Suc i < length xs then Some (g (xs ! Suc i)) else None)) [0..<length xs] =
   map2 f xs (map (Some \<circ> g) (drop 1 xs) @ [None])"
proof (rule nth_equalityI)
  show "length (map (\<lambda>i. f (xs ! i) (if Suc i < length xs then Some (g (xs ! Suc i)) else None))
                  [0..<length xs]) =
        length (map2 f xs (map (Some \<circ> g) (drop 1 xs) @ [None]))"
    by simp
next
  fix i
  assume "i < length (map (\<lambda>i. f (xs ! i) (if Suc i < length xs then Some (g (xs ! Suc i)) else None))
                          [0..<length xs])"
  then have i: "i < length xs" by simp
  have "(map (Some \<circ> g) (drop 1 xs) @ [None]) ! i = (if Suc i < length xs then Some (g (xs ! Suc i)) else None)"
    using i by (auto simp: nth_append)
  with i show "map (\<lambda>i. f (xs ! i) (if Suc i < length xs then Some (g (xs ! Suc i)) else None))
                  [0..<length xs] ! i =
               map2 f xs (map (Some \<circ> g) (drop 1 xs) @ [None]) ! i"
    by simp
qed

subsection \<open>Row keys split back into their fields\<close>

lemma py_str_nat_no_pipe [fg_simps]: "CHR ''|'' \<notin> set (py_str_nat n)"
  using py_str_nat_digits [of n] by (auto simp: decimal_digits_def)

lemma py_type_str_no_pipe [fg_simps]: "CHR ''|'' \<notin> set (py_type_str t)"
  by (cases t) simp_all

lemma py_str_opt_no_pipe:
  "(\<forall>h. x = Some h \<longrightarrow> CHR ''|'' \<notin> set h) \<Longrightarrow> CHR ''|'' \<notin> set (py_str_opt x)"
  by (cases x) (simp_all add: py_str_opt_def)

lemma entry_key_fields:
  "entry_digests_ok (\<lambda>d. CHR ''|'' \<notin> set d) e \<Longrightarrow> py_split CHR ''|'' 4 (entry_key e) = entry_fields e"
proof (cases e)
  case (Uncommitted d prev)
  moreover assume "entry_digests_ok (\<lambda>d. CHR ''|'' \<notin> set d) e"
  ultimately show ?thesis
    using py_split_four_fields [of "CHR ''|''" d "py_str_opt prev" "''temp''" "''temp''"]
    by (simp add: py_str_opt_no_pipe)
next
  case (Committed i d prev t)
  moreover assume "entry_digests_ok (\<lambda>d. CHR ''|'' \<notin> set d) e"
  ultimately show ?thesis
    using py_split_four_fields [of "CHR ''|''" d "py_str_opt prev" "py_str_nat i" "py_type_str t"]
    by (simp add: py_str_opt_no_pipe fg_simps)
qed

lemma build_timeline_members:
  assumes "e \<in> set (build_timeline cur hs)"
  shows "(\<exists>d q. e = Uncommitted d q \<and> cur = Some d \<and> (\<forall>h. q = Some h \<longrightarrow> h \<in> object_hash ` set hs)) \<or>
         (\<exists>i d q t. e = Committed i d q t \<and> d \<in> object_hash ` set hs \<and>
                    (\<forall>h. q = Some h \<longrightarrow> h \<in> object_hash ` set hs))"
proof -
  let ?head = "case hs of [] \<Rightarrow> None | c # _ \<Rightarrow> Some (object_hash c)"
  let ?preds = "map (Some \<circ> object_hash) (drop 1 hs) @ [None]"
  have preds: "\<forall>x\<in>set ?preds. \<forall>h. x = Some h \<longrightarrow> h \<in> object_hash ` set hs"
    by (auto dest: in_set_dropD)
  have head: "\<forall>h. ?head = Some h \<longrightarrow> h \<in> object_hash ` set hs"
    by (auto split: list.splits)
  from assms consider (u) d where "cur = Some d" "e = Uncommitted d ?head"
    | (c) c pred where "(c, pred) \<in> set (zip hs ?preds)" "e = Committed (cid c) (object_hash c) pred (ctype c)"
    by (auto simp: build_timeline_def Let_def split: option.splits if_splits)
  then show ?thesis
  proof cases
    case u
    then show ?thesis
      using head by (intro disjI1 exI [of _ d] exI [of _ ?head]) simp
  next
    case c
    then have "c \<in> set hs" and "pred \<in> set ?preds"
      by (auto dest: set_zip_leftD set_zip_rightD)
    moreover from preds \<open>pred \<in> set ?preds\<close>
    have "\<forall>h. pred = Some h \<longrightarrow> h \<in> object_hash ` set hs" by blast
    ultimately show ?thesis using c
      by (intro disjI2 exI [of _ "cid c"] exI [of _ "object_hash c"] exI [of _ pred] exI [of _ "ctype c"])
         simp
  qed
qed

lemma build_timeline_digests_ok:
  assumes "\<forall>d. cur = Some d \<longrightarrow> P d" and "\<forall>c\<in>set hs. P (object_hash c)"
  shows "\<forall>e\<in>set (build_timeline cur hs). entry_digests_ok P e"
proof
  fix e
  assume "e \<in> set (build_timeline cur hs)"
  from build_timeline_members [OF this] show "entry_digests_ok P e"
    using assms by (elim disjE exE) auto
qed

subsection \<open>The rows refine the specification's timeline\<close>

lemma load_timeline_parts:
  "load_timeline H p now w =
     (let logs = history p (db w);
          cur = get_file_hash H (files w) p;
          head = (case logs of [] \<Rightarrow> None | c # _ \<Rightarrow> Some (object_hash c))
      in (if truthy cur \<and> cur \<noteq> head then [temp_row now (the cur) head] else []) @
         map2 commit_row logs (map (Some \<circ> object_hash) (drop 1 logs) @ [None]))"
  by (cases "history p (db w)")
     (auto simp: load_timeline_def Let_def map_enumerate_next truthy_def split: option.splits)

text \<open>Row by row, each key is the encoding of the specification's entry.\<close>

lemma load_timeline_entry_keys:
  assumes "\<forall>bs. H bs \<noteq> []"
  shows "list_all2 (\<lambda>r e. row_key r = entry_key e)
           (load_timeline H p now w) (build_timeline (get_file_hash H (files w) p) (history p (db w)))"
proof -
  let ?logs = "history p (db w)"
  let ?head = "case ?logs of [] \<Rightarrow> None | c # _ \<Rightarrow> Some (object_hash c)"
  let ?preds = "map (Some \<circ> object_hash) (drop 1 ?logs) @ [None]"
  have temp: "list_all2 (\<lambda>r e. row_key r = entry_key e)
      (if truthy (get_file_hash H (files w) p) \<and> get_file_hash H (files w) p \<noteq> ?head
       then [temp_row now (the (get_file_hash H (files w) p)) ?head] else [])
      (case get_file_hash H (files w) p of
         Some d \<Rightarrow> if Some d \<noteq> ?head then [Uncommitted d ?head] else [] | None \<Rightarrow> [])"
    using assms by (cases "files w p") (auto simp: truthy_def temp_row_def fg_simps)
  have commits: "list_all2 (\<lambda>r e. row_key r = entry_key e)
      (map2 commit_row ?logs ?preds)
      (map2 (\<lambda>c pred. Committed (cid c) (object_hash c) pred (ctype c)) ?logs ?preds)"
    by (auto simp: list.rel_map list_all2_same commit_row_def)
  show ?thesis
    using list_all2_appendI [OF temp commits]
    by (simp add: load_timeline_parts build_timeline_def Let_def)
qed

subsection \<open>The diff pane\<close>

lemma hex_digest_no_t: "hex_digest d \<Longrightarrow> CHR ''t'' \<notin> set d"
  by (auto simp: hex_digest_def)

lemma hex_digest_not_None: "hex_digest d \<Longrightarrow> d \<noteq> ''None''"
  by (auto simp: hex_digest_def)

lemma py_str_nat_no_t: "CHR ''t'' \<notin> set (py_str_nat n)"
  using py_str_nat_digits [of n] by (auto simp: decimal_digits_def)

lemma commit_key_no_temp:
  assumes "CHR ''t'' \<notin> set d" and "CHR ''t'' \<notin> set q"
  shows "\<not> py_in ''temp'' (d @ ''|'' @ q @ ''|'' @ py_str_nat i @ ''|'' @ py_type_str t)"
proof
  assume "py_in ''temp'' (d @ ''|'' @ q @ ''|'' @ py_str_nat i @ ''|'' @ py_type_str t)"
  then have "adjacent CHR ''t'' CHR ''e'' (d @ ''|'' @ q @ ''|'' @ py_str_nat i @ ''|'' @ py_type_str t)"
    by (rule py_in_adjacent)
  with assms py_str_nat_no_t [of i] show False
    by (cases t) (auto simp: fg_simps adjacent_absent dest: last_in_set)
qed



lemma hex_digest_no_pipe: "hex_digest d \<Longrightarrow> CHR ''|'' \<notin> set d"
  by (auto simp: hex_digest_def)

lemma entry_digests_ok_mono:
  "entry_digests_ok P e \<Longrightarrow> (\<And>d. P d \<Longrightarrow> Q d) \<Longrightarrow> entry_digests_ok Q e"
  by (cases e) auto

lemma update_views_fields:
  assumes "py_split CHR ''|'' 4 k = [a, b, c, d]" and "k \<noteq> []"
  shows "update_views p w (Some k) =
           Views (if a \<noteq> [] \<and> objects w a \<noteq> None then read_text (objects w a) else read_text (files w p))
                 (if b = [] \<or> b = ''None'' then NoPrevious
                  else (case objects w b of
                          None \<Rightarrow> DiffError
                        | Some pc \<Rightarrow> (case (if py_in ''temp'' k then files w p else objects w a) of
                                        None \<Rightarrow> DiffError
                                      | Some cc \<Rightarrow> ShowDiff pc cc)))"
  using assms by (simp add: update_views_def Let_def)

lemma entry_key_nonempty: "entry_key e \<noteq> []"
  by (cases e) simp_all

lemma update_views_entry:
  assumes ok: "entry_digests_ok hex_digest e"
  shows "\<exists>c. update_views p w (Some (entry_key e)) = Views c (spec_diff w p e)"
proof -
  have fields: "py_split CHR ''|'' 4 (entry_key e) = entry_fields e"
    using entry_key_fields [OF entry_digests_ok_mono [OF ok hex_digest_no_pipe]] .
  have prev: "py_str_opt prev = [] \<or> py_str_opt prev = ''None'' \<longleftrightarrow> prev = None"
    if "\<forall>h. prev = Some h \<longrightarrow> hex_digest h" for prev
    using that by (cases prev) (auto simp: py_str_opt_def hex_digest_def)
  show ?thesis
  proof (cases e)
    case (Uncommitted d q)
    have temp: "py_in ''temp'' (entry_key e)"
      using py_in_append_needle [of "''temp''" "d @ ''|'' @ py_str_opt q @ ''|''" "''|temp''"]
      by (simp add: Uncommitted)
    from ok Uncommitted have q: "\<forall>h. q = Some h \<longrightarrow> hex_digest h" by simp
    have "py_split CHR ''|'' 4 (entry_key e) = [d, py_str_opt q, ''temp'', ''temp'']"
      using fields Uncommitted by simp
    from update_views_fields [OF this entry_key_nonempty] temp prev [OF q]
    show ?thesis
      by (cases q) (auto simp: Uncommitted py_str_opt_def simp del: entry_key.simps split: option.splits)
  next
    case (Committed i d q t)
    from ok Committed have d: "hex_digest d" and q: "\<forall>h. q = Some h \<longrightarrow> hex_digest h" by simp_all
    have "CHR ''t'' \<notin> set (py_str_opt q)"
      using q by (cases q) (auto simp: py_str_opt_def dest: hex_digest_no_t)
    then have notemp: "\<not> py_in ''temp'' (entry_key e)"
      using commit_key_no_temp [OF hex_digest_no_t [OF d]] by (simp add: Committed)
    have "py_split CHR ''|'' 4 (entry_key e) = [d, py_str_opt q, py_str_nat i, py_type_str t]"
      using fields Committed by simp
    from update_views_fields [OF this entry_key_nonempty] notemp prev [OF q]
    show ?thesis
      by (cases q) (auto simp: Committed py_str_opt_def simp del: entry_key.simps split: option.splits)
  qed
qed

section \<open>Properties of the timeline\<close>

text \<open>
  C11: The table \<open>load_timeline\<close> fills refines the specification's timeline:
  splitting each row's key with \<open>split('|', 4)\<close> gives back, row by row, the
  digest, the predecessor's digest (\<open>'None'\<close> for none), the commit id and the
  type of the specification's entries, the uncommitted entry first when the live
  digest differs from the newest commit. It holds when digests never contain the
  separator, as hex digests do not.
\<close>

theorem load_timeline_refines_spec:
  assumes h: "\<forall>bs. H bs \<noteq> [] \<and> CHR ''|'' \<notin> set (H bs)"
    and r: "\<forall>r\<in>set (rows (db w)). CHR ''|'' \<notin> set (object_hash r)"
  shows "map (py_split CHR ''|'' 4 \<circ> row_key) (load_timeline H p now w) =
         map entry_fields (build_timeline (get_file_hash H (files w) p) (history p (db w)))"
proof -
  have cur: "\<forall>d. get_file_hash H (files w) p = Some d \<longrightarrow> CHR ''|'' \<notin> set d"
    using h by (cases "files w p") (auto simp: fg_simps)
  have logs: "\<forall>c\<in>set (history p (db w)). CHR ''|'' \<notin> set (object_hash c)"
    using r by (auto simp: history_set select_path_def)
  have keys: "list_all2 (\<lambda>r e. row_key r = entry_key e)
      (load_timeline H p now w) (build_timeline (get_file_hash H (files w) p) (history p (db w)))"
    using h by (intro load_timeline_entry_keys) simp
  have "\<forall>e\<in>set (build_timeline (get_file_hash H (files w) p) (history p (db w))).
          py_split CHR ''|'' 4 (entry_key e) = entry_fields e"
    using build_timeline_digests_ok [OF cur logs] entry_key_fields by blast
  with keys have "list_all2 (\<lambda>r e. py_split CHR ''|'' 4 (row_key r) = entry_fields e)
      (load_timeline H p now w) (build_timeline (get_file_hash H (files w) p) (history p (db w)))"
    by (auto simp: list_all2_conv_all_nth dest: nth_mem)
  then show ?thesis
    by (simp add: list_all2_map_eq)
qed

text \<open>
  C12: The status line and the table agree: the header says "[MODIFIED]" exactly
  when the table has a "(temp)" row, and "[DELETED]" exactly when the file is
  missing (for a hash function that never returns the empty string).
\<close>

theorem header_matches_timeline:
  assumes "\<forall>bs. H bs \<noteq> []"
  shows "(update_header H p w = Modified \<longleftrightarrow> (\<exists>r\<in>set (load_timeline H p now w). marker r = MarkTemp)) \<and>
         (update_header H p w = Deleted \<longleftrightarrow> files w p = None)"
proof -
  have no_temp: "marker (commit_row c pred) \<noteq> MarkTemp" for c :: "'a commit" and pred
    by (simp add: commit_row_def)
  have latest: "latest p (db w) = (case history p (db w) of [] \<Rightarrow> None | c # _ \<Rightarrow> Some c)"
    by (simp add: latest_def)
  show ?thesis
  proof (cases "files w p")
    case None
    then show ?thesis
      by (auto simp: no_temp update_header_def load_timeline_parts Let_def truthy_def fg_simps)
  next
    case (Some bs)
    with assms show ?thesis
      by (auto simp: no_temp update_header_def load_timeline_parts Let_def truthy_def latest temp_row_def fg_simps
               split: list.splits)
  qed
qed


section \<open>Witnesses\<close>

text \<open>
  A file \<open>f\<close> with one commit and changed content, under a toy hash whose
  values are non-empty hex strings.
\<close>

lemma load_timeline_refines_spec_witness:
  "map (py_split CHR ''|'' 4 \<circ> row_key) (load_timeline (\<lambda>bs. CHR ''a'' # replicate (length bs) CHR ''b'') ''f'' 2 \<lparr>files = [''f'' \<mapsto> ''xy''], objects = [''ab'' \<mapsto> ''zz''],
      db = \<lparr>rows = [\<lparr>cid = 1, file_path = ''f'', object_hash = ''ab'', message = None,
                     timestamp = 1::nat, ctype = Auto\<rparr>], seq = 1\<rparr>\<rparr>) =
   [[''abb'', ''ab'', ''temp'', ''temp''], [''ab'', ''None'', ''1'', ''auto'']]"
proof -
  have "map (py_split CHR ''|'' 4 \<circ> row_key) (load_timeline (\<lambda>bs. CHR ''a'' # replicate (length bs) CHR ''b'') ''f'' 2 \<lparr>files = [''f'' \<mapsto> ''xy''], objects = [''ab'' \<mapsto> ''zz''],
      db = \<lparr>rows = [\<lparr>cid = 1, file_path = ''f'', object_hash = ''ab'', message = None,
                     timestamp = 1::nat, ctype = Auto\<rparr>], seq = 1\<rparr>\<rparr>) =
        map entry_fields (build_timeline (get_file_hash (\<lambda>bs. CHR ''a'' # replicate (length bs) CHR ''b'') (files \<lparr>files = [''f'' \<mapsto> ''xy''], objects = [''ab'' \<mapsto> ''zz''],
      db = \<lparr>rows = [\<lparr>cid = 1, file_path = ''f'', object_hash = ''ab'', message = None,
                     timestamp = 1::nat, ctype = Auto\<rparr>], seq = 1\<rparr>\<rparr>) ''f'') (history ''f'' (db \<lparr>files = [''f'' \<mapsto> ''xy''], objects = [''ab'' \<mapsto> ''zz''],
      db = \<lparr>rows = [\<lparr>cid = 1, file_path = ''f'', object_hash = ''ab'', message = None,
                     timestamp = 1::nat, ctype = Auto\<rparr>], seq = 1\<rparr>\<rparr>)))"
    by (rule load_timeline_refines_spec) auto
  also have "\<dots> = [[''abb'', ''ab'', ''temp'', ''temp''], [''ab'', ''None'', ''1'', ''auto'']]"
    by (simp add: build_timeline_def history_def select_path_def order_by_ts_desc_def py_str_opt_def
        py_str_nat.simps decimal_digits_def fg_simps)
  finally show ?thesis .
qed

lemma header_matches_timeline_witness:
  "update_header (\<lambda>bs. CHR ''a'' # replicate (length bs) CHR ''b'') ''f'' \<lparr>files = [''f'' \<mapsto> ''xy''], objects = [''ab'' \<mapsto> ''zz''],
      db = \<lparr>rows = [\<lparr>cid = 1, file_path = ''f'', object_hash = ''ab'', message = None,
                     timestamp = 1::nat, ctype = Auto\<rparr>], seq = 1\<rparr>\<rparr> = Modified \<and> (\<exists>r\<in>set (load_timeline (\<lambda>bs. CHR ''a'' # replicate (length bs) CHR ''b'') ''f'' 2 \<lparr>files = [''f'' \<mapsto> ''xy''], objects = [''ab'' \<mapsto> ''zz''],
      db = \<lparr>rows = [\<lparr>cid = 1, file_path = ''f'', object_hash = ''ab'', message = None,
                     timestamp = 1::nat, ctype = Auto\<rparr>], seq = 1\<rparr>\<rparr>). marker r = MarkTemp)"
proof -
  have "update_header (\<lambda>bs. CHR ''a'' # replicate (length bs) CHR ''b'') ''f'' \<lparr>files = [''f'' \<mapsto> ''xy''], objects = [''ab'' \<mapsto> ''zz''],
      db = \<lparr>rows = [\<lparr>cid = 1, file_path = ''f'', object_hash = ''ab'', message = None,
                     timestamp = 1::nat, ctype = Auto\<rparr>], seq = 1\<rparr>\<rparr> = Modified"
    by (simp add: update_header_def latest_def history_def select_path_def order_by_ts_desc_def
        truthy_def fg_simps)
  moreover have "(update_header (\<lambda>bs. CHR ''a'' # replicate (length bs) CHR ''b'') ''f'' \<lparr>files = [''f'' \<mapsto> ''xy''], objects = [''ab'' \<mapsto> ''zz''],
      db = \<lparr>rows = [\<lparr>cid = 1, file_path = ''f'', object_hash = ''ab'', message = None,
                     timestamp = 1::nat, ctype = Auto\<rparr>], seq = 1\<rparr>\<rparr> = Modified \<longleftrightarrow>
                   (\<exists>r\<in>set (load_timeline (\<lambda>bs. CHR ''a'' # replicate (length bs) CHR ''b'') ''f'' 2 \<lparr>files = [''f'' \<mapsto> ''xy''], objects = [''ab'' \<mapsto> ''zz''],
      db = \<lparr>rows = [\<lparr>cid = 1, file_path = ''f'', object_hash = ''ab'', message = None,
                     timestamp = 1::nat, ctype = Auto\<rparr>], seq = 1\<rparr>\<rparr>). marker r = MarkTemp)) \<and>
                 (update_header (\<lambda>bs. CHR ''a'' # replicate (length bs) CHR ''b'') ''f'' \<lparr>files = [''f'' \<mapsto> ''xy''], objects = [''ab'' \<mapsto> ''zz''],
      db = \<lparr>rows = [\<lparr>cid = 1, file_path = ''f'', object_hash = ''ab'', message = None,
                     timestamp = 1::nat, ctype = Auto\<rparr>], seq = 1\<rparr>\<rparr> = Deleted \<longleftrightarrow> files \<lparr>files = [''f'' \<mapsto> ''xy''], objects = [''ab'' \<mapsto> ''zz''],
      db = \<lparr>rows = [\<lparr>cid = 1, file_path = ''f'', object_hash = ''ab'', message = None,
                     timestamp = 1::nat, ctype = Auto\<rparr>], seq = 1\<rparr>\<rparr> ''f'' = None)"
    by (rule header_matches_timeline) simp
  ultimately show ?thesis by simp
qed


end
