(* ===== verification/Dashboard.thy ===== *)
theory Dashboard
  imports Timeline
begin

text \<open>
  The dashboard's own state and key bindings (\<open>DashboardApp\<close>, src/filegit.py):
  the highlighted row key, the forget confirmation flag with its 5-second timer, the
  commit-message dialog (\<open>CommitInputScreen\<close>), and the handlers of the keys A, C,
  R, F, S and Q. Events arrive one at a time (Textual's message loop); an exception
  a handler does not catch ends the application, which is the \<open>Inl\<close> result.
\<close>

section \<open>State and events\<close>

datatype ui_note =
    NoteSelectRow | NoteAlreadyManual | NoteSnapshotFirst | NoteWorkingVersion
  | NoteConfirmForget | NoteForgetCancelled | NoteFileMissing | NoteSnapshotAdded
  | NoteCommitted string | NoteRestored string | NoteRefreshed

text \<open>
  \<open>modal\<close> is the \<open>commit_id\<close> string captured by the \<open>on_submit\<close> closure while the
  dialog is on screen; \<open>pending_timers\<close> counts the \<open>set_timer(5, cancel_forget)\<close>
  calls that have not fired yet; \<open>shown_notes\<close> are the notifications shown.
\<close>

record 'ts dash =
  wld :: "'ts world"
  current_row_key :: "string option"
  is_forget_pending :: bool
  pending_timers :: nat
  modal :: "string option"
  exited :: bool
  shown_notes :: "ui_note list"

text \<open>Exceptions no handler catches: \<open>int()\<close> or tuple unpacking, and a missing object on restore.\<close>

datatype dash_error = ValueError | FileNotFoundError string

datatype 'ts ui_event =
    KeyA 'ts | KeyC | KeyR | KeyF | KeyS | KeyQ
  | Highlight string | Submit string | TimerFires

text \<open>\<open>DashboardApp.__init__\<close>: no row highlighted, nothing pending.\<close>

definition init_dash :: "'ts world \<Rightarrow> 'ts dash" where
  "init_dash w = \<lparr>wld = w, current_row_key = None, is_forget_pending = False, pending_timers = 0,
                  modal = None, exited = False, shown_notes = []\<rparr>"

definition notify :: "ui_note \<Rightarrow> 'ts dash \<Rightarrow> 'ts dash" where
  "notify n s = s\<lparr>shown_notes := shown_notes s @ [n]\<rparr>"

section \<open>The key handlers\<close>

text \<open>
  Key A: \<open>action_add_snapshot\<close> on the dashboard's file. A falsy hash is a
  notification; a failure of \<open>shutil.copy\<close> after a truthy hash propagates.
\<close>

definition action_add_snapshot_ui :: "hash_fn \<Rightarrow> path \<Rightarrow> 'ts \<Rightarrow> ('ts::linorder) dash \<Rightarrow> dash_error + 'ts dash" where
  "action_add_snapshot_ui H fp now s =
     (if \<not> truthy (get_file_hash H (files (wld s)) fp) then Inr (notify NoteFileMissing s)
      else (case action_add_snapshot H fp now (wld s) of
              Inl _ \<Rightarrow> Inl (FileNotFoundError fp)
            | Inr w' \<Rightarrow> Inr (notify NoteSnapshotAdded (s\<lparr>wld := w'\<rparr>))))"

text \<open>
  Key C: \<open>action_commit_message\<close>. The row key is split with \<open>split('|', 4)\<close> and
  unpacked into four names; a manual or temp row is refused; otherwise the dialog is
  pushed (\<open>CommitInputScreen(int(commit_id))\<close> evaluates \<open>int\<close> first).
\<close>

definition action_commit_message :: "'ts dash \<Rightarrow> dash_error + 'ts dash" where
  "action_commit_message s =
     (case current_row_key s of
        None \<Rightarrow> Inr (notify NoteSelectRow s)
      | Some k \<Rightarrow>
          (case py_split CHR ''|'' 4 k of
             [_, _, commit_id, commit_type] \<Rightarrow>
               if commit_type = ''manual'' then Inr (notify NoteAlreadyManual s)
               else if commit_type = ''temp'' then Inr (notify NoteSnapshotFirst s)
               else (case py_int commit_id of
                       None \<Rightarrow> Inl ValueError
                     | Some _ \<Rightarrow> Inr (s\<lparr>modal := Some commit_id\<rparr>))
           | _ \<Rightarrow> Inl ValueError))"

text \<open>
  Enter in the dialog: \<open>dismiss(event.value or None)\<close>, then \<open>on_submit(message)\<close>,
  which runs the \<open>UPDATE\<close> only for a non-empty message.
\<close>

definition on_submit :: "string \<Rightarrow> ('ts::linorder) dash \<Rightarrow> dash_error + 'ts dash" where
  "on_submit msg s =
     (case modal s of
        None \<Rightarrow> Inr s
      | Some commit_id \<Rightarrow>
          (let s1 = s\<lparr>modal := None\<rparr>
           in if msg = [] then Inr s1
              else (case py_int commit_id of
                      None \<Rightarrow> Inl ValueError
                    | Some i \<Rightarrow>
                        Inr (notify (NoteCommitted msg)
                               (s1\<lparr>wld := (wld s1)\<lparr>db := promote_commit (nat i) msg (db (wld s1))\<rparr>\<rparr>)))))"

text \<open>Key R: \<open>action_restore_selected\<close>; the temp row is refused.\<close>

definition action_restore_selected :: "path \<Rightarrow> 'ts dash \<Rightarrow> dash_error + 'ts dash" where
  "action_restore_selected fp s =
     (case current_row_key s of
        None \<Rightarrow> Inr (notify NoteSelectRow s)
      | Some k \<Rightarrow>
          (case py_split CHR ''|'' 4 k of
             [selected_hash, _, _, commit_type] \<Rightarrow>
               if commit_type = ''temp'' then Inr (notify NoteWorkingVersion s)
               else (case restore_from_object selected_hash fp (wld s) of
                       Inl _ \<Rightarrow> Inl (FileNotFoundError selected_hash)
                     | Inr w' \<Rightarrow> Inr (notify (NoteRestored (take 7 selected_hash)) (s\<lparr>wld := w'\<rparr>)))
           | _ \<Rightarrow> Inl ValueError))"

text \<open>
  Key F: \<open>action_forget_file\<close>. With a confirmation pending, delete every row of the
  file and exit; otherwise ask for confirmation and start the 5-second timer.
\<close>

definition action_forget_file :: "path \<Rightarrow> 'ts dash \<Rightarrow> 'ts dash" where
  "action_forget_file fp s =
     (if is_forget_pending s
      then s\<lparr>wld := (wld s)\<lparr>db := delete_path fp (db (wld s))\<rparr>, exited := True\<rparr>
      else (notify NoteConfirmForget s)\<lparr>is_forget_pending := True, pending_timers := Suc (pending_timers s)\<rparr>)"

definition cancel_forget :: "'ts dash \<Rightarrow> 'ts dash" where
  "cancel_forget s =
     (if is_forget_pending s then notify NoteForgetCancelled (s\<lparr>is_forget_pending := False\<rparr>) else s)"

text \<open>One of the pending timers fires and calls \<open>cancel_forget\<close>.\<close>

definition timer_fires :: "'ts dash \<Rightarrow> 'ts dash" where
  "timer_fires s =
     (if pending_timers s = 0 then s else cancel_forget (s\<lparr>pending_timers := pending_timers s - 1\<rparr>))"

text \<open>Key S: \<open>action_refresh_status\<close> redraws and notifies; no state changes.\<close>

definition action_refresh_status :: "'ts dash \<Rightarrow> 'ts dash" where
  "action_refresh_status s = notify NoteRefreshed s"

text \<open>\<open>update_views\<close> records the highlighted row's key (the panes are \<open>Timeline.update_views\<close>).\<close>

definition highlight :: "string \<Rightarrow> 'ts dash \<Rightarrow> 'ts dash" where
  "highlight k s = s\<lparr>current_row_key := Some k\<rparr>"

text \<open>
  The message loop. After exit nothing runs. While the dialog is up its input field
  takes the keys, so only Enter and timers reach the application.
\<close>

definition dash_step :: "hash_fn \<Rightarrow> path \<Rightarrow> 'ts ui_event \<Rightarrow> ('ts::linorder) dash \<Rightarrow> dash_error + 'ts dash" where
  "dash_step H fp ev s =
     (if exited s then Inr s
      else (case ev of
              TimerFires \<Rightarrow> Inr (timer_fires s)
            | Submit msg \<Rightarrow> on_submit msg s
            | _ \<Rightarrow>
               if modal s \<noteq> None then Inr s
               else (case ev of
                       KeyA now \<Rightarrow> action_add_snapshot_ui H fp now s
                     | KeyC \<Rightarrow> action_commit_message s
                     | KeyR \<Rightarrow> action_restore_selected fp s
                     | KeyF \<Rightarrow> Inr (action_forget_file fp s)
                     | KeyS \<Rightarrow> Inr (action_refresh_status s)
                     | KeyQ \<Rightarrow> Inr (s\<lparr>exited := True\<rparr>)
                     | Highlight k \<Rightarrow> Inr (highlight k s)
                     | _ \<Rightarrow> Inr s)))"

fun dash_run :: "hash_fn \<Rightarrow> path \<Rightarrow> 'ts ui_event list \<Rightarrow> ('ts::linorder) dash \<Rightarrow> dash_error + 'ts dash" where
  "dash_run H fp [] s = Inr s"
| "dash_run H fp (e # es) s = (case dash_step H fp e s of Inl err \<Rightarrow> Inl err | Inr s' \<Rightarrow> dash_run H fp es s')"

text \<open>The forget flag is pending exactly while its one timer has not fired.\<close>

definition forget_timer_ok :: "'ts dash \<Rightarrow> bool" where
  "forget_timer_ok s \<longleftrightarrow> pending_timers s = (if is_forget_pending s then 1 else 0)"


section \<open>Lemmas\<close>

lemma dash_run_exited: "exited s \<Longrightarrow> dash_run H fp es s = Inr s' \<Longrightarrow> s' = s"
  by (induction es) (auto simp: dash_step_def)

lemma action_add_snapshot_ui_flags:
  "action_add_snapshot_ui H fp now s = Inr s' \<Longrightarrow>
   is_forget_pending s' = is_forget_pending s \<and> pending_timers s' = pending_timers s \<and> exited s' = exited s"
  by (auto simp: action_add_snapshot_ui_def notify_def split: if_splits sum.splits)

lemma action_commit_message_flags:
  "action_commit_message s = Inr s' \<Longrightarrow>
   is_forget_pending s' = is_forget_pending s \<and> pending_timers s' = pending_timers s \<and> exited s' = exited s"
  by (auto simp: action_commit_message_def notify_def split: option.splits list.splits if_splits)

lemma on_submit_flags:
  "on_submit msg s = Inr s' \<Longrightarrow>
   is_forget_pending s' = is_forget_pending s \<and> pending_timers s' = pending_timers s \<and> exited s' = exited s"
  by (auto simp: on_submit_def notify_def Let_def split: option.splits if_splits)

lemma action_restore_selected_flags:
  "action_restore_selected fp s = Inr s' \<Longrightarrow>
   is_forget_pending s' = is_forget_pending s \<and> pending_timers s' = pending_timers s \<and> exited s' = exited s"
  by (auto simp: action_restore_selected_def notify_def split: option.splits list.splits if_splits sum.splits)

lemmas handler_flags =
  action_add_snapshot_ui_flags action_commit_message_flags on_submit_flags action_restore_selected_flags

text \<open>Every event other than F, Q and a timer leaves the flags alone.\<close>

lemma dash_step_flags:
  assumes "dash_step H fp ev s = Inr s'" and "ev \<noteq> KeyF" and "ev \<noteq> KeyQ" and "ev \<noteq> TimerFires"
  shows "is_forget_pending s' = is_forget_pending s \<and> pending_timers s' = pending_timers s \<and>
         exited s' = exited s"
  using assms
  by (cases ev)
     (auto simp: dash_step_def action_refresh_status_def highlight_def notify_def
           split: if_splits dest: handler_flags)

lemma dash_step_timer_ok:
  assumes "dash_step H fp ev s = Inr s'" and "forget_timer_ok s"
  shows "forget_timer_ok s'"
proof (cases "ev = KeyF \<or> ev = KeyQ \<or> ev = TimerFires")
  case True
  with assms show ?thesis
    by (auto simp: dash_step_def forget_timer_ok_def action_forget_file_def timer_fires_def
                   cancel_forget_def notify_def split: if_splits)
next
  case False
  with dash_step_flags [OF assms(1)] assms(2) show ?thesis by (simp add: forget_timer_ok_def)
qed

lemma dash_run_timer_ok:
  "dash_run H fp evs s = Inr s' \<Longrightarrow> forget_timer_ok s \<Longrightarrow> forget_timer_ok s'"
  by (induction evs arbitrary: s) (auto split: sum.splits intro: dash_step_timer_ok)

lemma init_dash_timer_ok: "forget_timer_ok (init_dash w)"
  by (simp add: forget_timer_ok_def init_dash_def)

lemma dash_step_exits:
  assumes "dash_step H fp ev s = Inr s1" and "\<not> exited s" and "exited s1" and "ev \<noteq> KeyQ"
  shows "ev = KeyF \<and> is_forget_pending s \<and> db (wld s1) = delete_path fp (db (wld s))"
proof (cases "ev = KeyF \<or> ev = TimerFires")
  case True
  with assms show ?thesis
    by (auto simp: dash_step_def action_forget_file_def timer_fires_def cancel_forget_def notify_def
             split: if_splits)
next
  case False
  with dash_step_flags [OF assms(1)] assms(2-4) show ?thesis by simp
qed

lemma dash_step_timer_cancels:
  "forget_timer_ok s \<Longrightarrow> \<not> exited s \<Longrightarrow> dash_step H fp TimerFires s = Inr s1 \<Longrightarrow> \<not> is_forget_pending s1"
  by (auto simp: dash_step_def forget_timer_ok_def timer_fires_def cancel_forget_def notify_def
           split: if_splits)

lemma dash_run_exit_cases:
  assumes "dash_run H fp evs s0 = Inr s" and "forget_timer_ok s0" and "\<not> exited s0" and "exited s"
    and "KeyQ \<notin> set evs"
  shows "select_path fp (db (wld s)) = [] \<and>
         ((is_forget_pending s0 \<and> (\<exists>ys zs. evs = ys @ KeyF # zs \<and> KeyF \<notin> set ys \<and> TimerFires \<notin> set ys)) \<or>
          (\<exists>xs ys zs. evs = xs @ KeyF # ys @ KeyF # zs \<and> KeyF \<notin> set ys \<and> TimerFires \<notin> set ys))"
  using assms
proof (induction evs arbitrary: s0)
  case Nil
  then show ?case by simp
next
  case (Cons e es)
  then obtain s1 where st: "dash_step H fp e s0 = Inr s1" and run: "dash_run H fp es s1 = Inr s"
    by (auto split: sum.splits)
  have ok1: "forget_timer_ok s1" using dash_step_timer_ok [OF st Cons.prems(2)] .
  have eQ: "e \<noteq> KeyQ" using Cons.prems(5) by auto
  show ?case
  proof (cases "exited s1")
    case True
    with run have "s = s1" by (simp add: dash_run_exited)
    with dash_step_exits [OF st Cons.prems(3) True eQ] show ?thesis
      by (auto simp: select_path_delete intro: exI [of _ "[]"])
  next
    case False
    from Cons.IH [OF run ok1 False Cons.prems(4)] Cons.prems(5)
    have ih: "select_path fp (db (wld s)) = [] \<and>
              ((is_forget_pending s1 \<and> (\<exists>ys zs. es = ys @ KeyF # zs \<and> KeyF \<notin> set ys \<and> TimerFires \<notin> set ys)) \<or>
               (\<exists>xs ys zs. es = xs @ KeyF # ys @ KeyF # zs \<and> KeyF \<notin> set ys \<and> TimerFires \<notin> set ys))"
      by simp
    show ?thesis
    proof (cases "e = KeyF")
      case True
      with ih show ?thesis by (metis append.simps(1) append_Cons)
    next
      case eF: False
      show ?thesis
      proof (cases "e = TimerFires")
        case True
        with dash_step_timer_cancels [OF Cons.prems(2,3)] st have "\<not> is_forget_pending s1" by simp
        with ih True show ?thesis by (metis append_Cons)
      next
        case False
        with dash_step_flags [OF st eF eQ] have "is_forget_pending s1 = is_forget_pending s0" by simp
        with ih eF False show ?thesis by (metis append_Cons set_ConsD)
      qed
    qed
  qed
qed


lemma commit_key_split:
  assumes "hex_digest d" and "\<forall>h. prev = Some h \<longrightarrow> hex_digest h"
  shows "py_split CHR ''|'' 4 (entry_key (Committed i d prev t)) = [d, py_str_opt prev, py_str_nat i, py_type_str t]"
proof -
  have "entry_digests_ok (\<lambda>d. CHR ''|'' \<notin> set d) (Committed i d prev t)"
    using assms by (auto dest: hex_digest_no_pipe)
  from entry_key_fields [OF this] show ?thesis by simp
qed

lemma temp_key_split:
  assumes "hex_digest d" and "\<forall>h. prev = Some h \<longrightarrow> hex_digest h"
  shows "py_split CHR ''|'' 4 (entry_key (Uncommitted d prev)) = [d, py_str_opt prev, ''temp'', ''temp'']"
proof -
  have "entry_digests_ok (\<lambda>d. CHR ''|'' \<notin> set d) (Uncommitted d prev)"
    using assms by (auto dest: hex_digest_no_pipe)
  from entry_key_fields [OF this] show ?thesis by simp
qed

lemma py_type_str_not_temp [fg_simps]: "py_type_str t \<noteq> ''temp''"
  by (cases t) simp_all

section \<open>Properties of the dashboard\<close>

text \<open>
  C26: The forget confirmation is pending exactly while its one 5-second timer has not
  fired: from start-up, whatever keys are pressed and timers fire, no stale timer is
  left to cancel a later confirmation early, and no confirmation outlives its timer.
\<close>

theorem forget_timer_invariant:
  "dash_run H fp evs (init_dash w) = Inr s \<Longrightarrow>
   pending_timers s = (if is_forget_pending s then 1 else 0)"
proof -
  assume "dash_run H fp evs (init_dash w) = Inr s"
  from dash_run_timer_ok [OF this init_dash_timer_ok] show ?thesis by (simp add: forget_timer_ok_def)
qed

text \<open>
  C27: The dashboard deletes a file's history only on a second F: if it exits without
  Q being pressed, all rows of the file are gone, and the key sequence holds two F
  presses with neither another F nor a timer expiry between them.
\<close>

theorem forget_needs_double_press:
  assumes "dash_run H fp evs (init_dash w) = Inr s" and "exited s" and "KeyQ \<notin> set evs"
  shows "select_path fp (db (wld s)) = [] \<and>
         (\<exists>xs ys zs. evs = xs @ KeyF # ys @ KeyF # zs \<and> KeyF \<notin> set ys \<and> TimerFires \<notin> set ys)"
  using dash_run_exit_cases [OF assms(1) init_dash_timer_ok _ assms(2,3)]
  by (simp add: init_dash_def)

text \<open>
  C28: Highlighting the row of an \<open>'auto'\<close> commit, pressing C and submitting a
  non-empty message promotes exactly that commit: the row key's id survives
  \<open>str()\<close>, the f-string, \<open>split('|', 4)\<close> and \<open>int()\<close>.
\<close>

theorem commit_message_promotes_selected:
  assumes "\<not> exited s" and "modal s = None" and "hex_digest d" and "\<forall>h. prev = Some h \<longrightarrow> hex_digest h"
    and "msg \<noteq> []"
  shows "\<exists>s'. dash_run H fp [Highlight (entry_key (Committed i d prev Auto)), KeyC, Submit msg] s = Inr s' \<and>
              wld s' = (wld s)\<lparr>db := promote_commit i msg (db (wld s))\<rparr> \<and> modal s' = None"
  using assms commit_key_split [OF assms(3,4), where i = i and t = Auto]
  by (simp add: dash_step_def highlight_def action_commit_message_def on_submit_def notify_def fg_simps)

text \<open>
  C29: Restoring the highlighted row of a commit (key R) writes its object's bytes
  over the file and changes nothing else; if the object is missing, the uncaught
  \<open>FileNotFoundError\<close> of \<open>shutil.copy\<close> ends the dashboard. On the uncommitted
  row nothing is restored.
\<close>

theorem restore_selected_row:
  assumes "\<not> exited s" and "modal s = None" and "hex_digest d" and "\<forall>h. prev = Some h \<longrightarrow> hex_digest h"
  shows "(objects (wld s) d = None \<longrightarrow>
            dash_run H fp [Highlight (entry_key (Committed i d prev t)), KeyR] s = Inl (FileNotFoundError d)) \<and>
         (\<forall>bs. objects (wld s) d = Some bs \<longrightarrow>
            (\<exists>s'. dash_run H fp [Highlight (entry_key (Committed i d prev t)), KeyR] s = Inr s' \<and>
                  files (wld s') fp = Some bs \<and> objects (wld s') = objects (wld s) \<and> db (wld s') = db (wld s))) \<and>
         (\<exists>s'. dash_run H fp [Highlight (entry_key (Uncommitted d prev)), KeyR] s = Inr s' \<and> wld s' = wld s)"
  using assms commit_key_split [OF assms(3,4), where i = i and t = t] temp_key_split [OF assms(3,4)]
  by (auto simp: dash_step_def highlight_def action_restore_selected_def restore_from_object_def notify_def
                 fg_simps)


section \<open>Witnesses\<close>

lemma forget_timer_invariant_witness:
  "\<exists>s. dash_run id ''/f'' [KeyF, TimerFires, KeyS, KeyF] (init_dash \<lparr>files = [''/f'' \<mapsto> ''x''], objects = [''ab'' \<mapsto> ''zz''],
       db = \<lparr>rows = [\<lparr>cid = 1, file_path = ''/f'', object_hash = ''ab'', message = None,
                        timestamp = 1::nat, ctype = Auto\<rparr>], seq = 1\<rparr>\<rparr>) = Inr s \<and>
       pending_timers s = (if is_forget_pending s then 1 else 0) \<and> is_forget_pending s"
proof -
  obtain s where r: "dash_run id ''/f'' [KeyF, TimerFires, KeyS, KeyF] (init_dash \<lparr>files = [''/f'' \<mapsto> ''x''], objects = [''ab'' \<mapsto> ''zz''],
       db = \<lparr>rows = [\<lparr>cid = 1, file_path = ''/f'', object_hash = ''ab'', message = None,
                        timestamp = 1::nat, ctype = Auto\<rparr>], seq = 1\<rparr>\<rparr>) = Inr s"
    and p: "is_forget_pending s"
    by (simp add: init_dash_def dash_step_def action_forget_file_def timer_fires_def cancel_forget_def
                  action_refresh_status_def notify_def)
  from forget_timer_invariant [OF r] r p show ?thesis by blast
qed

lemma forget_needs_double_press_witness:
  "\<exists>s. dash_run id ''/f'' [KeyF, KeyS, KeyF] (init_dash \<lparr>files = [''/f'' \<mapsto> ''x''], objects = [''ab'' \<mapsto> ''zz''],
       db = \<lparr>rows = [\<lparr>cid = 1, file_path = ''/f'', object_hash = ''ab'', message = None,
                        timestamp = 1::nat, ctype = Auto\<rparr>], seq = 1\<rparr>\<rparr>) = Inr s \<and> exited s \<and>
       select_path ''/f'' (db (wld s)) = [] \<and>
       (\<exists>xs ys zs. [KeyF, KeyS, KeyF :: nat ui_event] = xs @ KeyF # ys @ KeyF # zs \<and> KeyF \<notin> set ys \<and> TimerFires \<notin> set ys)"
proof -
  obtain s where r: "dash_run id ''/f'' [KeyF, KeyS, KeyF] (init_dash \<lparr>files = [''/f'' \<mapsto> ''x''], objects = [''ab'' \<mapsto> ''zz''],
       db = \<lparr>rows = [\<lparr>cid = 1, file_path = ''/f'', object_hash = ''ab'', message = None,
                        timestamp = 1::nat, ctype = Auto\<rparr>], seq = 1\<rparr>\<rparr>) = Inr s" and e: "exited s"
    by (simp add: init_dash_def dash_step_def action_forget_file_def action_refresh_status_def notify_def)
  have "KeyQ \<notin> set [KeyF, KeyS, KeyF :: nat ui_event]" by simp
  from forget_needs_double_press [OF r e this] r e show ?thesis by blast
qed

lemma commit_message_promotes_selected_witness:
  "\<exists>s'. dash_run id ''/f'' [Highlight (entry_key (Committed 1 ''ab'' None Auto)), KeyC, Submit ''v1'']
          (init_dash \<lparr>files = [''/f'' \<mapsto> ''x''], objects = [''ab'' \<mapsto> ''zz''],
       db = \<lparr>rows = [\<lparr>cid = 1, file_path = ''/f'', object_hash = ''ab'', message = None,
                        timestamp = 1::nat, ctype = Auto\<rparr>], seq = 1\<rparr>\<rparr>) = Inr s' \<and>
        wld s' = (\<lparr>files = [''/f'' \<mapsto> ''x''], objects = [''ab'' \<mapsto> ''zz''],
       db = \<lparr>rows = [\<lparr>cid = 1, file_path = ''/f'', object_hash = ''ab'', message = None,
                        timestamp = 1::nat, ctype = Auto\<rparr>], seq = 1\<rparr>\<rparr>)\<lparr>db := promote_commit 1 ''v1'' (db (\<lparr>files = [''/f'' \<mapsto> ''x''], objects = [''ab'' \<mapsto> ''zz''],
       db = \<lparr>rows = [\<lparr>cid = 1, file_path = ''/f'', object_hash = ''ab'', message = None,
                        timestamp = 1::nat, ctype = Auto\<rparr>], seq = 1\<rparr>\<rparr>))\<rparr> \<and> modal s' = None"
proof -
  have "hex_digest ''ab''" by (simp add: hex_digest_def)
  from commit_message_promotes_selected [OF _ _ this, of "init_dash (\<lparr>files = [''/f'' \<mapsto> ''x''], objects = [''ab'' \<mapsto> ''zz''],
       db = \<lparr>rows = [\<lparr>cid = 1, file_path = ''/f'', object_hash = ''ab'', message = None,
                        timestamp = 1::nat, ctype = Auto\<rparr>], seq = 1\<rparr>\<rparr>)" None "''v1''" id "''/f''" 1]
  show ?thesis by (simp add: init_dash_def)
qed

lemma restore_selected_row_witness:
  "\<exists>s'. dash_run id ''/f'' [Highlight (entry_key (Committed 1 ''ab'' None Auto)), KeyR] (init_dash \<lparr>files = [''/f'' \<mapsto> ''x''], objects = [''ab'' \<mapsto> ''zz''],
       db = \<lparr>rows = [\<lparr>cid = 1, file_path = ''/f'', object_hash = ''ab'', message = None,
                        timestamp = 1::nat, ctype = Auto\<rparr>], seq = 1\<rparr>\<rparr>) = Inr s' \<and>
        files (wld s') ''/f'' = Some ''zz''"
proof -
  have "hex_digest ''ab''" by (simp add: hex_digest_def)
  from restore_selected_row [OF _ _ this, of "init_dash (\<lparr>files = [''/f'' \<mapsto> ''x''], objects = [''ab'' \<mapsto> ''zz''],
       db = \<lparr>rows = [\<lparr>cid = 1, file_path = ''/f'', object_hash = ''ab'', message = None,
                        timestamp = 1::nat, ctype = Auto\<rparr>], seq = 1\<rparr>\<rparr>)" None id "''/f''" 1 Auto]
  show ?thesis by (simp add: init_dash_def) blast
qed

end
