(* ===== verification/Concurrency.thy ===== *)
theory Concurrency
  imports Snapshot
begin

text \<open>
  The two processes that share the repository, interleaved statement by
  statement: the background watcher running \<open>create_auto_snapshot\<close>
  (src/filegit_daemon.py) and the dashboard running the body of
  \<open>action_add_snapshot\<close> (src/filegit.py). Each snapshot is the sequence of
  statements of the source: the watcher's \<open>SELECT ... LIMIT 1\<close>, the hash of the
  file, \<open>shutil.copy\<close> into the object directory, the \<open>INSERT\<close>. Between any two
  statements the other process may run, another program may write or remove the
  file, the dashboard may promote, forget or restore, and either process may be
  killed. SQLite makes each statement atomic; nothing else is locked.
\<close>

section \<open>State and actions\<close>

datatype proc = Watcher | Dashboard

text \<open>Where a process is inside a snapshot.\<close>

datatype snap_pc =
    Idle
  | Queried path "digest option"
  | Hashed path digest
  | Copied path digest

record 'ts sys = "'ts world" +
  pcs :: "proc \<Rightarrow> snap_pc"

datatype 'ts action =
    QueryLatest path
  | HashFile proc path
  | CopyObject proc
  | InsertRow proc 'ts
  | Crash proc
  | PromoteRow nat string
  | ForgetRows path
  | RestoreObject digest path
  | WriteFile path bytes
  | RemoveFile path

text \<open>
  One statement: \<open>None\<close> when the action is not enabled in the state. The watcher
  first reads the digest of the latest row, then hashes the file and goes on only if
  the hash is truthy and differs; the dashboard hashes directly and goes on if the
  hash is truthy. A failing \<open>shutil.copy\<close> ends the snapshot (the watcher's
  \<open>on_modified\<close> catches the exception). The dashboard's other actions run only
  while it is not inside a snapshot (its event loop runs one action at a time).
\<close>

fun exec_action :: "hash_fn \<Rightarrow> 'ts action \<Rightarrow> ('ts::linorder) sys \<Rightarrow> 'ts sys option" where
  "exec_action H (QueryLatest p) s =
     (if pcs s Watcher = Idle
      then Some (s\<lparr>pcs := (pcs s)(Watcher := Queried p (latest_hash p (db s)))\<rparr>) else None)"
| "exec_action H (HashFile Watcher p) s =
     (case pcs s Watcher of
        Queried q last_hash \<Rightarrow>
          if q \<noteq> p then None
          else (let current_hash = get_file_hash H (files s) p
                in if truthy current_hash \<and> current_hash \<noteq> last_hash
                   then Some (s\<lparr>pcs := (pcs s)(Watcher := Hashed p (the current_hash))\<rparr>)
                   else Some (s\<lparr>pcs := (pcs s)(Watcher := Idle)\<rparr>))
      | _ \<Rightarrow> None)"
| "exec_action H (HashFile Dashboard p) s =
     (if pcs s Dashboard = Idle
      then (let current_hash = get_file_hash H (files s) p
            in if truthy current_hash
               then Some (s\<lparr>pcs := (pcs s)(Dashboard := Hashed p (the current_hash))\<rparr>)
               else Some s)
      else None)"
| "exec_action H (CopyObject P) s =
     (case pcs s P of
        Hashed p d \<Rightarrow>
          (case copy_to_object p d s of
             Inl _ \<Rightarrow> Some (s\<lparr>pcs := (pcs s)(P := Idle)\<rparr>)
           | Inr s' \<Rightarrow> Some (s'\<lparr>pcs := (pcs s)(P := Copied p d)\<rparr>))
      | _ \<Rightarrow> None)"
| "exec_action H (InsertRow P now) s =
     (case pcs s P of
        Copied p d \<Rightarrow> Some (s\<lparr>db := snd (insert_commit p d now (db s)), pcs := (pcs s)(P := Idle)\<rparr>)
      | _ \<Rightarrow> None)"
| "exec_action H (Crash P) s = Some (s\<lparr>pcs := (pcs s)(P := Idle)\<rparr>)"
| "exec_action H (PromoteRow i msg) s =
     (if pcs s Dashboard = Idle then Some (s\<lparr>db := promote_commit i msg (db s)\<rparr>) else None)"
| "exec_action H (ForgetRows p) s =
     (if pcs s Dashboard = Idle then Some (s\<lparr>db := delete_path p (db s)\<rparr>) else None)"
| "exec_action H (RestoreObject d p) s =
     (if pcs s Dashboard = Idle
      then (case restore_from_object d p s of Inl _ \<Rightarrow> Some s | Inr s' \<Rightarrow> Some s')
      else None)"
| "exec_action H (WriteFile p bs) s = Some (s\<lparr>files := (files s)(p \<mapsto> bs)\<rparr>)"
| "exec_action H (RemoveFile p) s = Some (s\<lparr>files := (files s)(p := None)\<rparr>)"

text \<open>
  A schedule run from a state: each action must be let through by the scheduler
  predicate \<open>allowed\<close> and be enabled; otherwise the run stops with \<open>None\<close>.
\<close>

fun run_actions :: "hash_fn \<Rightarrow> (('ts::linorder) sys \<Rightarrow> 'ts action \<Rightarrow> bool) \<Rightarrow> 'ts action list \<Rightarrow>
                     'ts sys \<Rightarrow> 'ts sys option" where
  "run_actions H allowed [] s = Some s"
| "run_actions H allowed (a # as) s =
     (if allowed s a
      then (case exec_action H a s of None \<Rightarrow> None | Some t \<Rightarrow> run_actions H allowed as t)
      else None)"

text \<open>A freshly initialised repository (\<open>filegit init\<close>) beside the user's files.\<close>

definition init_sys :: "(path \<rightharpoonup> bytes) \<Rightarrow> 'ts sys" where
  "init_sys fs = \<lparr>files = fs, objects = Map.empty, db = empty_db, pcs = (\<lambda>_. Idle)\<rparr>"

text \<open>
  The states reachable by actions that a scheduler \<open>allowed\<close> lets through:
  \<open>\<lambda>_ _. True\<close> is every interleaving.
\<close>

inductive reach :: "hash_fn \<Rightarrow> (('ts::linorder) sys \<Rightarrow> 'ts action \<Rightarrow> bool) \<Rightarrow> 'ts sys \<Rightarrow> bool"
  for H allowed where
  init: "reach H allowed (init_sys fs)"
| step: "reach H allowed s \<Longrightarrow> allowed s a \<Longrightarrow> exec_action H a s = Some t \<Longrightarrow> reach H allowed t"

text \<open>
  A write to a file is "quiet" when no process is between hashing that file and
  copying it: the discipline the source would need (it takes no lock).
\<close>

definition writes_file :: "'ts action \<Rightarrow> path option" where
  "writes_file a = (case a of WriteFile p _ \<Rightarrow> Some p | RemoveFile p \<Rightarrow> Some p
                              | RestoreObject _ p \<Rightarrow> Some p | _ \<Rightarrow> None)"

fun hashing_file :: "snap_pc \<Rightarrow> path \<Rightarrow> bool" where
  "hashing_file (Hashed q _) p = (q = p)"
| "hashing_file _ p = False"

definition quiet_writes :: "'ts sys \<Rightarrow> 'ts action \<Rightarrow> bool" where
  "quiet_writes s a =
     (case writes_file a of
        None \<Rightarrow> True
      | Some p \<Rightarrow> \<not> hashing_file (pcs s Watcher) p \<and> \<not> hashing_file (pcs s Dashboard) p)"

section \<open>Invariants\<close>

text \<open>Every row names an object, and so does every process about to insert one.\<close>

definition sys_index_ok :: "'ts sys \<Rightarrow> bool" where
  "sys_index_ok s \<longleftrightarrow> index_ok s \<and> index_wf (db s) \<and>
     (\<forall>P p d. pcs s P = Copied p d \<longrightarrow> objects s d \<noteq> None)"

text \<open>Objects are self-verifying, and a process that has hashed a file still sees those bytes.\<close>

definition sys_objects_ok :: "hash_fn \<Rightarrow> 'ts sys \<Rightarrow> bool" where
  "sys_objects_ok H s \<longleftrightarrow> objects_verified H s \<and>
     (\<forall>P p d. pcs s P = Hashed p d \<longrightarrow> (\<exists>bs. files s p = Some bs \<and> H bs = d))"


section \<open>Lemmas\<close>

lemma reach_init [intro]: "reach H allowed (init_sys fs)"
  by (rule reach.init)

lemma init_sys_index_ok: "sys_index_ok (init_sys fs)"
  by (simp add: sys_index_ok_def init_sys_def index_ok_def empty_db_def index_wf_def)

lemma init_sys_objects_ok: "sys_objects_ok H (init_sys fs)"
  by (simp add: sys_objects_ok_def init_sys_def objects_verified_def)

lemma index_ok_objects_grow:
  "index_ok s \<Longrightarrow> dom (objects s) \<subseteq> dom (objects t) \<Longrightarrow> db t = db s \<Longrightarrow> index_ok t"
  by (auto simp: index_ok_def)

lemma index_ok_iff:
  "index_ok w \<longleftrightarrow> (\<forall>r\<in>set (rows (db w)). objects w (object_hash r) \<noteq> None)"
  by (auto simp: index_ok_def)

lemma promote_commit_hash_mem:
  "r \<in> set (rows (promote_commit i msg D)) \<Longrightarrow> object_hash r \<in> object_hash ` set (rows D)"
  using imageI [of r "set (rows (promote_commit i msg D))" object_hash]
  by (simp only: promote_commit_hash_set)

lemma sys_index_ok_frame:
  assumes "sys_index_ok s" and "db t = db s" and "dom (objects s) \<subseteq> dom (objects t)"
    and "\<And>P p d. pcs t P = Copied p d \<Longrightarrow> pcs s P = Copied p d"
  shows "sys_index_ok t"
proof -
  from assms(1) have "index_ok s" and "index_wf (db s)"
    and cp: "\<And>P p d. pcs s P = Copied p d \<Longrightarrow> objects s d \<noteq> None"
    by (auto simp: sys_index_ok_def)
  then have "index_ok t" using assms(2,3) by (auto simp: index_ok_def)
  moreover have "index_wf (db t)" using \<open>index_wf (db s)\<close> assms(2) by simp
  moreover have "objects t d \<noteq> None" if "pcs t P = Copied p d" for P p d
    using cp [OF assms(4) [OF that]] assms(3) by blast
  ultimately show ?thesis by (simp add: sys_index_ok_def)
qed

lemma exec_action_index_ok:
  "exec_action H a s = Some t \<Longrightarrow> sys_index_ok s \<Longrightarrow> sys_index_ok t"
  apply (cases a)
  subgoal by (erule sys_index_ok_frame) (auto split: if_splits)
  subgoal for P p
    by (cases P) (erule sys_index_ok_frame; auto simp: Let_def split: if_splits snap_pc.splits)+
  subgoal
    by (auto simp: sys_index_ok_def index_ok_iff copy_to_object_def
             split: snap_pc.splits option.splits sum.splits if_splits)
  subgoal
    by (auto simp: sys_index_ok_def index_ok_iff insert_commit_wf fg_simps split: snap_pc.splits if_splits)
  subgoal by (erule sys_index_ok_frame) (auto split: if_splits)
  subgoal
    by (auto simp: sys_index_ok_def index_ok_iff promote_commit_wf split: if_splits
             dest!: promote_commit_hash_mem)
  subgoal
    by (auto simp: sys_index_ok_def index_ok_iff delete_path_wf split: if_splits
             dest!: subsetD [OF delete_path_rows_subset])
  subgoal by (erule sys_index_ok_frame) (auto simp: restore_from_object_def split: if_splits option.splits)
  subgoal by (erule sys_index_ok_frame) auto
  subgoal by (erule sys_index_ok_frame) auto
  done



lemma reach_run_actions:
  "run_actions H allowed as s = Some t \<Longrightarrow> reach H allowed s \<Longrightarrow> reach H allowed t"
proof (induction as arbitrary: s)
  case Nil
  then show ?case by simp
next
  case (Cons a as)
  then obtain u where "allowed s a" and u: "exec_action H a s = Some u"
    and "run_actions H allowed as u = Some t"
    by (auto split: if_splits option.splits)
  with Cons.prems(2) show ?case by (blast intro: Cons.IH reach.step)
qed

lemma quiet_writes_not_hashing:
  "quiet_writes s a \<Longrightarrow> writes_file a = Some p \<Longrightarrow> pcs s P \<noteq> Hashed p d"
  by (cases P) (auto simp: quiet_writes_def)

lemma sys_objects_ok_frame:
  assumes "sys_objects_ok H s" and "objects t = objects s"
    and "\<And>P p d. pcs t P = Hashed p d \<Longrightarrow> pcs s P = Hashed p d \<and> files t p = files s p"
  shows "sys_objects_ok H t"
  using assms unfolding sys_objects_ok_def objects_verified_def by metis


lemma exec_copy_objects_ok:
  assumes "exec_action H (CopyObject P) s = Some t" and ok: "sys_objects_ok H s"
  shows "sys_objects_ok H t"
proof (cases "pcs s P")
  case (Hashed p d)
  with ok obtain bs where bs: "files s p = Some bs" "H bs = d"
    unfolding sys_objects_ok_def by blast
  with Hashed assms(1) have t: "t = s\<lparr>objects := (objects s)(d \<mapsto> bs), pcs := (pcs s)(P := Copied p d)\<rparr>"
    by (simp add: copy_to_object_def)
  from ok bs show ?thesis unfolding t sys_objects_ok_def objects_verified_def by auto
qed (use assms(1) in simp_all)

lemma exec_action_objects_ok:
  "exec_action H a s = Some t \<Longrightarrow> quiet_writes s a \<Longrightarrow> sys_objects_ok H s \<Longrightarrow> sys_objects_ok H t"
  apply (cases a)
  subgoal by (erule sys_objects_ok_frame) (auto split: if_splits)
  subgoal for P p
    by (cases P)
       (auto simp: sys_objects_ok_def objects_verified_def Let_def truthy_def get_file_hash_def fg_simps
             split: if_splits snap_pc.splits option.splits)
  subgoal by (simp add: exec_copy_objects_ok)
  subgoal by (erule sys_objects_ok_frame) (auto split: if_splits snap_pc.splits)
  subgoal by (erule sys_objects_ok_frame) (auto split: if_splits)
  subgoal by (erule sys_objects_ok_frame) (auto split: if_splits)
  subgoal by (erule sys_objects_ok_frame) (auto split: if_splits)
  subgoal for d p
    by (erule sys_objects_ok_frame)
       (auto simp: restore_from_object_def writes_file_def
             split: if_splits option.splits dest: quiet_writes_not_hashing)
  subgoal by (erule sys_objects_ok_frame) (auto simp: writes_file_def dest: quiet_writes_not_hashing)
  subgoal by (erule sys_objects_ok_frame) (auto simp: writes_file_def dest: quiet_writes_not_hashing)
  done


lemma reach_sys_index_ok: "reach H allowed s \<Longrightarrow> sys_index_ok s"
  by (induction rule: reach.induct) (auto intro: init_sys_index_ok exec_action_index_ok)

lemma reach_quiet_sys_objects_ok: "reach H quiet_writes s \<Longrightarrow> sys_objects_ok H s"
  by (induction rule: reach.induct) (auto intro: init_sys_objects_ok exec_action_objects_ok)

section \<open>Properties of the interleaved system\<close>

text \<open>
  C2: Under every interleaving of the watcher's and the dashboard's statements, with
  crashes of either process between any two of them, concurrent writes and removals
  of the files, and the dashboard's promotions, forgets and restores, every row of
  the index names an object that exists and the rowids stay strictly increasing and
  below the AUTOINCREMENT counter: the copy always precedes the \<open>INSERT\<close>, and a
  crash in between leaves only an unreferenced object.
\<close>

theorem reach_keeps_index_ok:
  "reach H allowed s \<Longrightarrow> index_ok s \<and> index_wf (db s)"
  by (drule reach_sys_index_ok) (simp add: sys_index_ok_def)


text \<open>
  C4: Without that discipline the source loses versions: the dashboard hashes the
  file, another program rewrites it before \<open>shutil.copy\<close> runs, and the copy stores
  the new bytes under the old digest. The row then names an object whose bytes do not
  have its digest, and restoring that row writes content that is not the recorded
  version. The same schedule exists for the watcher, whose \<open>time.sleep(0.1)\<close> does not
  close the window between hashing and copying.
\<close>

theorem hash_copy_race_corrupts_restore:
  "\<exists>s :: nat sys. reach id (\<lambda>_ _. True) s \<and> index_ok s \<and>
     (\<exists>r\<in>set (rows (db s)). \<exists>s'. restore_from_object (object_hash r) (file_path r) s = Inr s' \<and>
        get_file_hash id (files s') (file_path r) \<noteq> Some (object_hash r))"
proof -
  define sched :: "nat action list" where
    "sched = [WriteFile ''f'' ''a'', HashFile Dashboard ''f'', WriteFile ''f'' ''b'',
              CopyObject Dashboard, InsertRow Dashboard 1]"
  obtain s where run: "run_actions id (\<lambda>_ _. True) sched (init_sys Map.empty) = Some s"
    and s: "objects s = [''a'' \<mapsto> ''b'']"
      "rows (db s) = [\<lparr>cid = 1, file_path = ''f'', object_hash = ''a'', message = None,
                       timestamp = 1, ctype = Auto\<rparr>]"
    by (simp add: sched_def init_sys_def empty_db_def copy_to_object_def insert_commit_def
                  max_rowid_def truthy_def fg_simps)
  have "reach id (\<lambda>_ _. True) s" by (rule reach_run_actions [OF run reach.init])
  moreover have "index_ok s" by (simp add: index_ok_def s)
  moreover have "restore_from_object ''a'' ''f'' s = Inr (s\<lparr>files := (files s)(''f'' \<mapsto> ''b'')\<rparr>)"
    by (simp add: s fg_simps)
  ultimately show ?thesis by (auto simp: s fg_simps)
qed

section \<open>Witnesses\<close>

lemma reach_keeps_index_ok_witness:
  "\<exists>s :: nat sys. run_actions id (\<lambda>_ _. True)
       [WriteFile ''f'' ''a'', QueryLatest ''f'', HashFile Watcher ''f'', CopyObject Watcher,
        InsertRow Watcher 1] (init_sys Map.empty) = Some s \<and>
     rows (db s) \<noteq> [] \<and> index_ok s \<and> index_wf (db s)"
proof -
  obtain s :: "nat sys" where run: "run_actions id (\<lambda>_ _. True)
       [WriteFile ''f'' ''a'', QueryLatest ''f'', HashFile Watcher ''f'', CopyObject Watcher,
        InsertRow Watcher 1] (init_sys Map.empty) = Some s" and ne: "rows (db s) \<noteq> []"
    by (simp add: init_sys_def empty_db_def copy_to_object_def insert_commit_def
                  max_rowid_def truthy_def latest_hash_def latest_def history_def
                  order_by_ts_desc_def select_path_def fg_simps)
  have "reach id (\<lambda>_ _. True) s" by (rule reach_run_actions [OF run reach.init])
  from reach_keeps_index_ok [OF this] run ne show ?thesis by blast
qed


end
