(* ===== verification/Watchlist.thy ===== *)
theory Watchlist
  imports Py_Strings "HOL-Library.List_Lexorder" "HOL-Library.Char_ord"
begin

text \<open>
  The watchlist: \<open>~/.filegit/watchlist.json\<close> and the commands that read and write
  it, \<open>get_watchlist\<close>, \<open>save_watchlist\<close>, \<open>watch\<close>, \<open>unwatch\<close> and
  \<open>watch_list\<close> (src/filegit.py). The file holds a JSON document, or text that
  \<open>json.load\<close> rejects, or bytes that are not UTF-8; the commands turn the document
  into a Python \<open>set\<close> with \<open>set(json.load(f))\<close>. A set is represented by the list
  of its distinct elements; Python does not specify a set's iteration order, so
  every property below is about membership, and \<open>watch-list\<close> sorts.
\<close>

section \<open>JSON documents and the watchlist file\<close>

text \<open>The JSON values \<open>json.load\<close> returns (booleans and floats left out).\<close>

datatype json = JStr string | JNum int | JNull | JList "json list" | JObj "(string \<times> json) list"

text \<open>
  What \<open>watchlist.json\<close> holds: a document, text that raises \<open>JSONDecodeError\<close>,
  or bytes that raise \<open>UnicodeDecodeError\<close> when read as text.
\<close>

datatype wl_file = JsonText json | NotJson | NotUtf8

datatype py_error = TypeError | UnicodeError | PathMissing path

text \<open>Lists and dicts are unhashable: \<open>set()\<close> of a list containing one raises \<open>TypeError\<close>.\<close>

fun hashable :: "json \<Rightarrow> bool" where
  "hashable (JList _) = False"
| "hashable (JObj _) = False"
| "hashable _ = True"

text \<open>
  \<open>set(v)\<close>: the elements of a list, the one-character strings of a string, the keys
  of a dict; a number or \<open>None\<close> is not iterable.
\<close>

fun py_set_of :: "json \<Rightarrow> py_error + json list" where
  "py_set_of (JList xs) = (if list_all hashable xs then Inr (remdups xs) else Inl TypeError)"
| "py_set_of (JStr s) = Inr (remdups (map (\<lambda>c. JStr [c]) s))"
| "py_set_of (JObj kvs) = Inr (remdups (map (\<lambda>kv. JStr (fst kv)) kvs))"
| "py_set_of (JNum _) = Inl TypeError"
| "py_set_of JNull = Inl TypeError"

text \<open>
  \<open>get_watchlist()\<close>: no file is the empty set; only \<open>json.JSONDecodeError\<close> is
  caught.
\<close>

definition get_watchlist :: "wl_file option \<Rightarrow> py_error + json list" where
  "get_watchlist wlf =
     (case wlf of
        None \<Rightarrow> Inr []
      | Some NotJson \<Rightarrow> Inr []
      | Some NotUtf8 \<Rightarrow> Inl UnicodeError
      | Some (JsonText v) \<Rightarrow> py_set_of v)"

text \<open>\<open>save_watchlist(ws)\<close>: \<open>json.dump(list(watchlist), f, indent=2)\<close>.\<close>

definition save_watchlist :: "json list \<Rightarrow> wl_file" where
  "save_watchlist ws = JsonText (JList ws)"

section \<open>The commands\<close>

datatype wl_msg = Added | AlreadyWatched | Removed | NotWatched | NoneWatched | Listing "json list"

text \<open>
  \<open>watch FILEPATH\<close>: click's \<open>Path(exists=True)\<close> rejects a missing path before the
  body runs; a path not yet in the set is added and the file rewritten.
\<close>

definition watch :: "(path \<rightharpoonup> bytes) \<Rightarrow> path \<Rightarrow> wl_file option \<Rightarrow> py_error + wl_file option \<times> wl_msg" where
  "watch fs p wlf =
     (if fs p = None then Inl (PathMissing p)
      else (case get_watchlist wlf of
              Inl e \<Rightarrow> Inl e
            | Inr wl \<Rightarrow>
                if JStr p \<notin> set wl then Inr (Some (save_watchlist (wl @ [JStr p])), Added)
                else Inr (wlf, AlreadyWatched)))"

text \<open>\<open>unwatch FILEPATH\<close>: no existence check; \<open>watchlist.remove(abs_path)\<close> if present.\<close>

definition unwatch :: "path \<Rightarrow> wl_file option \<Rightarrow> py_error + wl_file option \<times> wl_msg" where
  "unwatch p wlf =
     (case get_watchlist wlf of
        Inl e \<Rightarrow> Inl e
      | Inr wl \<Rightarrow>
          if JStr p \<in> set wl then Inr (Some (save_watchlist (removeAll (JStr p) wl)), Removed)
          else Inr (wlf, NotWatched))"

fun json_str :: "json \<Rightarrow> string option" where
  "json_str (JStr s) = Some s"
| "json_str _ = None"

fun json_num :: "json \<Rightarrow> int option" where
  "json_num (JNum n) = Some n"
| "json_num _ = None"

text \<open>
  \<open>sorted(list(watchlist))\<close>: strings by code point, numbers by value; comparing a
  string with a number, or \<open>None\<close> with anything, raises \<open>TypeError\<close>.
\<close>

definition py_sorted :: "json list \<Rightarrow> py_error + json list" where
  "py_sorted xs =
     (if length xs \<le> 1 then Inr xs
      else if list_all (\<lambda>x. json_str x \<noteq> None) xs then Inr (map JStr (sort (map (the \<circ> json_str) xs)))
      else if list_all (\<lambda>x. json_num x \<noteq> None) xs then Inr (map JNum (sort (map (the \<circ> json_num) xs)))
      else Inl TypeError)"

text \<open>\<open>watch-list\<close>: a notice for the empty set, else the sorted paths.\<close>

definition watch_list :: "wl_file option \<Rightarrow> py_error + wl_msg" where
  "watch_list wlf =
     (case get_watchlist wlf of
        Inl e \<Rightarrow> Inl e
      | Inr wl \<Rightarrow>
          if wl = [] then Inr NoneWatched
          else (case py_sorted wl of Inl e \<Rightarrow> Inl e | Inr xs \<Rightarrow> Inr (Listing xs)))"

section \<open>Lemmas\<close>

lemma py_set_of_ok:
  "py_set_of v = Inr wl \<Longrightarrow> distinct wl \<and> list_all hashable wl"
  by (cases v) (auto simp: list_all_iff split: if_splits)

lemma get_watchlist_ok:
  "get_watchlist wlf = Inr wl \<Longrightarrow> distinct wl \<and> list_all hashable wl"
  by (auto simp: get_watchlist_def py_set_of_ok split: option.splits wl_file.splits)

lemma get_watchlist_save [fg_simps]:
  "distinct ws \<Longrightarrow> list_all hashable ws \<Longrightarrow> get_watchlist (Some (save_watchlist ws)) = Inr ws"
  by (simp add: get_watchlist_def save_watchlist_def distinct_remdups_id)


lemma watch_new [fg_simps]:
  "fs p \<noteq> None \<Longrightarrow> get_watchlist wlf = Inr wl \<Longrightarrow> JStr p \<notin> set wl \<Longrightarrow>
   watch fs p wlf = Inr (Some (save_watchlist (wl @ [JStr p])), Added)"
  by (simp add: watch_def)

lemma watch_present [fg_simps]:
  "fs p \<noteq> None \<Longrightarrow> get_watchlist wlf = Inr wl \<Longrightarrow> JStr p \<in> set wl \<Longrightarrow>
   watch fs p wlf = Inr (wlf, AlreadyWatched)"
  by (simp add: watch_def)

lemma unwatch_present [fg_simps]:
  "get_watchlist wlf = Inr wl \<Longrightarrow> JStr p \<in> set wl \<Longrightarrow>
   unwatch p wlf = Inr (Some (save_watchlist (removeAll (JStr p) wl)), Removed)"
  by (simp add: unwatch_def)

lemma get_watchlist_snoc:
  "get_watchlist wlf = Inr wl \<Longrightarrow> JStr p \<notin> set wl \<Longrightarrow>
   get_watchlist (Some (save_watchlist (wl @ [JStr p]))) = Inr (wl @ [JStr p])"
  using get_watchlist_ok [of wlf wl] by (simp add: fg_simps)

section \<open>Properties of the watchlist\<close>

text \<open>
  C22: \<open>watch\<close> on an existing path whose watchlist file loads succeeds, and the
  file it leaves loads to the old set with the path added.
\<close>

theorem watch_roundtrip:
  assumes "fs p \<noteq> None" and "get_watchlist wlf = Inr wl"
  shows "\<exists>wlf' m wl'. watch fs p wlf = Inr (wlf', m) \<and> get_watchlist wlf' = Inr wl' \<and>
                      set wl' = insert (JStr p) (set wl)"
proof (cases "JStr p \<in> set wl")
  case True
  with assms show ?thesis by (auto simp: fg_simps)
next
  case False
  with assms show ?thesis by (auto simp: fg_simps get_watchlist_snoc)
qed

text \<open>
  C23: \<open>unwatch\<close> undoes \<open>watch\<close>: watching a path that was not watched and then
  unwatching it leaves a file that loads to exactly the watchlist before.
\<close>

theorem watch_unwatch_inverse:
  assumes "fs p \<noteq> None" and "get_watchlist wlf = Inr wl" and "JStr p \<notin> set wl"
  shows "\<exists>wlf1 wlf2. watch fs p wlf = Inr (wlf1, Added) \<and> unwatch p wlf1 = Inr (wlf2, Removed) \<and>
                     get_watchlist wlf2 = Inr wl"
proof -
  have ok: "distinct wl \<and> list_all hashable wl" using assms(2) by (rule get_watchlist_ok)
  have "removeAll (JStr p) (wl @ [JStr p]) = wl" using assms(3) by simp
  with assms ok show ?thesis
    by (simp add: fg_simps get_watchlist_snoc)
qed

text \<open>
  C24: A watchlist file that \<open>json.load\<close> rejects (a hand edit with a trailing comma,
  a truncated write) is read as the empty set, and \<open>watch\<close> then overwrites it with
  a list holding only the new path: every path watched before is dropped without a
  message.
\<close>

theorem watch_corrupt_file_drops_entries:
  assumes "fs p \<noteq> None"
  shows "watch fs p (Some NotJson) = Inr (Some (save_watchlist [JStr p]), Added) \<and>
         get_watchlist (Some (save_watchlist [JStr p])) = Inr [JStr p]"
  using assms by (simp add: watch_def get_watchlist_def save_watchlist_def)

text \<open>
  \<open>watch-list\<close> prints every watched path once, in code-point order, when the
  set holds only strings.
\<close>

lemma watch_list_sorted:
  assumes "get_watchlist wlf = Inr wl" and "wl \<noteq> []" and "list_all (\<lambda>x. json_str x \<noteq> None) wl"
  shows "\<exists>xs. watch_list wlf = Inr (Listing xs) \<and> set xs = set wl \<and> distinct xs \<and>
              sorted (map (the \<circ> json_str) xs)"
proof -
  have strs: "map JStr (map (the \<circ> json_str) wl) = wl"
    using assms(3) by (induction wl) (auto elim!: json_str.elims)
  have d: "distinct wl" using get_watchlist_ok [OF assms(1)] by simp
  let ?xs = "if length wl \<le> 1 then wl else map JStr (sort (map (the \<circ> json_str) wl))"
  have "watch_list wlf = Inr (Listing ?xs)"
    using assms by (simp add: watch_list_def py_sorted_def)
  moreover have "set ?xs = set wl"
    using arg_cong [OF strs, of set] by auto
  moreover have "distinct ?xs"
  proof -
    have "distinct (map JStr (map (the \<circ> json_str) wl))" using d strs by simp
    then have "distinct (map (the \<circ> json_str) wl)" by (simp only: distinct_map)
    then show ?thesis using d by (auto simp: distinct_map inj_on_def)
  qed
  moreover have "sorted (map (the \<circ> json_str) ?xs)"
  proof (cases "length wl \<le> 1")
    case True
    then show ?thesis by (cases wl) auto
  next
    case False
    then show ?thesis by (simp add: o_def)
  qed
  ultimately show ?thesis by blast
qed


section \<open>Witnesses\<close>

lemma watch_roundtrip_witness:
  "\<exists>wlf' m wl'. watch [''/h/a'' \<mapsto> ''x''] ''/h/a'' (Some (JsonText (JList [JStr ''/h/b'']))) = Inr (wlf', m) \<and>
     get_watchlist wlf' = Inr wl' \<and> set wl' = {JStr ''/h/a'', JStr ''/h/b''}"
proof -
  have "get_watchlist (Some (JsonText (JList [JStr ''/h/b'']))) = Inr [JStr ''/h/b'']"
    by (simp add: get_watchlist_def)
  from watch_roundtrip [OF _ this, of "[''/h/a'' \<mapsto> ''x'']" "''/h/a''"] show ?thesis by simp
qed

lemma watch_unwatch_inverse_witness:
  "\<exists>wlf1 wlf2. watch [''/h/a'' \<mapsto> ''x''] ''/h/a'' (Some (JsonText (JList [JStr ''/h/b'']))) = Inr (wlf1, Added) \<and>
     unwatch ''/h/a'' wlf1 = Inr (wlf2, Removed) \<and> get_watchlist wlf2 = Inr [JStr ''/h/b'']"
proof -
  have "get_watchlist (Some (JsonText (JList [JStr ''/h/b'']))) = Inr [JStr ''/h/b'']"
    by (simp add: get_watchlist_def)
  from watch_unwatch_inverse [OF _ this, of "[''/h/a'' \<mapsto> ''x'']" "''/h/a''"] show ?thesis by simp
qed

lemma watch_corrupt_file_drops_entries_witness:
  "watch [''/h/a'' \<mapsto> ''x''] ''/h/a'' (Some NotJson) = Inr (Some (save_watchlist [JStr ''/h/a'']), Added) \<and>
   get_watchlist (Some (save_watchlist [JStr ''/h/a''])) = Inr [JStr ''/h/a'']"
  by (rule watch_corrupt_file_drops_entries) simp

end
