(* ===== verification/Daemon.thy ===== *)
theory Daemon
  imports Snapshot Watchlist
begin

text \<open>
  The background watcher (src/filegit_daemon.py): \<open>run_daemon\<close> loads the
  watchlist once, schedules the watchdog observer on the parent directory of each
  watched path that exists, and hands every event to \<open>WatcherEventHandler\<close>, whose
  \<open>on_modified\<close> calls \<open>create_auto_snapshot\<close> for a watched file and prints any
  exception. Around it, the two ways the daemon is started: the script's own
  \<open>__main__\<close> block, which creates the commits table when \<open>index.db\<close> is missing,
  and \<open>filegit daemon-start\<close> (src/filegit.py), which imports \<open>run_daemon\<close> and
  calls it directly. \<open>setup_repo\<close> (\<open>filegit init\<close>, \<open>filegit timeline\<close>) is the
  third party that creates the table.
\<close>

section \<open>Paths and the observer\<close>

text \<open>
  \<open>str(Path(p).parent)\<close> for a normalised path (no trailing or doubled \<open>/\<close>, as
  \<open>Path.resolve()\<close> leaves the paths \<open>watch\<close> stores).
\<close>

definition py_parent :: "path \<Rightarrow> path" where
  "py_parent p =
     (let q = rev (drop 1 (dropWhile (\<lambda>c. c \<noteq> CHR ''/'') (rev p)))
      in if q = [] then (if take 1 p = ''/'' then ''/'' else ''.'') else q)"

text \<open>What \<open>run_daemon\<close> keeps: the handler's \<open>self.watchlist\<close> and the scheduled directories.\<close>

record daemon =
  wl_start :: "json list"
  watched_dirs :: "path list"

text \<open>
  Lines 80-87: create \<open>watchlist.json\<close> holding \<open>[]\<close> if missing, then
  \<open>set(json.load(f))\<close>, catching only \<open>JSONDecodeError\<close> and \<open>FileNotFoundError\<close>.
\<close>

definition load_watchlist_at_start :: "wl_file option \<Rightarrow> py_error + wl_file option \<times> json list" where
  "load_watchlist_at_start wlf =
     (case wlf of
        None \<Rightarrow> Inr (Some (JsonText (JList [])), [])
      | Some NotJson \<Rightarrow> Inr (wlf, [])
      | Some NotUtf8 \<Rightarrow> Inl UnicodeError
      | Some (JsonText v) \<Rightarrow> (case py_set_of v of Inl e \<Rightarrow> Inl e | Inr wl \<Rightarrow> Inr (wlf, wl)))"

text \<open>\<open>watch_dirs = {str(Path(p).parent) for p in watchlist_files}\<close>: \<open>Path()\<close> of a non-string raises \<open>TypeError\<close>.\<close>

definition watch_dirs_of :: "json list \<Rightarrow> py_error + path list" where
  "watch_dirs_of wl =
     (if list_all (\<lambda>x. json_str x \<noteq> None) wl
      then Inr (remdups (map (py_parent \<circ> the \<circ> json_str) wl)) else Inl TypeError)"

text \<open>
  \<open>run_daemon()\<close> up to \<open>observer.start()\<close>: the directories that exist are scheduled
  (non-recursively), the others only get a warning. An exception escapes
  \<open>run_daemon\<close> and ends the daemon.
\<close>

definition run_daemon :: "(path \<Rightarrow> bool) \<Rightarrow> wl_file option \<Rightarrow> py_error + wl_file option \<times> daemon" where
  "run_daemon dir_exists wlf =
     (case load_watchlist_at_start wlf of
        Inl e \<Rightarrow> Inl e
      | Inr (wlf', wl) \<Rightarrow>
          (case watch_dirs_of wl of
             Inl e \<Rightarrow> Inl e
           | Inr dirs \<Rightarrow> Inr (wlf', \<lparr>wl_start = wl, watched_dirs = filter dir_exists dirs\<rparr>)))"

section \<open>Events\<close>

text \<open>
  The events watchdog reports in a scheduled directory. \<open>FileSystemEventHandler\<close>
  dispatches each kind to its own method; the handler overrides only \<open>on_modified\<close>.
\<close>

datatype fs_event =
    Modified path bool
  | Created path bool
  | Deleted path bool
  | Moved path path bool

text \<open>Whether \<open>index.db\<close> exists, and whether it holds the \<open>commits\<close> table.\<close>

datatype db_presence = NoDbFile | EmptyDbFile | CommitsTable

text \<open>
  \<open>on_modified(event)\<close>: a directory event or a path outside the start-time
  watchlist is ignored; otherwise \<open>create_auto_snapshot\<close> runs after the 0.1 s sleep,
  and an exception leaves the world as it was: a missing table fails the first
  \<open>SELECT\<close>, a vanished file fails \<open>shutil.copy\<close> before the \<open>INSERT\<close>.
\<close>

definition on_modified ::
  "hash_fn \<Rightarrow> daemon \<Rightarrow> db_presence \<Rightarrow> path \<Rightarrow> bool \<Rightarrow> 'ts \<Rightarrow> ('ts::linorder) world \<Rightarrow> 'ts world" where
  "on_modified H d pres p is_dir now w =
     (if is_dir then w
      else if JStr p \<notin> set (wl_start d) then w
      else if pres \<noteq> CommitsTable then w
      else (case create_auto_snapshot H p now w of Inl _ \<Rightarrow> w | Inr w' \<Rightarrow> w'))"

text \<open>An event reaches the handler only from a directory the observer was scheduled on.\<close>

definition dispatch ::
  "hash_fn \<Rightarrow> daemon \<Rightarrow> db_presence \<Rightarrow> fs_event \<Rightarrow> 'ts \<Rightarrow> ('ts::linorder) world \<Rightarrow> 'ts world" where
  "dispatch H d pres ev now w =
     (case ev of
        Modified p is_dir \<Rightarrow>
          if py_parent p \<in> set (watched_dirs d) then on_modified H d pres p is_dir now w else w
      | _ \<Rightarrow> w)"

section \<open>Starting the daemon and creating the table\<close>

text \<open>
  The script's \<open>__main__\<close> block: create \<open>index.db\<close> with the table only if the file
  does not exist. \<open>WatcherEventHandler.__init__\<close> then connects, which creates an
  empty file if there is none.
\<close>

definition main_creates_table :: "db_presence \<Rightarrow> db_presence" where
  "main_creates_table pres = (if pres = NoDbFile then CommitsTable else pres)"

definition handler_connect :: "db_presence \<Rightarrow> db_presence" where
  "handler_connect pres = (if pres = NoDbFile then EmptyDbFile else pres)"

text \<open>\<open>setup_repo()\<close>: \<open>CREATE TABLE IF NOT EXISTS commits\<close>.\<close>

definition setup_repo_table :: "db_presence \<Rightarrow> db_presence" where
  "setup_repo_table pres = CommitsTable"

text \<open>
  What happens to \<open>index.db\<close> on each way of starting the watcher and on
  \<open>setup_repo\<close>: \<open>filegit daemon-start\<close> runs \<open>run_daemon\<close> directly, the script
  runs its \<open>__main__\<close> block first.
\<close>

datatype host_op = StartViaCli | StartViaScript | SetupRepo

fun presence_step :: "host_op \<Rightarrow> db_presence \<Rightarrow> db_presence" where
  "presence_step StartViaCli pres = handler_connect pres"
| "presence_step StartViaScript pres = handler_connect (main_creates_table pres)"
| "presence_step SetupRepo pres = setup_repo_table pres"

section \<open>Lemmas\<close>

lemma load_watchlist_at_start_get:
  "load_watchlist_at_start wlf = Inr (wlf1, wl) \<Longrightarrow> get_watchlist wlf1 = Inr wl"
  by (auto simp: load_watchlist_at_start_def get_watchlist_def split: option.splits wl_file.splits sum.splits)

lemma run_daemon_Inr:
  assumes "run_daemon dir_exists wlf = Inr (wlf1, d)"
  shows "get_watchlist wlf1 = Inr (wl_start d) \<and> list_all (\<lambda>x. json_str x \<noteq> None) (wl_start d) \<and>
         set (watched_dirs d) = {q \<in> py_parent ` {p. JStr p \<in> set (wl_start d)}. dir_exists q}"
proof -
  from assms obtain wl dirs where l: "load_watchlist_at_start wlf = Inr (wlf1, wl)"
    and w: "watch_dirs_of wl = Inr dirs" and d: "d = \<lparr>wl_start = wl, watched_dirs = filter dir_exists dirs\<rparr>"
    by (auto simp: run_daemon_def split: sum.splits prod.splits)
  from w have strs: "list_all (\<lambda>x. json_str x \<noteq> None) wl"
    and dirs: "dirs = remdups (map (py_parent \<circ> the \<circ> json_str) wl)"
    by (auto simp: watch_dirs_of_def split: if_splits)
  have "set dirs = py_parent ` {p. JStr p \<in> set wl}"
  proof
    show "set dirs \<subseteq> py_parent ` {p. JStr p \<in> set wl}"
      using strs by (auto simp: dirs list_all_iff elim!: json_str.elims)
    show "py_parent ` {p. JStr p \<in> set wl} \<subseteq> set dirs"
      by (force simp: dirs)
  qed
  with load_watchlist_at_start_get [OF l] strs d show ?thesis by auto
qed

lemma on_modified_snapshot:
  "files w p = Some bs \<Longrightarrow> H bs \<noteq> [] \<Longrightarrow> latest_hash p (db w) \<noteq> Some (H bs) \<Longrightarrow>
   JStr p \<in> set (wl_start d) \<Longrightarrow>
   on_modified H d CommitsTable p False now w =
     w\<lparr>objects := (objects w)(H bs \<mapsto> bs), db := snd (insert_commit p (H bs) now (db w))\<rparr>"
  by (simp add: on_modified_def create_auto_snapshot_def truthy_def Let_def fg_simps)

lemma presence_steps_no_setup:
  "SetupRepo \<notin> set ops \<Longrightarrow> fold presence_step ops EmptyDbFile = EmptyDbFile"
proof (induction ops)
  case (Cons op ops)
  then show ?case
    by (cases op) (simp_all add: handler_connect_def main_creates_table_def)
qed simp


lemma dispatch_no_table [fg_simps]: "pres \<noteq> CommitsTable \<Longrightarrow> dispatch H d pres ev now w = w"
  by (simp add: dispatch_def on_modified_def split: fs_event.splits)

section \<open>Properties of the watcher\<close>

text \<open>
  C18: The watcher changes the repository only for a "modified" event of a file (not
  a directory) that was in the watchlist when the daemon started, whose directory
  existed then, and only when \<open>index.db\<close> holds the commits table. Created, deleted
  and moved events never cause a snapshot, so an editor that saves by writing a
  temporary file and renaming it over the original is not seen.
\<close>

theorem dispatch_effect_needs_watched_modify:
  "dispatch H d pres ev now w \<noteq> w \<Longrightarrow>
   \<exists>p. ev = Modified p False \<and> JStr p \<in> set (wl_start d) \<and> py_parent p \<in> set (watched_dirs d) \<and>
       pres = CommitsTable"
  by (auto simp: dispatch_def on_modified_def split: fs_event.splits if_splits)


text \<open>
  C20: A "modified" event of a file in the start-time watchlist, in a directory that
  existed at start, whose content differs from the digest of its latest row, stores
  the content under its digest and appends an \<open>'auto'\<close> row for it.
\<close>

theorem watched_change_snapshotted:
  assumes "run_daemon dir_exists wlf = Inr (wlf1, d)" and "JStr p \<in> set (wl_start d)"
    and "dir_exists (py_parent p)" and "files w p = Some bs" and "H bs \<noteq> []"
    and "latest_hash p (db w) \<noteq> Some (H bs)"
  shows "dispatch H d CommitsTable (Modified p False) now w =
           w\<lparr>objects := (objects w)(H bs \<mapsto> bs), db := snd (insert_commit p (H bs) now (db w))\<rparr>"
proof -
  have "py_parent p \<in> set (watched_dirs d)"
    using run_daemon_Inr [OF assms(1)] assms(2,3) by blast
  with assms(2,4-6) show ?thesis by (simp add: dispatch_def on_modified_snapshot)
qed

text \<open>
  C21: \<open>filegit daemon-start\<close> on a fresh home directory never creates the commits
  table: the handler's connection leaves an empty \<open>index.db\<close>, after which the
  script's own \<open>__main__\<close> block (which checks only that the file exists) does not
  create it either, and every event is lost until \<open>filegit init\<close> or \<open>filegit
  timeline\<close> runs \<open>setup_repo\<close>. Started as a script first, the table exists.
\<close>

theorem cli_start_without_init_loses_events:
  assumes "SetupRepo \<notin> set ops"
  shows "fold presence_step (StartViaCli # ops) NoDbFile = EmptyDbFile \<and>
         dispatch H d (fold presence_step (StartViaCli # ops) NoDbFile) ev now w = w \<and>
         presence_step StartViaScript NoDbFile = CommitsTable"
proof -
  have "fold presence_step (StartViaCli # ops) NoDbFile = EmptyDbFile"
    using presence_steps_no_setup [OF assms] by (simp add: handler_connect_def)
  then show ?thesis
    by (simp add: fg_simps handler_connect_def main_creates_table_def)
qed

section \<open>Witnesses\<close>

lemma dispatch_effect_needs_watched_modify_witness:
  "\<exists>p. Modified ''/h/a'' False = Modified p False \<and> JStr p \<in> set [JStr ''/h/a''] \<and>
       py_parent p \<in> set [''/h''] \<and> CommitsTable = CommitsTable"
proof -
  let ?d = "\<lparr>wl_start = [JStr ''/h/a''], watched_dirs = [''/h'']\<rparr>"
  let ?w = "\<lparr>files = [''/h/a'' \<mapsto> ''x''], objects = Map.empty, db = empty_db\<rparr> :: nat world"
  have "dispatch id ?d CommitsTable (Modified ''/h/a'' False) 1 ?w \<noteq> ?w"
    by (simp add: dispatch_def on_modified_def py_parent_def create_auto_snapshot_def Let_def
                  truthy_def empty_db_def latest_hash_def latest_def history_def order_by_ts_desc_def
                  select_path_def insert_commit_def max_rowid_def fg_simps)
  from dispatch_effect_needs_watched_modify [OF this] show ?thesis by simp
qed


lemma watched_change_snapshotted_witness:
  "dispatch id \<lparr>wl_start = [JStr ''/h/a''], watched_dirs = [''/h'']\<rparr> CommitsTable (Modified ''/h/a'' False)
     (1::nat) \<lparr>files = [''/h/a'' \<mapsto> ''x''], objects = Map.empty, db = empty_db\<rparr> =
   \<lparr>files = [''/h/a'' \<mapsto> ''x''], objects = [''x'' \<mapsto> ''x''],
    db = snd (insert_commit ''/h/a'' ''x'' 1 empty_db)\<rparr>"
proof -
  have r: "run_daemon (\<lambda>q. q = ''/h'') (Some (JsonText (JList [JStr ''/h/a'']))) =
           Inr (Some (JsonText (JList [JStr ''/h/a''])), \<lparr>wl_start = [JStr ''/h/a''], watched_dirs = [''/h'']\<rparr>)"
    by (simp add: run_daemon_def load_watchlist_at_start_def watch_dirs_of_def py_parent_def)
  let ?w = "\<lparr>files = [''/h/a'' \<mapsto> ''x''], objects = Map.empty, db = empty_db\<rparr> :: nat world"
  have "dispatch id \<lparr>wl_start = [JStr ''/h/a''], watched_dirs = [''/h'']\<rparr> CommitsTable
          (Modified ''/h/a'' False) (1::nat) ?w =
        ?w\<lparr>objects := (objects ?w)(id ''x'' \<mapsto> ''x''),
            db := snd (insert_commit ''/h/a'' (id ''x'') 1 (db ?w))\<rparr>"
    by (rule watched_change_snapshotted [OF r])
       (simp_all add: py_parent_def empty_db_def latest_hash_def latest_def history_def
                      order_by_ts_desc_def select_path_def)
  then show ?thesis by simp
qed

lemma cli_start_without_init_loses_events_witness:
  "fold presence_step [StartViaCli, StartViaScript, StartViaCli] NoDbFile = EmptyDbFile \<and>
   dispatch id \<lparr>wl_start = [JStr ''/h/a''], watched_dirs = [''/h'']\<rparr>
     (fold presence_step [StartViaCli, StartViaScript, StartViaCli] NoDbFile) (Modified ''/h/a'' False) (1::nat)
     \<lparr>files = [''/h/a'' \<mapsto> ''x''], objects = Map.empty, db = empty_db\<rparr> =
     \<lparr>files = [''/h/a'' \<mapsto> ''x''], objects = Map.empty, db = empty_db\<rparr> \<and>
   presence_step StartViaScript NoDbFile = CommitsTable"
  using cli_start_without_init_loses_events [of "[StartViaScript, StartViaCli]"] by simp

end
