(* ===== verification/Daemon_Control.thy ===== *)
theory Daemon_Control
  imports Py_Strings
begin

text \<open>
  The daemon's process management (\<open>daemon-start\<close>, \<open>daemon-stop\<close>,
  \<open>daemon-status\<close> in src/filegit.py): the PID file \<open>~/.filegit/daemon.pid\<close>,
  written by python-daemon's \<open>PIDLockFile\<close> as the decimal pid and a newline and
  removed when the daemon exits normally or on \<open>SIGTERM\<close>, and the processes the
  pids name. Besides the three commands, the environment can kill the daemon
  without cleanup (\<open>SIGKILL\<close>, a reboot) and hand a freed pid to another process.
  What \<open>daemon-status\<close> prints after a successful probe, the tail of
  \<open>daemon.log\<close>, is modelled as the list of lines it echoes.
\<close>

section \<open>State\<close>

text \<open>Who runs under a pid: the daemon, another process of the user, another user's process.\<close>

datatype proc_kind = FilegitDaemon | OwnProcess | ForeignProcess

record host =
  pid_file :: "string option"
  procs :: "nat \<Rightarrow> proc_kind option"

datatype ctl_msg =
    AlreadyRunning | Started | StartFailed
  | NotRunning | CannotReadPid | SentTerm int | NoSuchProcess int | KillError | GroupSignalled int
  | StatusNotRunning | StatusRunning int | StatusAbnormal

section \<open>The commands\<close>

text \<open>
  \<open>daemon-start\<close>: refuse if the PID file exists; otherwise the daemon process
  \<open>pid\<close> takes the lock, writing \<open>"%d\n"\<close>. If \<open>run_daemon\<close> raises at start-up
  (\<open>run_ok\<close> false), the context exits, the lock file is removed and the process ends.
\<close>

definition daemon_start :: "nat \<Rightarrow> bool \<Rightarrow> host \<Rightarrow> host \<times> ctl_msg" where
  "daemon_start pid run_ok h =
     (if pid_file h \<noteq> None then (h, AlreadyRunning)
      else if run_ok
      then (h\<lparr>pid_file := Some (py_str_nat pid @ [CHR 0x0A]), procs := (procs h)(pid \<mapsto> FilegitDaemon)\<rparr>, Started)
      else (h, StartFailed))"

text \<open>
  \<open>os.kill(pid, SIGTERM)\<close>: a non-positive pid signals a process group; a pid no
  process has raises \<open>ProcessLookupError\<close>; another user's process raises
  \<open>PermissionError\<close>; the daemon exits and its lock file goes; another process of
  the user is terminated.
\<close>

definition send_term :: "int \<Rightarrow> host \<Rightarrow> host \<times> ctl_msg" where
  "send_term pid h =
     (if pid \<le> 0 then (h, GroupSignalled pid)
      else (case procs h (nat pid) of
              None \<Rightarrow> (h\<lparr>pid_file := None\<rparr>, NoSuchProcess pid)
            | Some ForeignProcess \<Rightarrow> (h, KillError)
            | Some FilegitDaemon \<Rightarrow> (h\<lparr>pid_file := None, procs := (procs h)(nat pid := None)\<rparr>, SentTerm pid)
            | Some OwnProcess \<Rightarrow> (h\<lparr>procs := (procs h)(nat pid := None)\<rparr>, SentTerm pid)))"

text \<open>\<open>daemon-stop\<close>: read \<open>int(f.read().strip())\<close>; a \<open>ValueError\<close> only prints a message.\<close>

definition daemon_stop :: "host \<Rightarrow> host \<times> ctl_msg" where
  "daemon_stop h =
     (case pid_file h of
        None \<Rightarrow> (h, NotRunning)
      | Some content \<Rightarrow>
          (case py_int (py_strip content) of
             None \<Rightarrow> (h, CannotReadPid)
           | Some pid \<Rightarrow> send_term pid h))"

text \<open>
  \<open>daemon-status\<close>: \<open>os.kill(pid, 0)\<close> probes the pid; \<open>OSError\<close> (no such
  process, or not permitted) and \<open>ValueError\<close> give the "abnormal" message.
\<close>

definition daemon_status :: "host \<Rightarrow> ctl_msg" where
  "daemon_status h =
     (case pid_file h of
        None \<Rightarrow> StatusNotRunning
      | Some content \<Rightarrow>
          (case py_int (py_strip content) of
             None \<Rightarrow> StatusAbnormal
           | Some pid \<Rightarrow>
               if pid \<le> 0 then StatusRunning pid
               else (case procs h (nat pid) of
                       None \<Rightarrow> StatusAbnormal
                     | Some ForeignProcess \<Rightarrow> StatusAbnormal
                     | Some _ \<Rightarrow> StatusRunning pid)))"

text \<open>
  The rest of \<open>daemon-status\<close> once the probe succeeded: it prints the "running"
  line, then, if \<open>daemon.log\<close> exists, a heading and the last ten lines of the
  log, each stripped. The log is read in text mode; a log that is not valid UTF-8
  raises \<open>UnicodeDecodeError\<close>, a \<open>ValueError\<close>, which the same handler turns into
  the "abnormal" message after the heading. Newline translation of \<open>'\r'\<close> is not
  modelled: the daemon's \<open>print\<close> writes \<open>'\n'\<close>.
\<close>

datatype log_file = LogText string | LogNotUtf8

datatype status_line = Msg ctl_msg | LogHeading | LogLine string

text \<open>\<open>f.readlines()\<close>: the lines with their \<open>'\n'\<close>, the last one without it if the text does not end in one.\<close>

fun readlines_from :: "string \<Rightarrow> string \<Rightarrow> string list" where
  "readlines_from cur [] = (if cur = [] then [] else [cur])"
| "readlines_from cur (c # cs) =
     (if c = CHR 0x0A then (cur @ [c]) # readlines_from [] cs else readlines_from (cur @ [c]) cs)"

definition py_readlines :: "string \<Rightarrow> string list" where
  "py_readlines s = readlines_from [] s"

text \<open>\<open>lines[-n:]\<close>: the last \<open>n\<close> elements, all of them when there are fewer.\<close>

definition py_tail :: "nat \<Rightarrow> 'a list \<Rightarrow> 'a list" where
  "py_tail n xs = drop (length xs - n) xs"

definition daemon_status_output :: "host \<Rightarrow> log_file option \<Rightarrow> status_line list" where
  "daemon_status_output h log =
     (case daemon_status h of
        StatusRunning pid \<Rightarrow>
          Msg (StatusRunning pid) #
          (case log of
             None \<Rightarrow> []
           | Some (LogText t) \<Rightarrow> LogHeading # map (\<lambda>l. LogLine (py_strip l)) (py_tail 10 (py_readlines t))
           | Some LogNotUtf8 \<Rightarrow> [LogHeading, Msg StatusAbnormal])
      | m \<Rightarrow> [Msg m])"

section \<open>Command sequences\<close>

datatype ctl_op =
    CliStart nat bool | CliStop | CliStatus
  | KillNoCleanup nat | PidReused nat proc_kind

text \<open>The commands and the environment's events, one at a time.\<close>

fun ctl_step :: "ctl_op \<Rightarrow> host \<Rightarrow> host \<times> ctl_msg option" where
  "ctl_step (CliStart pid ok) h =
     (if procs h pid = None then map_prod id Some (daemon_start pid ok h) else (h, None))"
| "ctl_step CliStop h = map_prod id Some (daemon_stop h)"
| "ctl_step CliStatus h = (h, Some (daemon_status h))"
| "ctl_step (KillNoCleanup pid) h =
     (if procs h pid = Some FilegitDaemon then (h\<lparr>procs := (procs h)(pid := None)\<rparr>, None) else (h, None))"
| "ctl_step (PidReused pid k) h =
     (if procs h pid = None \<and> k \<noteq> FilegitDaemon then (h\<lparr>procs := (procs h)(pid \<mapsto> k)\<rparr>, None)
      else (h, None))"

definition ctl_run :: "ctl_op list \<Rightarrow> host \<Rightarrow> host" where
  "ctl_run ops h = fold (\<lambda>op h. fst (ctl_step op h)) ops h"

section \<open>Lemmas\<close>

lemma py_strip_pid_line [fg_simps]: "py_strip (py_str_nat n @ [CHR 0x0A]) = py_str_nat n"
proof -
  have ws: "CHR 0x0A \<in> set py_whitespace" by (simp add: py_whitespace_def)
  have last_ok: "last (py_str_nat n) \<notin> set py_whitespace"
    using py_str_nat_no_whitespace [of "last (py_str_nat n)" n] py_str_nat_nonempty [of n] by auto
  have "dropWhile (\<lambda>c. c \<in> set py_whitespace) (rev (py_str_nat n @ [CHR 0x0A])) =
        dropWhile (\<lambda>c. c \<in> set py_whitespace) (rev (py_str_nat n))"
    using ws by simp
  also have "\<dots> = rev (py_str_nat n)"
    using last_ok py_str_nat_nonempty [of n] by (intro dropWhile_hd_stop) (simp_all add: hd_rev)
  finally have "dropWhile (\<lambda>c. c \<in> set py_whitespace) (rev (py_str_nat n @ [CHR 0x0A])) = rev (py_str_nat n)" .
  moreover have "dropWhile (\<lambda>c. c \<in> set py_whitespace) (py_str_nat n @ [CHR 0x0A]) = py_str_nat n @ [CHR 0x0A]"
    using py_str_nat_nonempty [of n] py_str_nat_no_whitespace [of "hd (py_str_nat n)" n]
    by (intro dropWhile_hd_stop) auto
  ultimately show ?thesis by (simp add: py_strip_def)
qed

lemma py_int_pid_line [fg_simps]: "py_int (py_strip (py_str_nat n @ [CHR 0x0A])) = Some (int n)"
  by (simp add: fg_simps)

lemma ctl_step_corrupt:
  assumes "py_int (py_strip c) = None" and "pid_file h = Some c"
  shows "pid_file (fst (ctl_step op h)) = Some c \<and>
         (\<forall>pid. procs (fst (ctl_step op h)) pid = Some FilegitDaemon \<longrightarrow> procs h pid = Some FilegitDaemon)"
  using assms
  by (cases op) (auto simp: daemon_start_def daemon_stop_def)


lemma ctl_run_Cons [fg_simps]: "ctl_run (op # ops) h = ctl_run ops (fst (ctl_step op h))"
  by (simp add: ctl_run_def)

lemma ctl_run_Nil [fg_simps]: "ctl_run [] h = h"
  by (simp add: ctl_run_def)

lemma readlines_from_line:
  "CHR 0x0A \<notin> set l \<Longrightarrow>
   readlines_from cur (l @ CHR 0x0A # rest) = (cur @ l @ [CHR 0x0A]) # readlines_from [] rest"
  by (induction l arbitrary: cur) auto

lemma py_readlines_lines:
  "\<forall>l\<in>set ls. CHR 0x0A \<notin> set l \<Longrightarrow>
   py_readlines (concat (map (\<lambda>l. l @ [CHR 0x0A]) ls)) = map (\<lambda>l. l @ [CHR 0x0A]) ls"
  unfolding py_readlines_def by (induction ls) (simp_all add: readlines_from_line)

lemma py_strip_snoc_whitespace:
  assumes "c \<in> set py_whitespace"
  shows "py_strip (s @ [c]) = py_strip s"
proof (cases "\<forall>x\<in>set s. x \<in> set py_whitespace")
  case True
  with assms show ?thesis by (auto simp: py_strip_def dropWhile_eq_Nil_conv dest: set_dropWhileD)
next
  case False
  then obtain x where "x \<in> set s" "x \<notin> set py_whitespace" by blast
  then have "dropWhile (\<lambda>c. c \<in> set py_whitespace) (s @ [c]) =
             dropWhile (\<lambda>c. c \<in> set py_whitespace) s @ [c]"
    by (rule dropWhile_append1)
  with assms show ?thesis by (simp add: py_strip_def)
qed

lemma py_tail_map: "py_tail n (map f xs) = map f (py_tail n xs)"
  by (simp add: py_tail_def drop_map)

section \<open>Properties of daemon control\<close>

text \<open>
  C30: Starting the daemon under a free pid and then stopping it returns the host to
  exactly the state before: the PID file's \<open>"%d\n"\<close> reads back through
  \<open>int(f.read().strip())\<close> as the daemon's pid, \<open>SIGTERM\<close> ends it, and its lock
  file is removed.
\<close>

theorem start_stop_roundtrip:
  assumes "pid_file h = None" and "procs h pid = None" and "0 < pid"
  shows "daemon_stop (fst (daemon_start pid True h)) = (h, SentTerm (int pid))"
proof -
  have "(procs h)(pid \<mapsto> FilegitDaemon, pid := None) = procs h"
    using assms(2) by (simp add: fun_upd_idem)
  with assms show ?thesis
    by (simp add: daemon_start_def daemon_stop_def send_term_def fg_simps)
qed

text \<open>
  C31: A PID file whose content \<open>int()\<close> rejects (a truncated write, an edit) is never
  removed by any of the commands: \<open>daemon-stop\<close> only says it cannot read it,
  \<open>daemon-status\<close> advises running \<open>daemon-stop\<close>, \<open>daemon-start\<close> refuses; so after
  any sequence of commands and process events the file is unchanged and no new
  daemon has been started.
\<close>

theorem corrupt_pid_file_blocks_start:
  assumes "py_int (py_strip c) = None" and "pid_file h = Some c"
  shows "pid_file (ctl_run ops h) = Some c \<and>
         (\<forall>pid. procs (ctl_run ops h) pid = Some FilegitDaemon \<longrightarrow> procs h pid = Some FilegitDaemon)"
  using assms(2)
proof (induction ops arbitrary: h)
  case Nil
  then show ?case by (simp add: fg_simps)
next
  case (Cons op ops)
  have step: "pid_file (fst (ctl_step op h)) = Some c \<and>
      (\<forall>pid. procs (fst (ctl_step op h)) pid = Some FilegitDaemon \<longrightarrow> procs h pid = Some FilegitDaemon)"
    by (rule ctl_step_corrupt [OF assms(1) Cons.prems])
  with Cons.IH [of "fst (ctl_step op h)"] show ?case by (auto simp: fg_simps)
qed

text \<open>
  C32: A PID file left behind by a daemon that died without cleanup names whatever
  process gets that pid next: \<open>daemon-status\<close> then reports the daemon as running,
  and \<open>daemon-stop\<close> sends \<open>SIGTERM\<close> to that unrelated process of the user,
  reporting success and keeping the stale file.
\<close>

theorem stale_pid_file_signals_other_process:
  assumes "pid_file h = Some c" and "py_int (py_strip c) = Some (int pid)" and "0 < pid"
    and "procs h pid = Some OwnProcess"
  shows "daemon_status h = StatusRunning (int pid) \<and>
         daemon_stop h = (h\<lparr>procs := (procs h)(pid := None)\<rparr>, SentTerm (int pid))"
  using assms by (simp add: daemon_status_def daemon_stop_def send_term_def)

text \<open>
  C40: When the daemon is running and its log holds the lines \<open>ls\<close>, \<open>daemon-status\<close>
  prints the "running" line, the heading and the last ten of those lines (all of
  them when there are fewer), each stripped: never more than ten, and in order.
\<close>

theorem status_shows_last_ten_log_lines:
  assumes "daemon_status h = StatusRunning pid" and "\<forall>l\<in>set ls. CHR 0x0A \<notin> set l"
  shows "daemon_status_output h (Some (LogText (concat (map (\<lambda>l. l @ [CHR 0x0A]) ls)))) =
         Msg (StatusRunning pid) # LogHeading # map (\<lambda>l. LogLine (py_strip l)) (drop (length ls - 10) ls)"
proof -
  have "CHR 0x0A \<in> set py_whitespace" by (simp add: py_whitespace_def)
  then have strip: "py_strip (l @ [CHR 0x0A]) = py_strip l" for l by (rule py_strip_snoc_whitespace)
  have "py_tail 10 (py_readlines (concat (map (\<lambda>l. l @ [CHR 0x0A]) ls))) =
        map (\<lambda>l. l @ [CHR 0x0A]) (drop (length ls - 10) ls)"
    using assms(2) by (simp add: py_readlines_lines py_tail_def drop_map)
  with assms(1) show ?thesis by (simp add: daemon_status_output_def strip)
qed

section \<open>Witnesses\<close>

lemma start_stop_roundtrip_witness:
  "daemon_stop (fst (daemon_start 42 True \<lparr>pid_file = None, procs = Map.empty\<rparr>)) =
     (\<lparr>pid_file = None, procs = Map.empty\<rparr>, SentTerm 42)"
  using start_stop_roundtrip [of "\<lparr>pid_file = None, procs = Map.empty\<rparr>" 42] by simp

lemma corrupt_pid_file_blocks_start_witness:
  "pid_file (ctl_run [CliStop, CliStatus, CliStart 9 True, KillNoCleanup 9]
               \<lparr>pid_file = Some ''4x'', procs = Map.empty\<rparr>) = Some ''4x'' \<and>
   procs (ctl_run [CliStop, CliStatus, CliStart 9 True, KillNoCleanup 9]
            \<lparr>pid_file = Some ''4x'', procs = Map.empty\<rparr>) 9 \<noteq> Some FilegitDaemon"
proof -
  have "py_int (py_strip ''4x'') = None"
    by (simp add: py_int_def py_strip_def py_whitespace_def py_digits_def decimal_digits_def Let_def)
  from corrupt_pid_file_blocks_start [OF this, of "\<lparr>pid_file = Some ''4x'', procs = Map.empty\<rparr>"
         "[CliStop, CliStatus, CliStart 9 True, KillNoCleanup 9]"]
  show ?thesis by auto
qed

lemma stale_pid_file_signals_other_process_witness:
  "ctl_run [CliStart 7 True, KillNoCleanup 7, PidReused 7 OwnProcess] \<lparr>pid_file = None, procs = Map.empty\<rparr> =
     \<lparr>pid_file = Some (py_str_nat 7 @ [CHR 0x0A]), procs = [7 \<mapsto> OwnProcess]\<rparr> \<and>
   daemon_status \<lparr>pid_file = Some (py_str_nat 7 @ [CHR 0x0A]), procs = [7 \<mapsto> OwnProcess]\<rparr> = StatusRunning 7 \<and>
   daemon_stop \<lparr>pid_file = Some (py_str_nat 7 @ [CHR 0x0A]), procs = [7 \<mapsto> OwnProcess]\<rparr> =
     (\<lparr>pid_file = Some (py_str_nat 7 @ [CHR 0x0A]), procs = Map.empty\<rparr>, SentTerm 7)"
proof -
  have run: "ctl_run [CliStart 7 True, KillNoCleanup 7, PidReused 7 OwnProcess] \<lparr>pid_file = None, procs = Map.empty\<rparr> =
     \<lparr>pid_file = Some (py_str_nat 7 @ [CHR 0x0A]), procs = [7 \<mapsto> OwnProcess]\<rparr>"
    by (simp add: fg_simps daemon_start_def)
  have "py_int (py_strip (py_str_nat 7 @ [CHR 0x0A])) = Some (int 7)" by (rule py_int_pid_line)
  from stale_pid_file_signals_other_process [OF _ this, of "\<lparr>pid_file = Some (py_str_nat 7 @ [CHR 0x0A]), procs = [7 \<mapsto> OwnProcess]\<rparr>"]
  show ?thesis using run by simp
qed

lemma status_shows_last_ten_log_lines_witness:
  "daemon_status_output \<lparr>pid_file = Some (py_str_nat 7 @ [CHR 0x0A]), procs = [7 \<mapsto> FilegitDaemon]\<rparr>
     (Some (LogText (concat (map (\<lambda>l. l @ [CHR 0x0A])
        [''a'', ''b'', ''c'', ''d'', ''e'', '' f '', ''g'', ''h'', ''i'', ''j'', ''k'', ''l''])))) =
   [Msg (StatusRunning 7), LogHeading, LogLine ''c'', LogLine ''d'', LogLine ''e'', LogLine ''f'',
    LogLine ''g'', LogLine ''h'', LogLine ''i'', LogLine ''j'', LogLine ''k'', LogLine ''l'']"
proof -
  have st: "daemon_status \<lparr>pid_file = Some (py_str_nat 7 @ [CHR 0x0A]), procs = [7 \<mapsto> FilegitDaemon]\<rparr> =
            StatusRunning 7"
    by (simp add: daemon_status_def fg_simps)
  show ?thesis
    using status_shows_last_ten_log_lines [OF st,
            of "[''a'', ''b'', ''c'', ''d'', ''e'', '' f '', ''g'', ''h'', ''i'', ''j'', ''k'', ''l'']"]
    by (simp add: py_strip_def py_whitespace_def)
qed

end
