(* ===== verification/Timestamps.thy ===== *)
theory Timestamps
  imports Py_Strings "HOL-Library.List_Lexorder" "HOL-Library.Char_ord" "HOL-Library.Product_Lexorder"
begin

text \<open>
  The timestamps of the commits table: every INSERT of the source stores
  \<open>datetime.now().isoformat()\<close> (src/filegit_daemon.py, \<open>create_auto_snapshot\<close>;
  src/filegit.py, \<open>action_add_snapshot\<close>), the SELECTs sort on that TEXT column,
  and \<open>format_timestamp\<close> (src/filegit.py) turns it back into a \<open>datetime\<close> with
  \<open>fromisoformat\<close> and prints it with \<open>strftime('%y-%m-%d %H:%M:%S')\<close>. A naive
  \<open>datetime\<close> is a record of its seven fields; \<open>isoformat\<close>, the part of
  \<open>fromisoformat\<close> that reads what \<open>isoformat\<close> writes, and \<open>strftime\<close> are
  written as the Python documentation gives them.
\<close>

section \<open>datetime values\<close>

record py_datetime =
  year :: nat
  month :: nat
  day :: nat
  hour :: nat
  minute :: nat
  second :: nat
  microsecond :: nat

definition leap_year :: "nat \<Rightarrow> bool" where
  "leap_year y = (y mod 4 = 0 \<and> (y mod 100 \<noteq> 0 \<or> y mod 400 = 0))"

definition days_in_month :: "nat \<Rightarrow> nat \<Rightarrow> nat" where
  "days_in_month y m =
     (if m = 2 then (if leap_year y then 29 else 28)
      else if m \<in> {4, 6, 9, 11} then 30 else 31)"

text \<open>The constructor's range checks (\<open>MINYEAR = 1\<close>, \<open>MAXYEAR = 9999\<close>); out of range is \<open>ValueError\<close>.\<close>

definition dt_valid :: "py_datetime \<Rightarrow> bool" where
  "dt_valid d \<longleftrightarrow>
     1 \<le> year d \<and> year d \<le> 9999 \<and> 1 \<le> month d \<and> month d \<le> 12 \<and>
     1 \<le> day d \<and> day d \<le> days_in_month (year d) (month d) \<and>
     hour d < 24 \<and> minute d < 60 \<and> second d < 60 \<and> microsecond d < 1000000"

text \<open>Comparison of \<open>datetime\<close> objects: field by field, the most significant first.\<close>

definition dt_key :: "py_datetime \<Rightarrow> nat \<times> nat \<times> nat \<times> nat \<times> nat \<times> nat \<times> nat" where
  "dt_key d = (year d, month d, day d, hour d, minute d, second d, microsecond d)"

section \<open>Printing: isoformat and strftime\<close>

text \<open>\<open>'%0*d' % (n, k)\<close>: \<open>str(k)\<close> padded on the left with zeros to \<open>n\<close> characters.\<close>

definition zpad :: "nat \<Rightarrow> nat \<Rightarrow> string" where
  "zpad n k = replicate (n - length (py_str_nat k)) CHR ''0'' @ py_str_nat k"

text \<open>
  \<open>isoformat()\<close> of a naive datetime: \<open>YYYY-MM-DDTHH:MM:SS\<close>, followed by
  \<open>.ffffff\<close> only when the microseconds are not zero.
\<close>

definition iso_seconds :: "py_datetime \<Rightarrow> string" where
  "iso_seconds d =
     zpad 4 (year d) @ ''-'' @ zpad 2 (month d) @ ''-'' @ zpad 2 (day d) @ ''T'' @
     zpad 2 (hour d) @ '':'' @ zpad 2 (minute d) @ '':'' @ zpad 2 (second d)"

definition iso_fraction :: "nat \<Rightarrow> string" where
  "iso_fraction us = (if us = 0 then [] else CHR ''.'' # zpad 6 us)"

definition py_isoformat :: "py_datetime \<Rightarrow> string" where
  "py_isoformat d = iso_seconds d @ iso_fraction (microsecond d)"

text \<open>\<open>strftime('%y-%m-%d %H:%M:%S')\<close>: \<open>%y\<close> is the year without its century.\<close>

definition strftime_short :: "py_datetime \<Rightarrow> string" where
  "strftime_short d =
     zpad 2 (year d mod 100) @ ''-'' @ zpad 2 (month d) @ ''-'' @ zpad 2 (day d) @ '' '' @
     zpad 2 (hour d) @ '':'' @ zpad 2 (minute d) @ '':'' @ zpad 2 (second d)"

section \<open>Parsing: fromisoformat\<close>

text \<open>A field of fixed width: decimal digits only, else \<open>ValueError\<close>.\<close>

definition digit_field :: "string \<Rightarrow> nat option" where
  "digit_field s = (if s \<noteq> [] \<and> set s \<subseteq> set decimal_digits then Some (digits_value s) else None)"

text \<open>
  \<open>datetime.fromisoformat\<close> on the two shapes \<open>isoformat\<close> writes for a naive
  value, \<open>YYYY-MM-DDTHH:MM:SS\<close> and \<open>YYYY-MM-DDTHH:MM:SS.ffffff\<close>, followed by
  the constructor's range checks; \<open>None\<close> is the \<open>ValueError\<close>. The other shapes
  Python accepts (a date alone, a space separator, an offset) never occur in
  the table, whose every timestamp comes from \<open>isoformat()\<close>, and are read as
  errors here.
\<close>

definition py_fromisoformat :: "string \<Rightarrow> py_datetime option" where
  "py_fromisoformat s =
     (if (length s = 19 \<or> (length s = 26 \<and> s ! 19 = CHR ''.'')) \<and>
         s ! 4 = CHR ''-'' \<and> s ! 7 = CHR ''-'' \<and> s ! 10 = CHR ''T'' \<and>
         s ! 13 = CHR '':'' \<and> s ! 16 = CHR '':''
      then
        (case (digit_field (take 4 s), digit_field (take 2 (drop 5 s)), digit_field (take 2 (drop 8 s)),
               digit_field (take 2 (drop 11 s)), digit_field (take 2 (drop 14 s)),
               digit_field (take 2 (drop 17 s)),
               if length s = 19 then Some 0 else digit_field (drop 20 s)) of
           (Some y, Some mo, Some dd, Some h, Some mi, Some se, Some us) \<Rightarrow>
             let d = \<lparr>year = y, month = mo, day = dd, hour = h, minute = mi, second = se,
                      microsecond = us\<rparr>
             in if dt_valid d then Some d else None
         | _ \<Rightarrow> None)
      else None)"

text \<open>\<open>format_timestamp\<close>: \<open>None\<close> is the \<open>ValueError\<close> of \<open>fromisoformat\<close>, uncaught.\<close>

definition format_timestamp :: "string \<Rightarrow> string option" where
  "format_timestamp ts = map_option strftime_short (py_fromisoformat ts)"

section \<open>Lemmas\<close>

subsection \<open>Lexicographic order of strings\<close>

lemma less_append_same_length:
  fixes xs ys us vs :: "'a::linorder list"
  assumes "length xs = length ys"
  shows "xs @ us < ys @ vs \<longleftrightarrow> xs < ys \<or> xs = ys \<and> us < vs"
  using assms by (induction xs ys rule: list_induct2) auto

lemma of_char_decimal_digit_eq: "k < 10 \<Longrightarrow> of_char (decimal_digits ! k) = (48 + k :: nat)"
  by (auto simp: decimal_digits_def less_Suc_eq numeral_eq_Suc)

lemma decimal_digit_less_iff:
  "a < 10 \<Longrightarrow> b < 10 \<Longrightarrow> decimal_digits ! a < decimal_digits ! b \<longleftrightarrow> a < b"
  by (simp add: less_char_def of_char_decimal_digit_eq)

lemma decimal_digit_eq_iff:
  "a < 10 \<Longrightarrow> b < 10 \<Longrightarrow> decimal_digits ! a = decimal_digits ! b \<longleftrightarrow> a = b"
  by (metis of_char_decimal_digit_eq add_left_cancel)

subsection \<open>Zero-padded fields\<close>

lemma zpad_1: "k < 10 \<Longrightarrow> zpad 1 k = [decimal_digits ! k]"
  by (simp add: zpad_def py_str_nat.simps [of k])

lemma zpad_Suc:
  assumes "0 < n"
  shows "zpad (Suc n) k = zpad n (k div 10) @ [decimal_digits ! (k mod 10)]"
proof (cases "k < 10")
  case True
  then have "zpad n (k div 10) = replicate n CHR ''0''"
    using assms by (simp add: zpad_def py_str_nat.simps [of 0] decimal_digits_def replicate_append_same
                              flip: replicate_Suc)
  with True show ?thesis by (simp add: zpad_def py_str_nat.simps [of k])
next
  case False
  then show ?thesis by (simp add: zpad_def py_str_nat.simps [of k])
qed

lemma div10_less: "k < 10 ^ Suc n \<Longrightarrow> k div 10 < (10::nat) ^ n"
  by (simp add: div_less_iff_less_mult mult.commute)

lemma less_div_mod_10:
  "(k::nat) < l \<longleftrightarrow> k div 10 < l div 10 \<or> k div 10 = l div 10 \<and> k mod 10 < l mod 10"
proof -
  have k: "k = 10 * (k div 10) + k mod 10" and l: "l = 10 * (l div 10) + l mod 10"
    by simp_all
  have m: "k mod 10 < 10" "l mod 10 < 10" by simp_all
  show ?thesis
  proof
    assume "k < l"
    then have "k div 10 \<le> l div 10" by (simp add: div_le_mono)
    with \<open>k < l\<close> k l show "k div 10 < l div 10 \<or> k div 10 = l div 10 \<and> k mod 10 < l mod 10"
      by (metis le_neq_implies_less nat_add_left_cancel_less)
  next
    assume "k div 10 < l div 10 \<or> k div 10 = l div 10 \<and> k mod 10 < l mod 10"
    with k l m show "k < l" by linarith
  qed
qed

lemma digits_value_zeros: "digits_value (replicate m CHR ''0'' @ s) = digits_value s"
proof -
  have "foldl (\<lambda>n c. 10 * n + (of_char c - 48)) 0 (replicate m CHR ''0'') = (0::nat)"
    by (induction m) simp_all
  then show ?thesis by (simp add: digits_value_def)
qed

lemma digits_value_zpad [fg_simps]: "digits_value (zpad n k) = k"
  by (simp add: zpad_def digits_value_zeros digits_value_py_str_nat)

lemma zpad_digits: "set (zpad n k) \<subseteq> set decimal_digits"
  using py_str_nat_digits [of k] by (auto simp: zpad_def decimal_digits_def)

lemma zpad_eq_iff [fg_simps]: "zpad n k = zpad n l \<longleftrightarrow> k = l"
  by (metis digits_value_zpad)

lemma zpad_length:
  assumes "0 < n" and "k < 10 ^ n"
  shows "length (zpad n k) = n"
  using assms
proof (induction n arbitrary: k rule: nat_induct_non_zero)
  case 1
  then show ?case using zpad_1 [of k] by simp
next
  case (Suc n)
  then show ?case by (simp add: zpad_Suc div10_less)
qed

lemma zpad_less_iff:
  assumes "0 < n" and "k < 10 ^ n" and "l < 10 ^ n"
  shows "zpad n k < zpad n l \<longleftrightarrow> k < l"
  using assms
proof (induction n arbitrary: k l rule: nat_induct_non_zero)
  case 1
  then show ?case using zpad_1 [of k] zpad_1 [of l] by (simp add: decimal_digit_less_iff)
next
  case (Suc n)
  have len: "length (zpad n (k div 10)) = length (zpad n (l div 10))"
    using Suc by (simp add: zpad_length div10_less)
  have "zpad (Suc n) k < zpad (Suc n) l \<longleftrightarrow>
        k div 10 < l div 10 \<or> k div 10 = l div 10 \<and> k mod 10 < l mod 10"
    using Suc by (simp add: zpad_Suc less_append_same_length [OF len] div10_less zpad_eq_iff
                            decimal_digit_less_iff)
  then show ?case by (simp only: less_div_mod_10 [of k l])
qed

subsection \<open>isoformat\<close>

lemma days_in_month_le: "days_in_month y m \<le> 31"
  by (simp add: days_in_month_def)

lemma dt_valid_bounds:
  assumes "dt_valid d"
  shows "year d < 10 ^ 4" "month d < 10 ^ 2" "day d < 10 ^ 2" "hour d < 10 ^ 2"
        "minute d < 10 ^ 2" "second d < 10 ^ 2" "microsecond d < 10 ^ 6"
  using assms days_in_month_le [of "year d" "month d"] by (simp_all add: dt_valid_def)

lemma less_or_le_and: "((x::'a::linorder) < y \<or> x \<le> y \<and> P) \<longleftrightarrow> (x < y \<or> x = y \<and> P)"
  by auto

lemmas zpad_order = less_append_same_length append_eq_append_conv zpad_length zpad_less_iff zpad_eq_iff

lemma iso_seconds_length: "dt_valid d \<Longrightarrow> length (iso_seconds d) = 19"
  using dt_valid_bounds [of d] by (simp add: iso_seconds_def zpad_length)

lemma iso_seconds_less:
  assumes "dt_valid a" and "dt_valid b"
  shows "iso_seconds a < iso_seconds b \<longleftrightarrow>
         (year a, month a, day a, hour a, minute a, second a) <
         (year b, month b, day b, hour b, minute b, second b)"
  using dt_valid_bounds [OF assms(1)] dt_valid_bounds [OF assms(2)]
  by (simp add: iso_seconds_def zpad_order less_prod_def less_or_le_and)

lemma iso_seconds_eq:
  assumes "dt_valid a" and "dt_valid b"
  shows "iso_seconds a = iso_seconds b \<longleftrightarrow>
         (year a, month a, day a, hour a, minute a, second a) =
         (year b, month b, day b, hour b, minute b, second b)"
  using dt_valid_bounds [OF assms(1)] dt_valid_bounds [OF assms(2)]
  by (simp add: iso_seconds_def zpad_order)

lemma iso_fraction_less:
  assumes "a < 10 ^ 6" and "b < 10 ^ 6"
  shows "iso_fraction a < iso_fraction b \<longleftrightarrow> a < b"
  using assms by (auto simp: iso_fraction_def zpad_less_iff)

subsection \<open>fromisoformat reads isoformat\<close>

lemma zpad_nonempty: "zpad n k \<noteq> []"
  by (simp add: zpad_def py_str_nat_nonempty)

lemma digit_field_zpad [fg_simps]: "digit_field (zpad n k) = Some k"
  by (simp add: digit_field_def zpad_digits zpad_nonempty digits_value_zpad)

lemma py_datetime_eta: "\<lparr>year = year d, month = month d, day = day d, hour = hour d, minute = minute d,
                          second = second d, microsecond = microsecond d\<rparr> = d"
  by simp

lemma iso_fraction_eq:
  assumes "a < 10 ^ 6" and "b < 10 ^ 6"
  shows "iso_fraction a = iso_fraction b \<longleftrightarrow> a = b"
  using assms by (auto simp: iso_fraction_def zpad_eq_iff)

lemma isoformat_less_iff:
  assumes "dt_valid a" and "dt_valid b"
  shows "py_isoformat a < py_isoformat b \<longleftrightarrow> dt_key a < dt_key b"
proof -
  have len: "length (iso_seconds a) = length (iso_seconds b)"
    using assms by (simp add: iso_seconds_length)
  show ?thesis
    using dt_valid_bounds(7) [OF assms(1)] dt_valid_bounds(7) [OF assms(2)]
    by (simp add: py_isoformat_def less_append_same_length [OF len] iso_seconds_less [OF assms]
                  iso_seconds_eq [OF assms] iso_fraction_less dt_key_def less_prod_def less_or_le_and) blast
qed

lemma isoformat_eq_iff:
  assumes "dt_valid a" and "dt_valid b"
  shows "py_isoformat a = py_isoformat b \<longleftrightarrow> dt_key a = dt_key b"
proof -
  have len: "length (iso_seconds a) = length (iso_seconds b)"
    using assms by (simp add: iso_seconds_length)
  show ?thesis
    using dt_valid_bounds(7) [OF assms(1)] dt_valid_bounds(7) [OF assms(2)] len
    by (simp add: py_isoformat_def append_eq_append_conv iso_seconds_eq [OF assms] iso_fraction_eq
                  dt_key_def)
qed

lemma isoformat_le_iff:
  assumes "dt_valid a" and "dt_valid b"
  shows "py_isoformat a \<le> py_isoformat b \<longleftrightarrow> dt_key a \<le> dt_key b"
  using isoformat_less_iff [OF assms] isoformat_eq_iff [OF assms] by (auto simp: le_less)

section \<open>Properties of the timestamps\<close>

text \<open>
  C37: On the values \<open>datetime.now()\<close> can return, the text order of
  \<open>isoformat()\<close> strings, the order SQLite's \<open>ORDER BY timestamp\<close> applies to the
  TEXT column, is the chronological order of the datetimes, and two strings are
  equal only for the same instant; also when one of them has no fractional part
  because its microseconds are zero. This is what the commit index's abstract
  linear order of timestamps stands for.
\<close>

theorem isoformat_sorts_chronologically:
  assumes "dt_valid a" and "dt_valid b"
  shows "(py_isoformat a < py_isoformat b \<longleftrightarrow> dt_key a < dt_key b) \<and>
         (py_isoformat a = py_isoformat b \<longleftrightarrow> dt_key a = dt_key b)"
  using isoformat_less_iff [OF assms] isoformat_eq_iff [OF assms] ..

text \<open>
  C38: \<open>format_timestamp\<close> never raises on a timestamp the program wrote:
  \<open>fromisoformat\<close> reads back exactly the datetime \<open>isoformat\<close> printed, with or
  without microseconds, and the timeline shows its \<open>strftime('%y-%m-%d %H:%M:%S')\<close>.
\<close>

theorem format_timestamp_reads_isoformat:
  assumes "dt_valid d"
  shows "py_fromisoformat (py_isoformat d) = Some d \<and>
         format_timestamp (py_isoformat d) = Some (strftime_short d)"
proof -
  have "py_fromisoformat (py_isoformat d) = Some d"
  proof (cases "microsecond d = 0")
    case True
    then have eta: "\<lparr>year = year d, month = month d, day = day d, hour = hour d, minute = minute d,
                     second = second d, microsecond = 0\<rparr> = d"
      using py_datetime_eta [of d] by simp
    from True show ?thesis
      using assms dt_valid_bounds [OF assms]
      by (simp add: py_fromisoformat_def py_isoformat_def iso_seconds_def iso_fraction_def zpad_length
                    nth_append digit_field_zpad eta)
  next
    case False
    then show ?thesis
      using assms dt_valid_bounds [OF assms]
      by (simp add: py_fromisoformat_def py_isoformat_def iso_seconds_def iso_fraction_def zpad_length
                    nth_append digit_field_zpad py_datetime_eta)
  qed
  then show ?thesis by (simp add: format_timestamp_def)
qed

section \<open>Witnesses\<close>

lemma isoformat_sorts_chronologically_witness:
  "py_isoformat \<lparr>year = 2024, month = 3, day = 31, hour = 23, minute = 59, second = 59, microsecond = 0\<rparr> <
   py_isoformat \<lparr>year = 2024, month = 12, day = 1, hour = 0, minute = 0, second = 0, microsecond = 1\<rparr>"
  using isoformat_sorts_chronologically
          [of "\<lparr>year = 2024, month = 3, day = 31, hour = 23, minute = 59, second = 59, microsecond = 0\<rparr>"
              "\<lparr>year = 2024, month = 12, day = 1, hour = 0, minute = 0, second = 0, microsecond = 1\<rparr>"]
  by (simp add: dt_valid_def days_in_month_def leap_year_def dt_key_def)

lemma format_timestamp_reads_isoformat_witness:
  "format_timestamp (py_isoformat \<lparr>year = 2024, month = 2, day = 29, hour = 7, minute = 8, second = 9,
                                   microsecond = 120\<rparr>) = Some ''24-02-29 07:08:09''"
proof -
  have "format_timestamp (py_isoformat \<lparr>year = 2024, month = 2, day = 29, hour = 7, minute = 8, second = 9,
                                   microsecond = 120\<rparr>) =
        Some (strftime_short \<lparr>year = 2024, month = 2, day = 29, hour = 7, minute = 8, second = 9,
                                   microsecond = 120\<rparr>)"
    using format_timestamp_reads_isoformat
            [of "\<lparr>year = 2024, month = 2, day = 29, hour = 7, minute = 8, second = 9, microsecond = 120\<rparr>"]
    by (simp add: dt_valid_def days_in_month_def leap_year_def)
  then show ?thesis
    by (simp add: strftime_short_def zpad_def py_str_nat.simps decimal_digits_def)
qed

end
