(* ===== verification/Daemon_Loop.thy ===== *)
theory Daemon_Loop
  imports Prelude "HOL-Library.Stream"
begin

text \<open>
  The end of \<open>run_daemon\<close> (src/filegit_daemon.py): after \<open>observer.start()\<close>
  the main thread sleeps in \<open>while True: time.sleep(5)\<close> while the observer's
  thread handles the events. The loop is left only by an exception out of
  \<open>time.sleep\<close>, that is by a signal: \<open>SIGTERM\<close> (what \<open>daemon-stop\<close> sends),
  for which python-daemon's \<open>DaemonContext.terminate\<close> raises \<open>SystemExit\<close>;
  \<open>SIGINT\<close>, which raises \<open>KeyboardInterrupt\<close>; \<open>SIGKILL\<close>, which ends the process
  with no Python code run. What happens during each five-second sleep is an
  infinite stream; the loop is a \<open>partial_function (option)\<close> over it, \<open>None\<close>
  when the daemon sleeps forever. The handler \<open>except Exception\<close> and the two
  lines after the loop then run or not by Python's exception hierarchy.
\<close>

section \<open>The sleep loop\<close>

datatype interruption = Slept | SigTerm | SigInt | SigKill

text \<open>The exception a signal raises in the sleeping main thread, if any.\<close>

datatype py_exc = SystemExitExc | KeyboardInterruptExc

definition raised_by :: "interruption \<Rightarrow> py_exc option" where
  "raised_by i = (case i of SigTerm \<Rightarrow> Some SystemExitExc | SigInt \<Rightarrow> Some KeyboardInterruptExc | _ \<Rightarrow> None)"

text \<open>
  \<open>isinstance(e, Exception)\<close>: \<open>SystemExit\<close> and \<open>KeyboardInterrupt\<close> derive
  from \<open>BaseException\<close> only.
\<close>

definition is_exception :: "py_exc \<Rightarrow> bool" where
  "is_exception e = (case e of SystemExitExc \<Rightarrow> False | KeyboardInterruptExc \<Rightarrow> False)"

text \<open>\<open>while True: time.sleep(5)\<close>: the first interruption that is not a completed sleep.\<close>

partial_function (option) sleep_loop :: "interruption stream \<Rightarrow> interruption option" where
  "sleep_loop s = (if shd s = Slept then sleep_loop (stl s) else Some (shd s))"

section \<open>Leaving run_daemon\<close>

text \<open>
  How the daemon process ends: the lines it logs after the loop, whether
  \<open>observer.stop()\<close> and \<open>observer.join()\<close> ran, and the exception that leaves
  \<open>run_daemon\<close> (\<open>None\<close>: it returned, or the process was killed).
\<close>

datatype log_line = StoppedDueToError py_exc | DaemonStopped

record daemon_end =
  end_log :: "log_line list"
  observer_stopped :: bool
  observer_joined :: bool
  propagated :: "py_exc option"

text \<open>
  Lines 105-111: an exception that is an \<open>Exception\<close> is printed, the observer
  stopped, the stop line printed and the observer joined; any other exception
  leaves \<open>run_daemon\<close> with none of that run. \<open>SIGKILL\<close> runs nothing.
\<close>

definition after_loop :: "interruption \<Rightarrow> daemon_end" where
  "after_loop i =
     (case raised_by i of
        None \<Rightarrow> \<lparr>end_log = [], observer_stopped = False, observer_joined = False, propagated = None\<rparr>
      | Some e \<Rightarrow>
          if is_exception e
          then \<lparr>end_log = [StoppedDueToError e, DaemonStopped], observer_stopped = True,
                observer_joined = True, propagated = None\<rparr>
          else \<lparr>end_log = [], observer_stopped = False, observer_joined = False, propagated = Some e\<rparr>)"

definition daemon_main_loop :: "interruption stream \<Rightarrow> daemon_end option" where
  "daemon_main_loop s = map_option after_loop (sleep_loop s)"

section \<open>Lemmas\<close>

lemma sleep_loop_Slept: "shd s = Slept \<Longrightarrow> sleep_loop s = sleep_loop (stl s)"
  by (simp add: sleep_loop.simps [of s])

lemma sleep_loop_stop: "shd s \<noteq> Slept \<Longrightarrow> sleep_loop s = Some (shd s)"
  by (simp add: sleep_loop.simps [of s])

lemma sleep_loop_returns:
  "shd (sdrop n s) \<noteq> Slept \<Longrightarrow> \<exists>i. sleep_loop s = Some i \<and> i \<noteq> Slept"
proof (induction n arbitrary: s)
  case 0
  then show ?case by (simp add: sleep_loop_stop)
next
  case (Suc n)
  show ?case
  proof (cases "shd s = Slept")
    case True
    with Suc show ?thesis by (simp add: sleep_loop_Slept)
  next
    case False
    then show ?thesis by (simp add: sleep_loop_stop)
  qed
qed

text \<open>Partial correctness: a result is the first interruption that is not a completed sleep.\<close>

lemma sleep_loop_first_interruption:
  assumes "sleep_loop s = Some i"
  shows "i \<noteq> Slept \<and> (\<exists>n. shd (sdrop n s) = i \<and> (\<forall>m<n. shd (sdrop m s) = Slept))"
proof (rule sleep_loop.raw_induct [where P = "\<lambda>s i. i \<noteq> Slept \<and>
         (\<exists>n. shd (sdrop n s) = i \<and> (\<forall>m<n. shd (sdrop m s) = Slept))", OF _ assms])
  fix f :: "interruption stream \<Rightarrow> interruption option" and s i
  assume IH: "\<And>s i. f s = Some i \<Longrightarrow> i \<noteq> Slept \<and>
                 (\<exists>n. shd (sdrop n s) = i \<and> (\<forall>m<n. shd (sdrop m s) = Slept))"
    and step: "(if shd s = Slept then f (stl s) else Some (shd s)) = Some i"
  show "i \<noteq> Slept \<and> (\<exists>n. shd (sdrop n s) = i \<and> (\<forall>m<n. shd (sdrop m s) = Slept))"
  proof (cases "shd s = Slept")
    case True
    with step have "f (stl s) = Some i" by simp
    from IH [OF this] obtain n where "i \<noteq> Slept" "shd (sdrop n (stl s)) = i"
        and before: "\<forall>m<n. shd (sdrop m (stl s)) = Slept" by blast
    moreover have "\<forall>m<Suc n. shd (sdrop m s) = Slept"
    proof (intro allI impI)
      fix m assume "m < Suc n"
      with True before show "shd (sdrop m s) = Slept" by (cases m) simp_all
    qed
    ultimately show ?thesis by (intro conjI exI [of _ "Suc n"]) simp_all
  next
    case False
    with step show ?thesis by (intro conjI exI [of _ 0]) auto
  qed
qed

lemma sleep_loop_forever: "\<forall>n. shd (sdrop n s) = Slept \<Longrightarrow> sleep_loop s = None"
  using sleep_loop_first_interruption [of s] by (cases "sleep_loop s") auto

section \<open>Properties of the daemon's main loop\<close>

text \<open>
  C17: The daemon's main loop returns exactly when some sleep is interrupted by a
  signal, and sleeps forever otherwise; and however it ends, the clean-up after
  it never runs: no "Daemon stopped" line is logged, \<open>observer.stop()\<close> and
  \<open>observer.join()\<close> are never called, because the only exceptions that reach
  \<open>except Exception\<close> are \<open>SystemExit\<close> and \<open>KeyboardInterrupt\<close>, which it does
  not catch.
\<close>

theorem daemon_loop_cleanup_never_runs:
  "(daemon_main_loop s \<noteq> None \<longleftrightarrow> (\<exists>n. shd (sdrop n s) \<noteq> Slept)) \<and>
   (\<forall>r. daemon_main_loop s = Some r \<longrightarrow>
        end_log r = [] \<and> \<not> observer_stopped r \<and> \<not> observer_joined r)"
proof
  show "daemon_main_loop s \<noteq> None \<longleftrightarrow> (\<exists>n. shd (sdrop n s) \<noteq> Slept)"
  proof
    assume "daemon_main_loop s \<noteq> None"
    then obtain i where "sleep_loop s = Some i" by (auto simp: daemon_main_loop_def)
    then show "\<exists>n. shd (sdrop n s) \<noteq> Slept" using sleep_loop_first_interruption by blast
  next
    assume "\<exists>n. shd (sdrop n s) \<noteq> Slept"
    then show "daemon_main_loop s \<noteq> None"
      using sleep_loop_returns by (auto simp: daemon_main_loop_def)
  qed
next
  have "end_log (after_loop i) = [] \<and> \<not> observer_stopped (after_loop i) \<and> \<not> observer_joined (after_loop i)"
    for i
    by (cases i) (simp_all add: after_loop_def raised_by_def is_exception_def)
  then show "\<forall>r. daemon_main_loop s = Some r \<longrightarrow>
               end_log r = [] \<and> \<not> observer_stopped r \<and> \<not> observer_joined r"
    by (auto simp: daemon_main_loop_def)
qed

section \<open>Witnesses\<close>

lemma daemon_loop_cleanup_never_runs_witness:
  "daemon_main_loop (Slept ## sconst SigTerm) \<noteq> None \<and>
   end_log (the (daemon_main_loop (Slept ## sconst SigTerm))) = [] \<and>
   \<not> observer_stopped (the (daemon_main_loop (Slept ## sconst SigTerm)))"
proof -
  have "shd (sdrop 1 (Slept ## sconst SigTerm)) \<noteq> Slept" by simp
  then have some: "daemon_main_loop (Slept ## sconst SigTerm) \<noteq> None"
    using daemon_loop_cleanup_never_runs [of "Slept ## sconst SigTerm"] by blast
  then obtain r where r: "daemon_main_loop (Slept ## sconst SigTerm) = Some r" by blast
  with daemon_loop_cleanup_never_runs [of "Slept ## sconst SigTerm"] some show ?thesis by simp
qed

end
