(* ===== verification/Cli.thy ===== *)
theory Cli
  imports Dashboard Daemon Daemon_Control
begin

text \<open>
  The command line (src/filegit.py): the click group \<open>cli\<close> with the commands
  the \<open>__main__\<close> block registers (\<open>init\<close>, \<open>timeline\<close>, \<open>watch\<close>, \<open>unwatch\<close>,
  \<open>watch-list\<close>, \<open>daemon-start\<close>, \<open>daemon-stop\<close>, \<open>daemon-status\<close>), each run
  against one state of the user's home: the files, objects and commits table,
  whether \<open>index.db\<close> holds the table, \<open>watchlist.json\<close>, the PID file and the
  processes, and the watcher a successful \<open>daemon-start\<close> left running. Besides
  the commands, the user edits files and the running watcher receives the
  observer's events, so the components meet in one step function.
\<close>

section \<open>State and commands\<close>

record 'ts home =
  hwld :: "'ts world"
  pres :: db_presence
  wl_doc :: "wl_file option"
  hst :: host
  watcher :: "(nat \<times> daemon) option"

text \<open>
  The commands as the click group dispatches them; the arguments are what click
  passes (a resolved path), the events the dashboard receives while it runs, the
  pid the daemon process gets, and whether \<open>daemon.log\<close> exists for \<open>daemon-status\<close>.
\<close>

datatype 'ts cli_command =
    CmdInit | CmdTimeline path "'ts ui_event list"
  | CmdWatch path | CmdUnwatch path | CmdWatchList
  | CmdDaemonStart nat | CmdDaemonStop | CmdDaemonStatus "log_file option"

datatype cli_output =
    InitDone | UsageError path | AppEnded "dash_error option"
  | WlOutput "py_error + wl_msg" | CtlOutput ctl_msg | StatusOutput "status_line list"

section \<open>The dashboard session\<close>

text \<open>
  \<open>DashboardApp(Path(filepath)).run()\<close>: the message loop until the events run
  out, or until a handler raises; a raising handler has changed nothing (its
  \<open>int()\<close>, its \<open>shutil.copy\<close> fail before any write), so the session ends in the
  state before it.
\<close>

fun app_run :: "hash_fn \<Rightarrow> path \<Rightarrow> 'ts ui_event list \<Rightarrow> ('ts::linorder) dash \<Rightarrow> 'ts dash \<times> dash_error option" where
  "app_run H fp [] s = (s, None)"
| "app_run H fp (e # es) s = (case dash_step H fp e s of Inl err \<Rightarrow> (s, Some err) | Inr s' \<Rightarrow> app_run H fp es s')"

text \<open>\<open>on_mount\<close> and \<open>refresh_all\<close>: the header and the table the dashboard shows.\<close>

definition refresh_all :: "hash_fn \<Rightarrow> path \<Rightarrow> 'ts \<Rightarrow> ('ts::linorder) world \<Rightarrow> header_status \<times> 'ts tl_row list" where
  "refresh_all H fp now w = (update_header H fp w, load_timeline H fp now w)"

section \<open>The commands\<close>

text \<open>
  \<open>daemon-start\<close> with the daemon's pid: refused while the PID file exists;
  otherwise the daemon process runs \<open>run_daemon\<close>, which rewrites a missing
  watchlist, builds the handler (whose \<open>sqlite3.connect\<close> creates an empty
  \<open>index.db\<close> if there is none) and schedules the observer; an exception on the
  way ends it and the lock is released.
\<close>

definition cli_daemon_start :: "(path \<Rightarrow> bool) \<Rightarrow> nat \<Rightarrow> 'ts home \<Rightarrow> 'ts home \<times> cli_output" where
  "cli_daemon_start dir_exists pid h =
     (if pid_file (hst h) \<noteq> None then (h, CtlOutput AlreadyRunning)
      else
        (let pres' = (case load_watchlist_at_start (wl_doc h) of
                        Inl _ \<Rightarrow> pres h | Inr _ \<Rightarrow> handler_connect (pres h))
         in case run_daemon dir_exists (wl_doc h) of
              Inl _ \<Rightarrow> (h\<lparr>pres := pres', hst := fst (daemon_start pid False (hst h))\<rparr>,
                         CtlOutput (snd (daemon_start pid False (hst h))))
            | Inr (wlf', d) \<Rightarrow>
                (h\<lparr>pres := pres', wl_doc := wlf', hst := fst (daemon_start pid True (hst h)),
                   watcher := Some (pid, d)\<rparr>,
                 CtlOutput (snd (daemon_start pid True (hst h))))))"

text \<open>\<open>daemon-stop\<close>: the watcher is gone when its process no longer runs.\<close>

definition cli_daemon_stop :: "'ts home \<Rightarrow> 'ts home \<times> cli_output" where
  "cli_daemon_stop h =
     (let (hs, m) = daemon_stop (hst h)
      in (h\<lparr>hst := hs,
            watcher := (case watcher h of
                          None \<Rightarrow> None
                        | Some (pid, d) \<Rightarrow> if procs hs pid = Some FilegitDaemon then Some (pid, d) else None)\<rparr>,
          CtlOutput m))"

definition cli_main ::
  "hash_fn \<Rightarrow> (path \<Rightarrow> bool) \<Rightarrow> 'ts cli_command \<Rightarrow> ('ts::linorder) home \<Rightarrow> 'ts home \<times> cli_output" where
  "cli_main H dir_exists c h =
     (case c of
        CmdInit \<Rightarrow> (h\<lparr>pres := setup_repo_table (pres h)\<rparr>, InitDone)
      | CmdTimeline p evs \<Rightarrow>
          if files (hwld h) p = None then (h, UsageError p)
          else (let (s, err) = app_run H p evs (init_dash (hwld h))
                in (h\<lparr>pres := setup_repo_table (pres h), hwld := wld s\<rparr>, AppEnded err))
      | CmdWatch p \<Rightarrow>
          (case watch (files (hwld h)) p (wl_doc h) of
             Inl e \<Rightarrow> (h, WlOutput (Inl e))
           | Inr (wlf, m) \<Rightarrow> (h\<lparr>wl_doc := wlf\<rparr>, WlOutput (Inr m)))
      | CmdUnwatch p \<Rightarrow>
          (case unwatch p (wl_doc h) of
             Inl e \<Rightarrow> (h, WlOutput (Inl e))
           | Inr (wlf, m) \<Rightarrow> (h\<lparr>wl_doc := wlf\<rparr>, WlOutput (Inr m)))
      | CmdWatchList \<Rightarrow> (h, WlOutput (watch_list (wl_doc h)))
      | CmdDaemonStart pid \<Rightarrow> cli_daemon_start dir_exists pid h
      | CmdDaemonStop \<Rightarrow> cli_daemon_stop h
      | CmdDaemonStatus log \<Rightarrow> (h, StatusOutput (daemon_status_output (hst h) log)))"

section \<open>The home over time\<close>

text \<open>
  What can happen: a command, the user writing a file, and the observer reporting
  an event at time \<open>now\<close>, which reaches the running watcher only.
\<close>

datatype 'ts home_op = Cli "'ts cli_command" | UserWrite path bytes | FsEv fs_event 'ts

definition home_step ::
  "hash_fn \<Rightarrow> (path \<Rightarrow> bool) \<Rightarrow> 'ts home_op \<Rightarrow> ('ts::linorder) home \<Rightarrow> 'ts home" where
  "home_step H dir_exists op h =
     (case op of
        Cli c \<Rightarrow> fst (cli_main H dir_exists c h)
      | UserWrite p bs \<Rightarrow> h\<lparr>hwld := (hwld h)\<lparr>files := (files (hwld h))(p \<mapsto> bs)\<rparr>\<rparr>
      | FsEv ev now \<Rightarrow>
          (case watcher h of
             None \<Rightarrow> h
           | Some (_, d) \<Rightarrow> h\<lparr>hwld := dispatch H d (pres h) ev now (hwld h)\<rparr>))"

definition home_run ::
  "hash_fn \<Rightarrow> (path \<Rightarrow> bool) \<Rightarrow> 'ts home_op list \<Rightarrow> ('ts::linorder) home \<Rightarrow> 'ts home" where
  "home_run H dir_exists ops h = fold (home_step H dir_exists) ops h"

text \<open>A home before any command: one file, nothing under \<open>~/.filegit\<close>.\<close>

definition fresh_home :: "path \<Rightarrow> bytes \<Rightarrow> 'ts home" where
  "fresh_home p bs =
     \<lparr>hwld = \<lparr>files = [p \<mapsto> bs], objects = Map.empty, db = empty_db\<rparr>, pres = NoDbFile, wl_doc = None,
      hst = \<lparr>pid_file = None, procs = Map.empty\<rparr>, watcher = None\<rparr>"

section \<open>Lemmas\<close>

lemma home_run_Cons [fg_simps]: "home_run H de (op # ops) h = home_run H de ops (home_step H de op h)"
  by (simp add: home_run_def)

lemma home_run_Nil [fg_simps]: "home_run H de [] h = h"
  by (simp add: home_run_def)

lemma watch_first_path:
  "fs p = Some bs \<Longrightarrow> watch fs p None = Inr (Some (save_watchlist [JStr p]), Added)"
  by (simp add: watch_def get_watchlist_def)

lemma load_single_watchlist:
  "load_watchlist_at_start (Some (save_watchlist [JStr p])) = Inr (Some (save_watchlist [JStr p]), [JStr p])"
  by (simp add: load_watchlist_at_start_def save_watchlist_def)

lemma run_daemon_single:
  "dir_exists (py_parent p) \<Longrightarrow>
   run_daemon dir_exists (Some (save_watchlist [JStr p])) =
     Inr (Some (save_watchlist [JStr p]), \<lparr>wl_start = [JStr p], watched_dirs = [py_parent p]\<rparr>)"
  by (simp add: run_daemon_def load_single_watchlist watch_dirs_of_def)

lemma app_run_dash_run:
  "dash_run H fp evs s = Inr s' \<Longrightarrow> app_run H fp evs s = (s', None)"
  by (induction evs arbitrary: s) (auto split: sum.splits)

lemma app_run_dash_crash:
  "dash_run H fp evs s = Inl e \<Longrightarrow> \<exists>s'. app_run H fp evs s = (s', Some e)"
  by (induction evs arbitrary: s) (auto split: sum.splits)

lemma dispatch_modified:
  "py_parent p \<in> set (watched_dirs d) \<Longrightarrow> dispatch H d pr (Modified p b) now w = on_modified H d pr p b now w"
  by (simp add: dispatch_def)

section \<open>Properties of the command line\<close>

text \<open>
  C25: The commands compose: on a fresh home, \<open>filegit init\<close>, \<open>filegit watch p\<close> and
  \<open>filegit daemon-start\<close> leave a watcher that records the user's next edit of
  \<open>p\<close> as an auto commit when the observer reports it; without \<open>init\<close> the same
  commands and the same edit record nothing, because the watcher's connection
  leaves an \<open>index.db\<close> without the commits table.
\<close>

theorem cli_init_watch_start_records_edit:
  assumes "dir_exists (py_parent p)" and "H bs' \<noteq> []"
  shows "history p (db (hwld (home_run H dir_exists
            [Cli CmdInit, Cli (CmdWatch p), Cli (CmdDaemonStart pid), UserWrite p bs', FsEv (Modified p False) now]
            (fresh_home p bs)))) =
           [\<lparr>cid = 1, file_path = p, object_hash = H bs', message = None, timestamp = now, ctype = Auto\<rparr>] \<and>
         history p (db (hwld (home_run H dir_exists
            [Cli (CmdWatch p), Cli (CmdDaemonStart pid), UserWrite p bs', FsEv (Modified p False) now]
            (fresh_home p bs)))) = []"
  using assms
  by (simp add: fg_simps home_step_def cli_main_def cli_daemon_start_def fresh_home_def watch_first_path
                load_single_watchlist run_daemon_single daemon_start_def dispatch_modified on_modified_snapshot
                setup_repo_table_def handler_connect_def empty_db_def latest_hash_def latest_def history_def
                order_by_ts_desc_def select_path_def insert_commit_def max_rowid_def)

section \<open>Witnesses\<close>

lemma cli_init_watch_start_records_edit_witness:
  "history ''/d/f'' (db (hwld (home_run (\<lambda>bs. replicate (Suc (length bs)) CHR ''a'') (\<lambda>_. True)
      [Cli CmdInit, Cli (CmdWatch ''/d/f''), Cli (CmdDaemonStart 7), UserWrite ''/d/f'' ''xy'',
       FsEv (Modified ''/d/f'' False) (3::nat)]
      (fresh_home ''/d/f'' ''x'')))) =
     [\<lparr>cid = 1, file_path = ''/d/f'', object_hash = ''aaa'', message = None, timestamp = 3, ctype = Auto\<rparr>] \<and>
   history ''/d/f'' (db (hwld (home_run (\<lambda>bs. replicate (Suc (length bs)) CHR ''a'') (\<lambda>_. True)
      [Cli (CmdWatch ''/d/f''), Cli (CmdDaemonStart 7), UserWrite ''/d/f'' ''xy'',
       FsEv (Modified ''/d/f'' False) (3::nat)]
      (fresh_home ''/d/f'' ''x'')))) = []"
  using cli_init_watch_start_records_edit [of "\<lambda>_. True" "''/d/f''" "\<lambda>bs. replicate (Suc (length bs)) CHR ''a''"
          "''xy''" 7 "3::nat" "''x''"]
  by (simp add: numeral_eq_Suc)

end
