(* ===== verification/Spec2Isabelle.thy ===== *)
theory Spec2Isabelle
  imports Dashboard Concurrency Daemon Daemon_Control Timestamps Daemon_Loop Cli
begin

text \<open>
  Verification development of filegit, a single-user file versioning tool
  (src/filegit.py: the command line, the terminal dashboard and the watchlist
  commands; src/filegit_daemon.py: the background watcher). The program keeps three
  pieces of state under \<open>~/.filegit\<close>: the content store \<open>objects/\<close>, one file per
  version named by the SHA-256 hex digest of its bytes; the SQLite table \<open>commits\<close>
  in \<open>index.db\<close>; and \<open>watchlist.json\<close>. Two processes change them: the watcher,
  which snapshots a watched file on every "modified" event, and the dashboard, where
  the user snapshots, promotes, restores and forgets. The library models each part
  as a shallow embedding and proves what the code guarantees and where it does not.

  \<^bold>\<open>Theories and the code they model.\<close>
  \<^item> \<open>Prelude\<close>: the type names (\<open>path\<close>, \<open>bytes\<close>, \<open>digest\<close>, \<open>hash_fn\<close>), the
    collection \<open>fg_simps\<close> of shared rewrite rules, and list lemmas (\<open>fold max\<close>,
    sorting a list whose new last element is the greatest).
  \<^item> \<open>Commit_Index\<close>: the \<open>commits\<close> table as its rows in rowid order and the
    AUTOINCREMENT counter; \<open>insert_commit\<close>, \<open>promote_commit\<close>, \<open>delete_path\<close>
    are the three SQL statements that change it, \<open>history\<close> the
    \<open>ORDER BY timestamp DESC\<close> query (ties by rowid), \<open>latest_hash\<close> its
    \<open>LIMIT 1\<close> form. Timestamps are any linear order (the ISO strings of
    \<open>datetime.now()\<close>).
  \<^item> \<open>Object_Store\<close>: the user's files and the object directory as two maps;
    \<open>get_file_hash\<close> with its 8192-byte read loop (\<open>read_chunks\<close>, a
    \<open>function\<close> terminating on the length of the unread rest, and \<open>read_loop\<close>, the
    same loop kept as a \<open>while_option\<close>) over a hasher modelled by the chunks fed
    to it; the two \<open>shutil.copy\<close> calls. The hash function is a
    parameter \<open>H\<close>; no property depends on SHA-256 beyond what is assumed of \<open>H\<close>.
  \<^item> \<open>Snapshot\<close>: the world (store and index), \<open>create_auto_snapshot\<close>
    (filegit_daemon.py) and \<open>action_add_snapshot\<close> (filegit.py), and the engine
    operations run one at a time.
  \<^item> \<open>Py_Strings\<close>: the Python built-ins the code relies on: \<open>str()\<close> of an
    \<open>int\<close> and of \<open>None\<close>, \<open>split(sep, maxsplit)\<close>, \<open>in\<close> on strings,
    \<open>strip()\<close> and \<open>int()\<close> on strings.
  \<^item> \<open>Timeline\<close>: \<open>load_timeline\<close>, \<open>update_header\<close> and \<open>update_views\<close> of the
    dashboard, with the row keys \<open>"{hash}|{prev}|{id}|{type}"\<close>, against the
    specification's timeline \<open>build_timeline\<close> (section 4.5).
  \<^item> \<open>Dashboard\<close>: \<open>DashboardApp\<close>'s state and key handlers (A, C with the
    commit dialog, R, F with its 5-second cancel timer, S, Q) as a step function
    \<open>dash_step\<close> over a list of UI events; exceptions no handler catches are
    \<open>Inl\<close> and end the application.
  \<^item> \<open>Concurrency\<close>: the watcher's and the dashboard's snapshot statements as
    separate atomic steps (\<open>exec_action\<close>) interleaved with crashes, other
    programs' writes and the dashboard's actions; \<open>reach\<close> is the inductive set of
    reachable states under a scheduler predicate.
  \<^item> \<open>Watchlist\<close>: \<open>watchlist.json\<close> and \<open>get_watchlist\<close>, \<open>save_watchlist\<close>,
    \<open>watch\<close>, \<open>unwatch\<close>, \<open>watch_list\<close>, with \<open>set(json.load(f))\<close> on every kind
    of JSON document.
  \<^item> \<open>Daemon\<close>: \<open>run_daemon\<close>'s start-time watchlist and observer schedule,
    the dispatch of events to \<open>on_modified\<close>, and which way of starting the watcher
    creates the commits table.
  \<^item> \<open>Timestamps\<close>: the \<open>datetime.now().isoformat()\<close> strings every INSERT
    stores (\<open>py_isoformat\<close> over a record of the seven datetime fields), and
    \<open>format_timestamp\<close> (filegit.py) with \<open>fromisoformat\<close> on the shapes
    \<open>isoformat\<close> writes and \<open>strftime('%y-%m-%d %H:%M:%S')\<close>.
  \<^item> \<open>Daemon_Loop\<close>: the end of \<open>run_daemon\<close>, \<open>while True: time.sleep(5)\<close>
    (\<open>sleep_loop\<close>, a \<open>partial_function (option)\<close> over the stream of what ends
    each sleep), its \<open>except Exception\<close> handler and the lines after it
    (\<open>after_loop\<close>), with the exceptions signals raise in the sleeping thread.
  \<^item> \<open>Cli\<close>: the click commands as \<open>__main__\<close> registers them, dispatched by
    \<open>cli_main\<close> over one record \<open>home\<close> of everything under \<open>~/.filegit\<close> and the
    processes; \<open>home_step\<close> adds the user's writes and the observer's events,
    which reach the watcher a successful \<open>daemon-start\<close> left running. This is
    where the watchlist, the daemon, its control and the snapshot engine meet.
  \<^item> \<open>Daemon_Control\<close>: \<open>daemon-start\<close>, \<open>daemon-stop\<close> and \<open>daemon-status\<close>
    over the PID file and the process table, with crashes and pid reuse, and
    what \<open>daemon-status\<close> prints (\<open>daemon_status_output\<close>: the log heading and the
    last ten lines of \<open>daemon.log\<close> through \<open>readlines()\<close>, \<open>lines[-10:]\<close> and
    \<open>strip()\<close>).

  \<^bold>\<open>What is proved.\<close> Invariants: the engine keeps every object self-verifying,
  every row naming an existing object and the rowids increasing (C1); every
  interleaving keeps the rows naming existing objects (C2), and with no write between
  a hash and its copy every row restores to its digest (C3); promotion is never undone
  (C14); the forget confirmation and its timer stay in step (C26). Functional
  behaviour of each operation on every branch: the snapshot paths (C5 to C7), restore
  (C10, C29), the header and the panes (C12, C13), the watcher's reaction to events
  (C18 to C20), the watchlist commands (C22 to C24), the commands composed end to end (C25). Equivalence: the chunked hash is
  the hash of the whole file (C9), fed in full 8192-byte chunks and one shorter last
  chunk (C34, bounds). Well-formedness: every digest stays a hex digest (C35).
  Termination: the read loop, as a \<open>while_option\<close>, stops on every file (C36).
  Refinement: the table's row keys are the
  specification's timeline entries (C11), \<open>history\<close> is the ordered query (C15),
  and the text order of the stored ISO timestamps is chronological order (C37), which
  is what the index's abstract linear order of timestamps stands for: with the
  rows' timestamps read through \<open>retime\<close>, the ordered query on the stored strings
  returns the rows in chronological order (C39, in this theory).
  Round trips: keys through \<open>split\<close> and \<open>int()\<close> (C28), the PID file (C30),
  \<open>watch\<close>/\<open>unwatch\<close> (C22, C23), \<open>fromisoformat\<close> of \<open>isoformat\<close> in
  \<open>format_timestamp\<close> (C38). The remaining claims prove behaviour the
  specification does not want, each recorded as a finding: a write between hashing
  and copying corrupts a version (C4), the non-idempotent dashboard snapshot (C7), a
  clock going back loses a change (C8), a forgotten table under \<open>daemon-start\<close>
  (C21), a corrupt watchlist dropped by \<open>watch\<close> (C24), a corrupt or stale PID file
  (C31, C32), the daemon's clean-up after its main loop, which no signal ever
  reaches (C17, error behaviour). \<open>daemon-status\<close> shows the last ten log lines, stripped (C40). C33 runs the specification's section 8 scenario through the code.

  \<^bold>\<open>Bounds and termination.\<close> The only loop of the core, the read loop, is a
  terminating \<open>function\<close>, and as a \<open>while_option\<close> it is proved to return
  \<open>Some\<close> (C36). The watcher's \<open>while True\<close> sleep loop may run forever: it is a
  \<open>partial_function (option)\<close> over an infinite stream, proved to return exactly
  when a signal interrupts a sleep (C17). Textual's message loop is the event list
  the dashboard's step function folds over, so no fuel is needed. Row ids are
  unbounded naturals, as SQLite's 64-bit rowids are in practice.

  \<^bold>\<open>Not modelled.\<close> The widget layout and styles of the dashboard and of
  \<open>CommitInputScreen\<close> (presentation only, no state the handlers read);
  \<open>difflib\<close>'s unified diff, modelled as the pair of texts it compares; click's
  parsing of \<open>argv\<close> (the model starts from the parsed command; the
  \<open>exists=True\<close> checks of \<open>watch\<close> and \<open>timeline\<close> are modelled);
  python-daemon's double fork, umask, working directory and log redirection
  (library internals); the watchdog observer's threads (events arrive one at a
  time); the shapes \<open>fromisoformat\<close> accepts beyond those \<open>isoformat\<close> writes (no
  stored timestamp has them), the index keeping timestamps abstract with C37
  relating them to the strings; JSON booleans and floats in the watchlist;
  \<open>int()\<close> on non-ASCII digits. With these left out, every function and method
  of src/ is a definition of the library.
\<close>

text \<open>
  The index's rows with their timestamps read through a function: the datetimes
  \<open>datetime.now()\<close> returned, as the ISO strings the table stores or as their
  chronological keys.
\<close>

definition retime :: "('a \<Rightarrow> 'b) \<Rightarrow> 'a commit \<Rightarrow> 'b commit" where
  "retime f r = \<lparr>cid = cid r, file_path = file_path r, object_hash = object_hash r, message = message r,
                 timestamp = f (timestamp r), ctype = ctype r\<rparr>"

definition retime_db :: "('a \<Rightarrow> 'b) \<Rightarrow> 'a index_db \<Rightarrow> 'b index_db" where
  "retime_db f D = \<lparr>rows = map (retime f) (rows D), seq = seq D\<rparr>"

lemma pair_le_cong:
  fixes x y :: "'a::linorder" and x' y' :: "'b::linorder"
  assumes "x < y \<longleftrightarrow> x' < y'" and "x = y \<longleftrightarrow> x' = y'"
  shows "(x, c) \<le> (y, d) \<longleftrightarrow> (x', c) \<le> (y', d)"
  using assms by (auto simp: less_eq_prod_def le_less)

lemma history_retime:
  "history p (retime_db f D) =
     map (retime f) (rev (sort_key (\<lambda>r. (f (timestamp r), cid r)) (select_path p D)))"
proof -
  have "select_path p (retime_db f D) = map (retime f) (select_path p D)"
    by (simp add: select_path_def retime_db_def filter_map comp_def retime_def)
  then show ?thesis
    by (simp add: history_def order_by_ts_desc_def sort_key_map rev_map retime_def)
qed

lemma load_timeline_keys:
  "\<forall>bs. H bs \<noteq> [] \<Longrightarrow>
   map row_key (load_timeline H p now w) =
   map entry_key (build_timeline (get_file_hash H (files w) p) (history p (db w)))"
  by (rule list_all2_map_eq, rule load_timeline_entry_keys) simp

text \<open>
  C33: The scenario of the specification's section 8, run through the code: for any
  hash function whose digests are hex strings and which tells "a" from "ab", the
  watcher snapshots notes.txt at "a" and, after the edit, at "ab"; the dashboard's
  table then holds exactly the rows of the two commits, newest first, each keyed with
  its predecessor; highlighting the newer row, pressing C and submitting "checkpoint"
  promotes it; highlighting the older row and pressing R restores "a"; and the table
  then starts with an uncommitted row for the restored digest whose predecessor is the
  newer commit.
\<close>

theorem spec_scenario_notes_txt:
  assumes hex: "\<forall>bs. hex_digest (H bs)" and inj: "H ''a'' \<noteq> H ''ab''"
  shows "\<exists>w1 w2 s.
    create_auto_snapshot H ''notes.txt'' (1::nat)
      \<lparr>files = [''notes.txt'' \<mapsto> ''a''], objects = Map.empty, db = empty_db\<rparr> = Inr w1 \<and>
    create_auto_snapshot H ''notes.txt'' 2 (w1\<lparr>files := [''notes.txt'' \<mapsto> ''ab'']\<rparr>) = Inr w2 \<and>
    map row_key (load_timeline H ''notes.txt'' 3 w2) =
      map entry_key [Committed 2 (H ''ab'') (Some (H ''a'')) Auto, Committed 1 (H ''a'') None Auto] \<and>
    dash_run H ''notes.txt''
      [Highlight (entry_key (Committed 2 (H ''ab'') (Some (H ''a'')) Auto)), KeyC, Submit ''checkpoint'',
       Highlight (entry_key (Committed 1 (H ''a'') None Auto)), KeyR] (init_dash w2) = Inr s \<and>
    files (wld s) ''notes.txt'' = Some ''a'' \<and>
    map (\<lambda>r. (cid r, ctype r, message r)) (history ''notes.txt'' (db (wld s))) =
      [(2, Manual, Some ''checkpoint''), (1, Auto, None)] \<and>
    map row_key (load_timeline H ''notes.txt'' 4 (wld s)) =
      map entry_key [Uncommitted (H ''a'') (Some (H ''ab'')), Committed 2 (H ''ab'') (Some (H ''a'')) Manual,
                     Committed 1 (H ''a'') None Auto]"
proof -
  let ?p = "''notes.txt''"
  let ?w0 = "\<lparr>files = [?p \<mapsto> ''a''], objects = Map.empty, db = empty_db\<rparr> :: nat world"
  have ne: "\<forall>bs. H bs \<noteq> []" using hex by (simp add: hex_digest_def)
  have ha: "hex_digest (H ''a'')" and hab: "hex_digest (H ''ab'')" using hex by auto
  define r1 where "r1 = \<lparr>cid = 1, file_path = ?p, object_hash = H ''a'', message = None,
                        timestamp = 1::nat, ctype = Auto\<rparr>"
  define r2 where "r2 = \<lparr>cid = 2, file_path = ?p, object_hash = H ''ab'', message = None,
                        timestamp = 2::nat, ctype = Auto\<rparr>"
  define w1 where "w1 = \<lparr>files = [?p \<mapsto> ''a''], objects = [H ''a'' \<mapsto> ''a''],
                        db = \<lparr>rows = [r1], seq = 1\<rparr>\<rparr>"
  define w2 where "w2 = \<lparr>files = [?p \<mapsto> ''ab''], objects = [H ''a'' \<mapsto> ''a'', H ''ab'' \<mapsto> ''ab''],
                        db = \<lparr>rows = [r1, r2], seq = 2\<rparr>\<rparr>"
  have s1: "create_auto_snapshot H ?p 1 ?w0 = Inr w1"
    using ne by (simp add: create_auto_snapshot_changed empty_db_def latest_hash_def latest_def history_def
                           order_by_ts_desc_def select_path_def insert_commit_def max_rowid_def w1_def r1_def)
  have h1: "history ?p (db w1) = [r1]"
    by (simp add: w1_def history_def order_by_ts_desc_def select_path_def r1_def)
  have s2: "create_auto_snapshot H ?p 2 (w1\<lparr>files := [?p \<mapsto> ''ab'']\<rparr>) = Inr w2"
    using ne inj h1
    by (simp add: create_auto_snapshot_changed latest_hash_def latest_def insert_commit_def max_rowid_def
                  w1_def w2_def r1_def r2_def)
  have h2: "history ?p (db w2) = [r2, r1]"
    by (simp add: w2_def history_def order_by_ts_desc_def select_path_def r1_def r2_def)
  have t2: "map row_key (load_timeline H ?p 3 w2) =
      map entry_key [Committed 2 (H ''ab'') (Some (H ''a'')) Auto, Committed 1 (H ''a'') None Auto]"
  proof -
    have "files w2 ?p = Some ''ab''" by (simp add: w2_def)
    then have "get_file_hash H (files w2) ?p = Some (H ''ab'')" by (rule get_file_hash_Some)
    with ne show ?thesis by (simp add: load_timeline_keys h2 build_timeline_def r1_def r2_def)
  qed
  define r2' where "r2' = r2\<lparr>ctype := Manual, message := Some ''checkpoint''\<rparr>"
  define wR where "wR = \<lparr>files = [?p \<mapsto> ''a''], objects = [H ''a'' \<mapsto> ''a'', H ''ab'' \<mapsto> ''ab''],
                        db = \<lparr>rows = [r1, r2'], seq = 2\<rparr>\<rparr>"
  have k2: "py_split CHR ''|'' 4 (entry_key (Committed 2 (H ''ab'') (Some (H ''a'')) Auto)) =
            [H ''ab'', py_str_opt (Some (H ''a'')), py_str_nat 2, py_type_str Auto]"
    using ha hab by (intro commit_key_split) auto
  have k1: "py_split CHR ''|'' 4 (entry_key (Committed 1 (H ''a'') None Auto)) =
            [H ''a'', py_str_opt None, py_str_nat 1, py_type_str Auto]"
    using ha by (intro commit_key_split) auto
  have d: "\<exists>s. dash_run H ?p
      [Highlight (entry_key (Committed 2 (H ''ab'') (Some (H ''a'')) Auto)), KeyC, Submit ''checkpoint'',
       Highlight (entry_key (Committed 1 (H ''a'') None Auto)), KeyR] (init_dash w2) = Inr s \<and> wld s = wR"
    using k1 k2 inj
    by (simp add: dash_step_def init_dash_def highlight_def action_commit_message_def on_submit_def
                  action_restore_selected_def restore_from_object_def notify_def promote_commit_def
                  fg_simps w2_def wR_def r1_def r2_def r2'_def)
  have hR: "history ?p (db wR) = [r2', r1]"
    by (simp add: wR_def history_def order_by_ts_desc_def select_path_def r1_def r2_def r2'_def)
  have tR: "map row_key (load_timeline H ?p 4 wR) =
      map entry_key [Uncommitted (H ''a'') (Some (H ''ab'')), Committed 2 (H ''ab'') (Some (H ''a'')) Manual,
                     Committed 1 (H ''a'') None Auto]"
  proof -
    have "files wR ?p = Some ''a''" by (simp add: wR_def)
    then have "get_file_hash H (files wR) ?p = Some (H ''a'')" by (rule get_file_hash_Some)
    with ne inj show ?thesis by (simp add: load_timeline_keys hR build_timeline_def r1_def r2_def r2'_def)
  qed
  have fR: "files wR ?p = Some ''a''" by (simp add: wR_def)
  have mR: "map (\<lambda>r. (cid r, ctype r, message r)) (history ?p (db wR)) =
      [(2, Manual, Some ''checkpoint''), (1, Auto, None)]"
    by (simp add: hR r1_def r2_def r2'_def)
  from d obtain s where "dash_run H ?p
      [Highlight (entry_key (Committed 2 (H ''ab'') (Some (H ''a'')) Auto)), KeyC, Submit ''checkpoint'',
       Highlight (entry_key (Committed 1 (H ''a'') None Auto)), KeyR] (init_dash w2) = Inr s" and "wld s = wR"
    by blast
  with s1 s2 t2 tR fR mR show ?thesis by auto
qed


text \<open>
  C39: Across the commit index and the timestamps: when every row's timestamp is
  the \<open>isoformat()\<close> of a valid datetime, \<open>SELECT * ... WHERE file_path = ?
  ORDER BY timestamp DESC\<close> on the stored strings returns the path's rows newest
  first in the chronological order of their datetimes (ties by rowid), whatever
  order the rows were inserted in.
\<close>

theorem history_isoformat_chronological:
  assumes "\<forall>r\<in>set (rows D). dt_valid (timestamp r)"
  shows "history p (retime_db py_isoformat D) =
         map (retime py_isoformat) (rev (sort_key (\<lambda>r. (dt_key (timestamp r), cid r)) (select_path p D)))"
proof -
  have "(py_isoformat (timestamp a), cid a) \<le> (py_isoformat (timestamp b), cid b) \<longleftrightarrow>
        (dt_key (timestamp a), cid a) \<le> (dt_key (timestamp b), cid b)"
    if "a \<in> set (select_path p D)" and "b \<in> set (select_path p D)" for a b
  proof -
    have va: "dt_valid (timestamp a)" and vb: "dt_valid (timestamp b)"
      using that assms by (auto simp: select_path_def)
    show ?thesis by (rule pair_le_cong [OF isoformat_less_iff [OF va vb] isoformat_eq_iff [OF va vb]])
  qed
  then have "sort_key (\<lambda>r. (py_isoformat (timestamp r), cid r)) (select_path p D) =
             sort_key (\<lambda>r. (dt_key (timestamp r), cid r)) (select_path p D)"
    by (intro sort_key_cong_order) blast
  then show ?thesis by (simp only: history_retime)
qed

section \<open>Witnesses\<close>

lemma history_isoformat_chronological_witness:
  "history ''f'' (retime_db py_isoformat
     \<lparr>rows = [\<lparr>cid = 1, file_path = ''f'', object_hash = ''aa'', message = None,
               timestamp = \<lparr>year = 2024, month = 12, day = 1, hour = 0, minute = 0, second = 0, microsecond = 1\<rparr>,
               ctype = Auto\<rparr>,
              \<lparr>cid = 2, file_path = ''f'', object_hash = ''bb'', message = None,
               timestamp = \<lparr>year = 2024, month = 3, day = 31, hour = 23, minute = 59, second = 59, microsecond = 0\<rparr>,
               ctype = Auto\<rparr>], seq = 2\<rparr>) =
   map (retime py_isoformat)
     [\<lparr>cid = 1, file_path = ''f'', object_hash = ''aa'', message = None,
       timestamp = \<lparr>year = 2024, month = 12, day = 1, hour = 0, minute = 0, second = 0, microsecond = 1\<rparr>,
       ctype = Auto\<rparr>,
      \<lparr>cid = 2, file_path = ''f'', object_hash = ''bb'', message = None,
       timestamp = \<lparr>year = 2024, month = 3, day = 31, hour = 23, minute = 59, second = 59, microsecond = 0\<rparr>,
       ctype = Auto\<rparr>]"
  by (rule trans [OF history_isoformat_chronological])
     (simp_all add: dt_valid_def days_in_month_def leap_year_def dt_key_def select_path_def)


lemma spec_scenario_notes_txt_witness:
  "\<exists>w1 w2 s.
    create_auto_snapshot (\<lambda>bs. replicate (Suc (length bs)) CHR ''a'') ''notes.txt'' (1::nat)
      \<lparr>files = [''notes.txt'' \<mapsto> ''a''], objects = Map.empty, db = empty_db\<rparr> = Inr w1 \<and>
    create_auto_snapshot (\<lambda>bs. replicate (Suc (length bs)) CHR ''a'') ''notes.txt'' 2 (w1\<lparr>files := [''notes.txt'' \<mapsto> ''ab'']\<rparr>) = Inr w2 \<and>
    map row_key (load_timeline (\<lambda>bs. replicate (Suc (length bs)) CHR ''a'') ''notes.txt'' 3 w2) =
      map entry_key [Committed 2 ((\<lambda>bs. replicate (Suc (length bs)) CHR ''a'') ''ab'') (Some ((\<lambda>bs. replicate (Suc (length bs)) CHR ''a'') ''a'')) Auto, Committed 1 ((\<lambda>bs. replicate (Suc (length bs)) CHR ''a'') ''a'') None Auto] \<and>
    dash_run (\<lambda>bs. replicate (Suc (length bs)) CHR ''a'') ''notes.txt''
      [Highlight (entry_key (Committed 2 ((\<lambda>bs. replicate (Suc (length bs)) CHR ''a'') ''ab'') (Some ((\<lambda>bs. replicate (Suc (length bs)) CHR ''a'') ''a'')) Auto)), KeyC, Submit ''checkpoint'',
       Highlight (entry_key (Committed 1 ((\<lambda>bs. replicate (Suc (length bs)) CHR ''a'') ''a'') None Auto)), KeyR] (init_dash w2) = Inr s \<and>
    files (wld s) ''notes.txt'' = Some ''a'' \<and>
    map (\<lambda>r. (cid r, ctype r, message r)) (history ''notes.txt'' (db (wld s))) =
      [(2, Manual, Some ''checkpoint''), (1, Auto, None)] \<and>
    map row_key (load_timeline (\<lambda>bs. replicate (Suc (length bs)) CHR ''a'') ''notes.txt'' 4 (wld s)) =
      map entry_key [Uncommitted ((\<lambda>bs. replicate (Suc (length bs)) CHR ''a'') ''a'') (Some ((\<lambda>bs. replicate (Suc (length bs)) CHR ''a'') ''ab'')), Committed 2 ((\<lambda>bs. replicate (Suc (length bs)) CHR ''a'') ''ab'') (Some ((\<lambda>bs. replicate (Suc (length bs)) CHR ''a'') ''a'')) Manual,
                     Committed 1 ((\<lambda>bs. replicate (Suc (length bs)) CHR ''a'') ''a'') None Auto]"
proof -
  have hex: "\<forall>bs. hex_digest ((\<lambda>bs. replicate (Suc (length bs)) CHR ''a'') bs)"
    by (auto simp: hex_digest_def)
  have inj: "(\<lambda>bs. replicate (Suc (length bs)) CHR ''a'') ''a'' \<noteq> (\<lambda>bs. replicate (Suc (length bs)) CHR ''a'') ''ab''" by simp
  show ?thesis by (rule spec_scenario_notes_txt [OF hex inj])
qed

end
